theory Spec2Isabelle
  imports Main "HOL-Library.Multiset" "HOL-Library.Product_Lexorder" "HOL-Library.Sublist"
begin

section \<open>The store: the \<^verbatim>\<open>patch_channels\<close> table\<close>

text \<open>
  The application keeps its data in a hosted relational store and reaches it through
  row-level calls. Primary keys are opaque uuid strings that the store hands out; they are
  modelled as natural numbers. The project notes give the table
  \<^verbatim>\<open>patch_channels(id, event_id, channel_number, canonical_channel_id, ...)\<close>
  with the constraint \<^verbatim>\<open>unique(event_id, channel_number)\<close>, which the store checks
  statement by statement.
\<close>

type_synonym ident = nat

record patch_row =
  pc_id :: ident
  pc_event_id :: ident
  pc_channel_number :: int
  pc_canonical_channel_id :: "ident option"

datatype db_error = UniqueViolation | ForeignKeyViolation

text \<open>
  \<^verbatim>\<open>number_taken tbl r n\<close>: another row of the event of \<open>r\<close> already holds the
  number \<open>n\<close>, so writing \<open>n\<close> into \<open>r\<close> would break
  \<^verbatim>\<open>unique(event_id, channel_number)\<close>.
\<close>

definition number_taken :: "patch_row list \<Rightarrow> patch_row \<Rightarrow> int \<Rightarrow> bool" where
  "number_taken tbl r n =
     (\<exists>r' \<in> set tbl. pc_id r' \<noteq> pc_id r \<and> pc_event_id r' = pc_event_id r
        \<and> pc_channel_number r' = n)"

text \<open>
  \<^verbatim>\<open>supabase.from("patch_channels").update({ channel_number: n }).eq("id", pid)\<close>:
  the statement is rejected as a whole when it would break the constraint, and otherwise
  rewrites the number of the row with that id (no row: nothing happens).
\<close>

definition updatePatchChannelNumber ::
  "ident \<Rightarrow> int \<Rightarrow> patch_row list \<Rightarrow> db_error + patch_row list" where
  "updatePatchChannelNumber pid n tbl =
     (if \<exists>r \<in> set tbl. pc_id r = pid \<and> number_taken tbl r n then Inl UniqueViolation
      else Inr (map (\<lambda>r. if pc_id r = pid then r\<lparr>pc_channel_number := n\<rparr> else r) tbl))"

text \<open>The constraint itself, as a predicate on a table.\<close>

definition unique_numbers :: "patch_row list \<Rightarrow> bool" where
  "unique_numbers tbl =
     (\<forall>r \<in> set tbl. \<forall>r' \<in> set tbl.
        pc_id r \<noteq> pc_id r' \<longrightarrow> pc_event_id r = pc_event_id r'
          \<longrightarrow> pc_channel_number r \<noteq> pc_channel_number r')"

section \<open>The two-phase renumbering (\<^verbatim>\<open>applyChannelOrder\<close>)\<close>

text \<open>
  \<^verbatim>\<open>orderedIds.map((id, idx) => ...update({ channel_number: idx + off }).eq("id", id))\<close>:
  the update requests of one phase, in the order in which the source builds them.
\<close>

definition phase_updates :: "int \<Rightarrow> ident list \<Rightarrow> (ident \<times> int) list" where
  "phase_updates off orderedIds =
     map (\<lambda>(idx, pid). (pid, int idx + off)) (enumerate 0 orderedIds)"

text \<open>
  The store serves the requests of a phase one at a time. The source never reads the
  result of an update, so a rejected request is dropped and the table stays as it was;
  the second component collects the rejected requests.
\<close>

fun run_updates ::
  "(ident \<times> int) list \<Rightarrow> patch_row list \<Rightarrow> patch_row list \<times> (ident \<times> int) list" where
  "run_updates [] tbl = (tbl, [])"
| "run_updates ((pid, n) # us) tbl =
     (case updatePatchChannelNumber pid n tbl of
        Inl e \<Rightarrow> (case run_updates us tbl of (t, rej) \<Rightarrow> (t, (pid, n) # rej))
      | Inr tbl' \<Rightarrow> run_updates us tbl')"

text \<open>
  Both phases are issued with \<^verbatim>\<open>Promise.all\<close>, so the store may serve the requests of
  a phase in any order: \<open>s1\<close> and \<open>s2\<close> are the orders in which it serves phase 1 and
  phase 2. Phase 2 starts after phase 1 has been awaited.
\<close>

definition applyChannelOrder_sched ::
  "(ident \<times> int) list \<Rightarrow> (ident \<times> int) list \<Rightarrow> patch_row list
     \<Rightarrow> patch_row list \<times> (ident \<times> int) list" where
  "applyChannelOrder_sched s1 s2 tbl =
     (case run_updates s1 tbl of (t1, r1) \<Rightarrow>
        (case run_updates s2 t1 of (t2, r2) \<Rightarrow> (t2, r1 @ r2)))"

definition valid_schedule :: "int \<Rightarrow> ident list \<Rightarrow> (ident \<times> int) list \<Rightarrow> bool" where
  "valid_schedule off orderedIds s = (mset s = mset (phase_updates off orderedIds))"

text \<open>The source as written: requests served in list order.\<close>

definition applyChannelOrder ::
  "ident list \<Rightarrow> patch_row list \<Rightarrow> patch_row list \<times> (ident \<times> int) list" where
  "applyChannelOrder orderedIds tbl =
     applyChannelOrder_sched (phase_updates 1000 orderedIds) (phase_updates 1 orderedIds) tbl"


text \<open>
  What a phase that meets no rejection does to the table: every row whose id has a
  request gets the requested number; all other rows and fields stay.
\<close>

definition apply_numbers :: "(ident \<rightharpoonup> int) \<Rightarrow> patch_row list \<Rightarrow> patch_row list" where
  "apply_numbers m tbl =
     map (\<lambda>r. case m (pc_id r) of None \<Rightarrow> r | Some n \<Rightarrow> r\<lparr>pc_channel_number := n\<rparr>) tbl"

section \<open>Category ranking and catalog order\<close>

text \<open>
  Global reference data. \<^verbatim>\<open>type Category = { id; name; sort_order: number }\<close> and
  \<^verbatim>\<open>type CanonicalChannel = { id; name; default_order: number; category_id: string | null }\<close>.
  The numbers are integers in the store (\<^verbatim>\<open>int\<close> columns).
\<close>

record category =
  cat_id :: ident
  cat_name :: string
  cat_sort_order :: int

record canonical_channel =
  ch_id :: ident
  ch_name :: string
  ch_default_order :: int
  ch_category_id :: "ident option"

text \<open>
  \<^verbatim>\<open>name.toLowerCase()\<close>. Names are modelled as strings of 8-bit characters, and
  lower-casing maps \<^verbatim>\<open>A..Z\<close> (codes 65 to 90) to \<^verbatim>\<open>a..z\<close> by setting bit 5, that is
  adding 32; every other character stays. Letters outside ASCII are outside the model
  (no keyword of the table contains one).
\<close>

definition toLowerChar :: "char \<Rightarrow> char" where
  "toLowerChar c =
     (let n = (of_char c :: nat) in
      if 65 \<le> n \<and> n \<le> 90
      then Char (digit0 c) (digit1 c) (digit2 c) (digit3 c) (digit4 c) True (digit6 c) (digit7 c)
      else c)"

definition toLowerCase :: "string \<Rightarrow> string" where
  "toLowerCase s = map toLowerChar s"

text \<open>
  \<^verbatim>\<open>s.includes(t)\<close>: \<open>t\<close> occurs in \<open>s\<close> as a contiguous run, starting at some
  position.
\<close>

fun includes_str :: "string \<Rightarrow> string \<Rightarrow> bool" where
  "includes_str [] t = (t = [])"
| "includes_str (c # cs) t = (prefix t (c # cs) \<or> includes_str cs t)"

text \<open>
  \<^verbatim>\<open>categoryOrderValue\<close>: the fixed table of keyword groups and weights, and the loop
  that returns the weight of the first group one of whose tokens the lower-cased name
  includes, or 9999 when the loop ends without a match.
\<close>

definition orderMap :: "(string list \<times> int) list" where
  "orderMap =
     [([''drum'', ''drums''], 0),
      ([''perc'', ''percussion''], 1),
      ([''bass''], 2),
      ([''guitar'', ''gitaar''], 3),
      ([''keys'', ''key'', ''sample'', ''samples''], 4),
      ([''varia'', ''other'', ''overig''], 5),
      ([''vox'', ''vocal'', ''voice''], 6)]"

fun order_loop :: "(string list \<times> int) list \<Rightarrow> string \<Rightarrow> int" where
  "order_loop [] lower = 9999"
| "order_loop ((tokens, weight) # rest) lower =
     (if \<exists>t \<in> set tokens. includes_str lower t then weight else order_loop rest lower)"

definition categoryOrderValue :: "string \<Rightarrow> int" where
  "categoryOrderValue name = order_loop orderMap (toLowerCase name)"


text \<open>
  \<^verbatim>\<open>[...xs].sort(cmp)\<close>. ECMAScript requires \<^verbatim>\<open>Array.prototype.sort\<close> to be stable,
  and for a consistent comparator its result is the one stable sorted arrangement of the
  input, whatever algorithm the engine uses. It is modelled by insertion from the right:
  an element goes in front of the first element it does not compare greater than, so it
  stays in front of the equal elements that followed it in the input. (That any stable
  sort returns the same list is part of the theorem for the catalog order below.)
\<close>

fun insort_cmp :: "('a \<Rightarrow> 'a \<Rightarrow> int) \<Rightarrow> 'a \<Rightarrow> 'a list \<Rightarrow> 'a list" where
  "insort_cmp cmp x [] = [x]"
| "insort_cmp cmp x (y # ys) = (if cmp x y \<le> 0 then x # y # ys else y # insort_cmp cmp x ys)"

definition sort_cmp :: "('a \<Rightarrow> 'a \<Rightarrow> int) \<Rightarrow> 'a list \<Rightarrow> 'a list" where
  "sort_cmp cmp xs = foldr (insort_cmp cmp) xs []"

text \<open>
  \<^verbatim>\<open>canonicalOrder\<close>: the map \<^verbatim>\<open>catOrder\<close> from category id to weight is filled by
  \<^verbatim>\<open>categories.forEach((c) => catOrder.set(c.id, categoryOrderValue(c.name)))\<close>
  (a later category with the same id overwrites an earlier one); the weight of a channel
  is \<^verbatim>\<open>a.category_id ? catOrder.get(a.category_id) ?? 9999 : 9999\<close>.
\<close>

definition catOrder :: "category list \<Rightarrow> (ident \<rightharpoonup> int)" where
  "catOrder categories =
     fold (\<lambda>c m. m(cat_id c \<mapsto> categoryOrderValue (cat_name c))) categories Map.empty"

definition category_weight :: "category list \<Rightarrow> canonical_channel \<Rightarrow> int" where
  "category_weight categories a =
     (case ch_category_id a of
        None \<Rightarrow> 9999
      | Some cid \<Rightarrow> (case catOrder categories cid of None \<Rightarrow> 9999 | Some w \<Rightarrow> w))"

definition canonicalOrder :: "category list \<Rightarrow> canonical_channel \<Rightarrow> canonical_channel \<Rightarrow> int" where
  "canonicalOrder categories a b =
     (let ca = category_weight categories a;
          cb = category_weight categories b
      in if ca \<noteq> cb then ca - cb else ch_default_order a - ch_default_order b)"

text \<open>
  \<^verbatim>\<open>orderedCanonicalChannels = [...canonicalChannels].sort(canonicalOrder)\<close> (the tech
  list page has the same code under the name \<^verbatim>\<open>orderedChannels\<close>).
\<close>

definition orderedCanonicalChannels :: "category list \<Rightarrow> canonical_channel list \<Rightarrow> canonical_channel list" where
  "orderedCanonicalChannels categories canonicalChannels =
     sort_cmp (canonicalOrder categories) canonicalChannels"

text \<open>
  \<^verbatim>\<open>sortedCategories\<close>: weight first, then
  \<^verbatim>\<open>(a.sort_order ?? 9999) - (b.sort_order ?? 9999)\<close>; \<^verbatim>\<open>sort_order\<close> is declared a
  number, on which \<^verbatim>\<open>??\<close> changes nothing.
\<close>

definition sortedCategories :: "category list \<Rightarrow> category list" where
  "sortedCategories categories =
     sort_cmp (\<lambda>a b. let orderA = categoryOrderValue (cat_name a);
                         orderB = categoryOrderValue (cat_name b)
                     in if orderA \<noteq> orderB then orderA - orderB
                        else cat_sort_order a - cat_sort_order b) categories"

text \<open>
  The ranking in the words of the specification: a keyword occurs case-insensitively as a
  substring of a name when some contiguous part of the name equals the keyword up to
  case; the rank is the weight of the first keyword group of the table with such a
  keyword, and the sentinel 9999 when there is none.
\<close>

definition occurs_ci :: "string \<Rightarrow> string \<Rightarrow> bool" where
  "occurs_ci keyword name =
     (\<exists>pre mid post. name = pre @ mid @ post \<and> toLowerCase mid = toLowerCase keyword)"

definition rank_spec :: "string \<Rightarrow> int" where
  "rank_spec name =
     (case find (\<lambda>(keywords, weight). \<exists>k \<in> set keywords. occurs_ci k name) orderMap of
        Some (keywords, weight) \<Rightarrow> weight
      | None \<Rightarrow> 9999)"

text \<open>
  The sort keys: pairs compared lexicographically.
\<close>

definition channel_key :: "category list \<Rightarrow> canonical_channel \<Rightarrow> int \<times> int" where
  "channel_key categories c = (category_weight categories c, ch_default_order c)"

definition category_key :: "category \<Rightarrow> int \<times> int" where
  "category_key c = (categoryOrderValue (cat_name c), cat_sort_order c)"

section \<open>The store: bands, usage rows and tech lists\<close>

text \<open>
  The other tables, as the project notes give them (columns that no modelled function
  reads are left out): \<^verbatim>\<open>bands(id, event_id, name, sort_order)\<close>,
  \<^verbatim>\<open>band_channel_usage(id, band_id, patch_channel_id, is_used, label)\<close> with
  \<^verbatim>\<open>unique(band_id, patch_channel_id)\<close>, and the tech-list tables that the tech-list
  page writes. The in-memory type \<^verbatim>\<open>BandChannelUsage\<close> has exactly the columns of a
  usage row and shares its record.
\<close>

record band_row =
  b_id :: ident
  b_event_id :: ident
  b_name :: string
  b_sort_order :: int

record usage_row =
  u_id :: ident
  u_band_id :: ident
  u_patch_channel_id :: ident
  u_is_used :: bool
  u_label :: "string option"

record techlist_row =
  tl_id :: ident
  tl_name :: string
  tl_notes :: "string option"

record techlist_channel_row =
  tc_techlist_id :: ident
  tc_channel_number :: int
  tc_canonical_channel_id :: ident
  tc_label :: string
  tc_mic_or_di :: "string option"
  tc_stand :: "string option"
  tc_notes :: "string option"

text \<open>
  The state of the store. \<open>db_next_id\<close> is the next key the store hands out, and
  \<open>db_writes\<close> counts the mutating statements it has received, accepted or not, so
  that an unchanged state means that no mutation was issued at all.
\<close>

record db =
  db_canonical_channels :: "canonical_channel list"
  db_patch_channels :: "patch_row list"
  db_bands :: "band_row list"
  db_band_channel_usage :: "usage_row list"
  db_techlists :: "techlist_row list"
  db_techlist_channels :: "techlist_channel_row list"
  db_next_id :: nat
  db_writes :: nat

text \<open>
  The row-level calls. Each returns the store's answer (\<open>Inl\<close> an error) and the new
  state. The modelled store refuses a statement for a uniqueness violation, and it
  refuses to delete patch channels that usage rows refer to. The other references of the
  notes are not checked and network failures are not modelled, so the source's error
  branches after the other calls are present in the model but never taken.

  \<^verbatim>\<open>from("patch_channels").insert(newRows).select(...)\<close>: all rows or none.
\<close>

definition insertPatchChannels ::
  "(ident \<times> int \<times> ident option) list \<Rightarrow> db \<Rightarrow> (db_error + patch_row list) \<times> db" where
  "insertPatchChannels newRows d =
     (if (\<exists>(ev, n, c) \<in> set newRows. \<exists>r \<in> set (db_patch_channels d).
             pc_event_id r = ev \<and> pc_channel_number r = n)
         \<or> \<not> distinct (map (\<lambda>(ev, n, c). (ev, n)) newRows)
      then (Inl UniqueViolation, d\<lparr>db_writes := db_writes d + 1\<rparr>)
      else
        let created = map (\<lambda>(idx, (ev, n, c)).
                \<lparr>pc_id = db_next_id d + idx, pc_event_id = ev, pc_channel_number = n,
                 pc_canonical_channel_id = c\<rparr>) (enumerate 0 newRows)
        in (Inr created,
            d\<lparr>db_patch_channels := db_patch_channels d @ created,
              db_next_id := db_next_id d + length newRows,
              db_writes := db_writes d + 1\<rparr>))"

text \<open>
  \<^verbatim>\<open>from("patch_channels").delete().in("id", ids)\<close>. The notes declare the reference
  \<^verbatim>\<open>band_channel_usage.patch_channel_id \<rightarrow> patch_channels.id\<close> and name no action on
  delete, so the default of SQL applies: the statement is refused, as a whole, when a
  usage row refers to one of the rows it would delete.
\<close>

definition deletePatchChannels :: "ident list \<Rightarrow> db \<Rightarrow> (db_error + unit) \<times> db" where
  "deletePatchChannels ids d =
     (if \<exists>u \<in> set (db_band_channel_usage d). \<exists>r \<in> set (db_patch_channels d).
           pc_id r \<in> set ids \<and> u_patch_channel_id u = pc_id r
      then (Inl ForeignKeyViolation, d\<lparr>db_writes := db_writes d + 1\<rparr>)
      else
        (Inr (),
         d\<lparr>db_patch_channels := filter (\<lambda>r. pc_id r \<notin> set ids) (db_patch_channels d),
           db_writes := db_writes d + 1\<rparr>))"

text \<open>\<^verbatim>\<open>from("bands").insert({ event_id, name, sort_order }).select().single()\<close>.\<close>

definition insertBand :: "ident \<Rightarrow> string \<Rightarrow> int \<Rightarrow> db \<Rightarrow> (db_error + band_row) \<times> db" where
  "insertBand ev name so d =
     (let row = \<lparr>b_id = db_next_id d, b_event_id = ev, b_name = name, b_sort_order = so\<rparr>
      in (Inr row,
          d\<lparr>db_bands := db_bands d @ [row],
            db_next_id := db_next_id d + 1,
            db_writes := db_writes d + 1\<rparr>))"

text \<open>\<^verbatim>\<open>from("bands").update({ name }).eq("id", bandId)\<close>.\<close>

definition updateBandName :: "ident \<Rightarrow> string \<Rightarrow> db \<Rightarrow> (db_error + unit) \<times> db" where
  "updateBandName bandId name d =
     (Inr (),
      d\<lparr>db_bands := map (\<lambda>b. if b_id b = bandId then b\<lparr>b_name := name\<rparr> else b) (db_bands d),
        db_writes := db_writes d + 1\<rparr>)"

text \<open>\<^verbatim>\<open>from("band_channel_usage").delete().eq("band_id", bandId)\<close>.\<close>

definition deleteUsageOfBand :: "ident \<Rightarrow> db \<Rightarrow> (db_error + unit) \<times> db" where
  "deleteUsageOfBand bandId d =
     (Inr (),
      d\<lparr>db_band_channel_usage := filter (\<lambda>u. u_band_id u \<noteq> bandId) (db_band_channel_usage d),
        db_writes := db_writes d + 1\<rparr>)"

text \<open>
  \<^verbatim>\<open>from("band_channel_usage").insert(usageRows).select()\<close>, under
  \<^verbatim>\<open>unique(band_id, patch_channel_id)\<close>.
\<close>

definition insertUsage ::
  "(ident \<times> ident \<times> bool \<times> string option) list \<Rightarrow> db \<Rightarrow> (db_error + usage_row list) \<times> db" where
  "insertUsage usageRows d =
     (if (\<exists>(b, p, used, l) \<in> set usageRows. \<exists>u \<in> set (db_band_channel_usage d).
             u_band_id u = b \<and> u_patch_channel_id u = p)
         \<or> \<not> distinct (map (\<lambda>(b, p, used, l). (b, p)) usageRows)
      then (Inl UniqueViolation, d\<lparr>db_writes := db_writes d + 1\<rparr>)
      else
        let created = map (\<lambda>(idx, (b, p, used, l)).
                \<lparr>u_id = db_next_id d + idx, u_band_id = b, u_patch_channel_id = p,
                 u_is_used = used, u_label = l\<rparr>) (enumerate 0 usageRows)
        in (Inr created,
            d\<lparr>db_band_channel_usage := db_band_channel_usage d @ created,
              db_next_id := db_next_id d + length usageRows,
              db_writes := db_writes d + 1\<rparr>))"


text \<open>
  \<^verbatim>\<open>applyChannelOrder\<close> on the whole store state: two statements per listed id.
\<close>

definition applyChannelOrder_db :: "ident list \<Rightarrow> db \<Rightarrow> db" where
  "applyChannelOrder_db orderedIds d =
     d\<lparr>db_patch_channels := fst (applyChannelOrder orderedIds (db_patch_channels d)),
       db_writes := db_writes d + 2 * length orderedIds\<rparr>"

section \<open>Pruning (\<^verbatim>\<open>pruneUnusedPatchChannels\<close>)\<close>

text \<open>
  The two reads: the patch channels of the event by ascending number (the store's
  order among equal numbers is not specified; the constraint leaves none within an event;
  the model keeps table order), and the usage rows on those patch channels. A patch
  channel is used when some row on it has \<^verbatim>\<open>is_used\<close>. The unused ones are deleted,
  and the remaining ids, in their order, are renumbered. Both early returns and the
  error returns of the source are branches here.
\<close>

definition selectPatchChannels :: "ident \<Rightarrow> db \<Rightarrow> patch_row list" where
  "selectPatchChannels eventId d =
     sort_key pc_channel_number (filter (\<lambda>r. pc_event_id r = eventId) (db_patch_channels d))"

definition unusedPatchIds :: "patch_row list \<Rightarrow> db \<Rightarrow> ident list" where
  "unusedPatchIds patchData d =
     (let patchIds = map pc_id patchData;
          usageData = filter (\<lambda>u. u_patch_channel_id u \<in> set patchIds) (db_band_channel_usage d);
          used = map u_patch_channel_id (filter u_is_used usageData)
      in map pc_id (filter (\<lambda>p. pc_id p \<notin> set used) patchData))"

definition pruneUnusedPatchChannels :: "ident \<Rightarrow> db \<Rightarrow> db" where
  "pruneUnusedPatchChannels eventId d =
     (let patchData = selectPatchChannels eventId d in
      if patchData = [] then d
      else
        let unusedIds = unusedPatchIds patchData d
        in if unusedIds = [] then d
           else
             (case deletePatchChannels unusedIds d of
                (Inl delError, d1) \<Rightarrow> d1
              | (Inr _, d1) \<Rightarrow>
                  let remainingIds = map pc_id (filter (\<lambda>p. pc_id p \<notin> set unusedIds) patchData)
                  in if remainingIds \<noteq> [] then applyChannelOrder_db remainingIds d1 else d1))"

section \<open>The builder page: its state\<close>

text \<open>
  The in-memory types of the page (\<^verbatim>\<open>PatchChannel\<close> with the joined channel name,
  \<^verbatim>\<open>Band\<close>) and the React state of \<^verbatim>\<open>FestivalBuilderPage\<close>. Of an event only the id
  is read. \<^verbatim>\<open>usageMap\<close> is keyed by the pair that the source concatenates into
  \<^verbatim>\<open>`${bandId}-${patchChannelId}`\<close>. \<^verbatim>\<open>newBandSelection\<close> is a \<^verbatim>\<open>Set\<close>, which
  JavaScript iterates in insertion order: it is a list without duplicates.
\<close>

record PatchChannel =
  p_id :: ident
  p_channel_number :: int
  p_canonical_channel_id :: "ident option"
  p_canonical_name :: "string option"

record Band =
  bd_id :: ident
  bd_name :: string
  bd_sort_order :: int

datatype auto_status = Idle | Saving | Saved | Failed

record builder =
  events :: "ident list"
  selectedEventId :: "ident option"
  canonicalChannels :: "canonical_channel list"
  patchChannels :: "PatchChannel list"
  bands :: "Band list"
  usageMap :: "ident \<times> ident \<rightharpoonup> usage_row"
  editingBandId :: "ident option"
  bandDirty :: bool
  bandAutoStatus :: auto_status
  newBandName :: string
  newBandSelection :: "ident list"
  loading :: bool
  savingBand :: bool
  error :: "string option"

text \<open>\<^verbatim>\<open>events.find((ev) => ev.id === selectedEventId) ?? null\<close>.\<close>

definition selectedEvent :: "builder \<Rightarrow> ident option" where
  "selectedEvent ui =
     (case selectedEventId ui of None \<Rightarrow> None | Some ev \<Rightarrow> find (\<lambda>x. x = ev) (events ui))"

text \<open>
  \<^verbatim>\<open>String.prototype.trim\<close> strips white space and line terminators from both ends.
  A character of a \<open>string\<close> is a code point below 256; of these, \<^verbatim>\<open>trim\<close> strips tab,
  line feed, vertical tab, form feed, carriage return, space and the no-break space
  (codes 9 to 13, 32 and 160).
\<close>

definition is_space :: "char \<Rightarrow> bool" where
  "is_space c = ((of_char c :: nat) \<in> {9, 10, 11, 12, 13, 32, 160})"

definition trim :: "string \<Rightarrow> string" where
  "trim s = rev (dropWhile is_space (rev (dropWhile is_space s)))"

text \<open>\<^verbatim>\<open>Set.prototype.add\<close>: a new element goes last, a present one stays where it is.\<close>

definition set_add :: "'a \<Rightarrow> 'a list \<Rightarrow> 'a list" where
  "set_add x xs = (if x \<in> set xs then xs else xs @ [x])"

section \<open>Loading an event (\<^verbatim>\<open>loadEventData\<close>)\<close>

definition to_Band :: "band_row \<Rightarrow> Band" where
  "to_Band b = \<lparr>bd_id = b_id b, bd_name = b_name b, bd_sort_order = b_sort_order b\<rparr>"

text \<open>
  A selected patch-channel row with the join \<^verbatim>\<open>canonical_channels(name)\<close>.
\<close>

definition to_PatchChannel :: "db \<Rightarrow> patch_row \<Rightarrow> PatchChannel" where
  "to_PatchChannel d r =
     \<lparr>p_id = pc_id r, p_channel_number = pc_channel_number r,
      p_canonical_channel_id = pc_canonical_channel_id r,
      p_canonical_name =
        (case pc_canonical_channel_id r of
           None \<Rightarrow> None
         | Some c \<Rightarrow> map_option ch_name (find (\<lambda>x. ch_id x = c) (db_canonical_channels d)))\<rparr>"

text \<open>
  \<^verbatim>\<open>loadEventData(eventId)\<close>: the bands of the event by \<^verbatim>\<open>sort_order\<close> and its patch
  channels by number are read and stored; with at least one band, the usage rows of
  these bands are read into \<^verbatim>\<open>usageMap\<close>, and the selection form is filled with the
  "baseline": \<^verbatim>\<open>lastBand\<close> is the last element of the bands sorted (again, stably) by
  \<^verbatim>\<open>sort_order\<close>, and each of its rows with \<^verbatim>\<open>is_used\<close> adds the channel of its patch
  channel to the set. The reads cannot fail in the model (the source logs a failed read
  and goes on with the empty list).

  The store answers the bands query with the bands of the event in ascending
  \<^verbatim>\<open>sort_order\<close>; in which order it lists bands of equal \<^verbatim>\<open>sort_order\<close> is not
  specified. \<open>loadEventData_with\<close> is the function with the store's answer \<open>bandRows\<close> as
  an argument. \<open>selectBands\<close> is one answer the store may give, the one that lists equal
  bands in table order, and \<open>loadEventData\<close> is the function for this answer. What
  depends on the order of the bands is stated for \<open>loadEventData_with\<close> and every answer
  the store may give.
\<close>

definition selectBands :: "ident \<Rightarrow> db \<Rightarrow> band_row list" where
  "selectBands eventId d =
     sort_key b_sort_order (filter (\<lambda>b. b_event_id b = eventId) (db_bands d))"

definition baselineSelection :: "Band list \<Rightarrow> PatchChannel list \<Rightarrow> usage_row list \<Rightarrow> ident list" where
  "baselineSelection bandData patchData usageData =
     (let lastBand = last (sort_cmp (\<lambda>a b. bd_sort_order a - bd_sort_order b) bandData);
          patchToCanonical =
            fold (\<lambda>p m. case p_canonical_channel_id p of
                           None \<Rightarrow> m | Some c \<Rightarrow> m(p_id p \<mapsto> c)) patchData Map.empty
      in fold (\<lambda>row sel.
                 if u_band_id row = bd_id lastBand \<and> u_is_used row
                 then (case patchToCanonical (u_patch_channel_id row) of
                         None \<Rightarrow> sel | Some c \<Rightarrow> set_add c sel)
                 else sel) usageData [])"

definition loadEventData_with :: "band_row list \<Rightarrow> ident \<Rightarrow> builder \<Rightarrow> db \<Rightarrow> builder" where
  "loadEventData_with bandRows eventId ui d =
     (let u0 = ui\<lparr>loading := True, error := None, bands := [], patchChannels := [],
                  usageMap := Map.empty\<rparr>;
          bandData = map to_Band bandRows;
          patchData = map (to_PatchChannel d) (selectPatchChannels eventId d);
          u1 = u0\<lparr>bands := bandData, patchChannels := patchData\<rparr>;
          u2 =
            (if bandData \<noteq> [] then
               let bandIds = map bd_id bandData;
                   usageData = filter (\<lambda>u. u_band_id u \<in> set bandIds) (db_band_channel_usage d);
                   entries = fold (\<lambda>row m. m((u_band_id row, u_patch_channel_id row) \<mapsto> row))
                               usageData Map.empty
               in u1\<lparr>usageMap := entries,
                      newBandSelection := baselineSelection bandData patchData usageData\<rparr>
             else u1\<lparr>newBandSelection := []\<rparr>)
      in u2\<lparr>loading := False\<rparr>)"

definition loadEventData :: "ident \<Rightarrow> builder \<Rightarrow> db \<Rightarrow> builder" where
  "loadEventData eventId ui d = loadEventData_with (selectBands eventId d) eventId ui d"


section \<open>Loading a band into the form (\<^verbatim>\<open>usedByBand\<close>, \<^verbatim>\<open>loadBandIntoForm\<close>)\<close>

text \<open>
  Both functions read \<^verbatim>\<open>bands\<close>, \<^verbatim>\<open>patchChannels\<close> and \<^verbatim>\<open>usageMap\<close> from the render in
  which they were created (\<open>snap\<close>), and write through the state setters, that is to the
  current state (\<open>cur\<close>).
\<close>

definition usedByBand :: "builder \<Rightarrow> ident \<Rightarrow> ident list" where
  "usedByBand snap bandId =
     fold (\<lambda>p s. case usageMap snap (bandId, p_id p) of
                    None \<Rightarrow> s
                  | Some usage \<Rightarrow> if u_is_used usage then set_add (p_id p) s else s)
          (patchChannels snap) []"

definition loadBandIntoForm :: "builder \<Rightarrow> ident option \<Rightarrow> builder \<Rightarrow> builder" where
  "loadBandIntoForm snap bandId cur =
     (case bandId of
        None \<Rightarrow> cur\<lparr>editingBandId := None, newBandName := [], newBandSelection := [],
                     bandDirty := False, bandAutoStatus := Idle\<rparr>
      | Some b \<Rightarrow>
          (case find (\<lambda>x. bd_id x = b) (bands snap) of
             None \<Rightarrow> cur
           | Some band \<Rightarrow>
               let usedPatchIds = usedByBand snap b;
                   canonicalIds =
                     fold (\<lambda>p s. case p_canonical_channel_id p of
                                    None \<Rightarrow> s
                                  | Some c \<Rightarrow> if p_id p \<in> set usedPatchIds then set_add c s else s)
                          (patchChannels snap) []
               in cur\<lparr>editingBandId := Some b, newBandName := bd_name band,
                       newBandSelection := canonicalIds, bandDirty := False,
                       bandAutoStatus := Idle\<rparr>))"

text \<open>
  \<^verbatim>\<open>toggleNewSelection\<close>: a click on a channel's checkbox removes the id from the selection
  or adds it at the end (a JavaScript \<^verbatim>\<open>Set\<close> iterates in insertion order, and
  \<^verbatim>\<open>Array.from(newBandSelection)\<close> is what the save works on).
\<close>

definition toggleNewSelection :: "ident \<Rightarrow> builder \<Rightarrow> builder" where
  "toggleNewSelection canonicalId ui =
     (let u1 = ui\<lparr>newBandSelection :=
                    (if canonicalId \<in> set (newBandSelection ui)
                     then removeAll canonicalId (newBandSelection ui)
                     else newBandSelection ui @ [canonicalId])\<rparr>
      in if editingBandId ui \<noteq> None then u1\<lparr>bandDirty := True\<rparr> else u1)"

section \<open>Ensuring patch channels (\<^verbatim>\<open>ensurePatchChannels\<close>)\<close>

text \<open>
  \<^verbatim>\<open>canonicalToPatch\<close>: the map from channel id to patch channel that the source fills
  with \<^verbatim>\<open>forEach\<close> (a later patch channel of the same channel overwrites).
\<close>

definition add_to_canonicalToPatch ::
  "PatchChannel list \<Rightarrow> (ident \<rightharpoonup> PatchChannel) \<Rightarrow> (ident \<rightharpoonup> PatchChannel)" where
  "add_to_canonicalToPatch ps m0 =
     fold (\<lambda>p m. case p_canonical_channel_id p of None \<Rightarrow> m | Some c \<Rightarrow> m(c \<mapsto> p)) ps m0"

text \<open>
  \<^verbatim>\<open>canonicalMap\<close>: channel id to channel, from the loaded catalog.
\<close>

definition canonicalMap :: "builder \<Rightarrow> (ident \<rightharpoonup> canonical_channel)" where
  "canonicalMap snap = fold (\<lambda>c m. m(ch_id c \<mapsto> c)) (canonicalChannels snap) Map.empty"

text \<open>
  \<^verbatim>\<open>ensurePatchChannels(canonicalIds)\<close> reads the patch list and the event id of its
  render (\<open>snap\<close>). The ids without a patch channel in that list get new rows numbered
  from the list's maximum (0 for the empty list) plus one, in the order of
  \<open>canonicalIds\<close>; \<open>mem_of\<close> is the in-memory copy of a returned row, with the
  name from the loaded catalog. A refused insert sets the error and returns the old map. The source
  writes \<^verbatim>\<open>event_id: selectedEventId!\<close>; the caller has checked that an event is
  selected, and without one the model issues no insert.
\<close>

definition mem_of :: "builder \<Rightarrow> patch_row \<Rightarrow> PatchChannel" where
  "mem_of snap row =
     \<lparr>p_id = pc_id row, p_channel_number = pc_channel_number row,
      p_canonical_channel_id = pc_canonical_channel_id row,
      p_canonical_name =
        (case pc_canonical_channel_id row of
           None \<Rightarrow> None
         | Some c \<Rightarrow> map_option ch_name (canonicalMap snap c))\<rparr>"

definition ensurePatchChannels ::
  "builder \<Rightarrow> ident list \<Rightarrow> builder \<Rightarrow> db \<Rightarrow> (ident \<rightharpoonup> PatchChannel) \<times> builder \<times> db" where
  "ensurePatchChannels snap canonicalIds cur d =
     (let canonicalToPatch = add_to_canonicalToPatch (patchChannels snap) Map.empty;
          missing = filter (\<lambda>c. canonicalToPatch c = None) canonicalIds
      in if missing = [] then (canonicalToPatch, cur, d)
         else
           (case selectedEventId snap of
              None \<Rightarrow> (canonicalToPatch, cur, d)
            | Some ev \<Rightarrow>
                let maxNumber = fold (\<lambda>p acc. max acc (p_channel_number p)) (patchChannels snap) 0;
                    newRows = map (\<lambda>(idx, c). (ev, maxNumber + int idx + 1, Some c))
                                  (enumerate 0 missing)
                in (case insertPatchChannels newRows d of
                      (Inl insertError, d1) \<Rightarrow>
                        (canonicalToPatch,
                         cur\<lparr>error := Some ''Fout bij opslaan van patch-kanalen.''\<rparr>, d1)
                    | (Inr data, d1) \<Rightarrow>
                        let appended = map (mem_of snap) data
                        in (add_to_canonicalToPatch appended canonicalToPatch,
                            cur\<lparr>patchChannels := patchChannels snap @ appended\<rparr>, d1))))"

section \<open>Saving a band (\<^verbatim>\<open>handleAddBand\<close>)\<close>

text \<open>
  The error exits of \<^verbatim>\<open>handleAddBand\<close> after the validation: the message, and
  \<^verbatim>\<open>if (isAuto) setBandAutoStatus("error"); else setSavingBand(false);\<close>.
\<close>

definition band_save_failed :: "bool \<Rightarrow> string \<Rightarrow> builder \<Rightarrow> builder" where
  "band_save_failed isAuto msg cur =
     (if isAuto then cur\<lparr>error := Some msg, bandAutoStatus := Failed\<rparr>
      else cur\<lparr>error := Some msg, savingBand := False\<rparr>)"

text \<open>
  Persisting the band row: a new band is inserted with
  \<^verbatim>\<open>sort_order: bands.length + 1\<close>, an edited band gets its name updated. The result is
  \<^verbatim>\<open>targetBandId\<close> and \<^verbatim>\<open>newBand\<close>.
\<close>

definition persistBand ::
  "builder \<Rightarrow> ident \<Rightarrow> db \<Rightarrow> (db_error + ident \<times> Band option) \<times> db" where
  "persistBand snap ev d =
     (case editingBandId snap of
        None \<Rightarrow>
          (case insertBand ev (trim (newBandName snap)) (int (length (bands snap)) + 1) d of
             (Inl bandInsertError, d1) \<Rightarrow> (Inl bandInsertError, d1)
           | (Inr bandRow, d1) \<Rightarrow> (Inr (b_id bandRow, Some (to_Band bandRow)), d1))
      | Some targetBandId \<Rightarrow>
          (case updateBandName targetBandId (trim (newBandName snap)) d of
             (Inl bandUpdateError, d1) \<Rightarrow> (Inl bandUpdateError, d1)
           | (Inr _, d1) \<Rightarrow> (Inr (targetBandId, None), d1)))"

text \<open>
  The usage rows of the save: one per selected channel id that has a patch channel in
  \<^verbatim>\<open>canonicalToPatch\<close>, with \<^verbatim>\<open>is_used: true\<close> and
  \<^verbatim>\<open>label: canonicalMap.get(cid)?.name ?? null\<close>.
\<close>

definition usageRows_of ::
  "builder \<Rightarrow> (ident \<rightharpoonup> PatchChannel) \<Rightarrow> ident \<Rightarrow> ident list
     \<Rightarrow> (ident \<times> ident \<times> bool \<times> string option) list" where
  "usageRows_of snap canonicalToPatch targetBandId canonicalIds =
     List.map_filter (\<lambda>cid.
        case canonicalToPatch cid of
          None \<Rightarrow> None
        | Some patch \<Rightarrow>
            Some (targetBandId, p_id patch, True, map_option ch_name (canonicalMap snap cid)))
       canonicalIds"

text \<open>
  Replacing the usage: when an existing band is edited, all its rows are deleted first;
  then the new rows, if any, are inserted. The result is \<^verbatim>\<open>insertedUsage\<close>.
\<close>

definition replaceUsage ::
  "builder \<Rightarrow> (ident \<rightharpoonup> PatchChannel) \<Rightarrow> ident \<Rightarrow> ident list \<Rightarrow> db
     \<Rightarrow> (db_error + usage_row list) \<times> db" where
  "replaceUsage snap canonicalToPatch targetBandId canonicalIds d =
     (case (case editingBandId snap of
              None \<Rightarrow> (Inr (), d)
            | Some b \<Rightarrow> deleteUsageOfBand b d) of
        (Inl delUsageError, d1) \<Rightarrow> (Inl delUsageError, d1)
      | (Inr _, d1) \<Rightarrow>
          if canonicalIds \<noteq> [] then
            let usageRows = usageRows_of snap canonicalToPatch targetBandId canonicalIds
            in if usageRows \<noteq> [] then insertUsage usageRows d1 else (Inr [], d1)
          else (Inr [], d1))"

text \<open>
  After the store holds the band and its usage: the local state is patched, the event is
  reloaded, unused patch channels are pruned, the event is reloaded again, and the form
  is pointed at the saved band. \<^verbatim>\<open>loadBandIntoForm\<close> is the one of the render in which
  the save started, so it reads that render's state \<open>snap\<close>.
\<close>

definition finishBandSave ::
  "bool \<Rightarrow> builder \<Rightarrow> ident \<Rightarrow> ident \<Rightarrow> Band option \<Rightarrow> usage_row list \<Rightarrow> builder \<Rightarrow> db
     \<Rightarrow> builder \<times> db" where
  "finishBandSave isAuto snap ev targetBandId newBand insertedUsage cur d =
     (let u3 =
            (case (editingBandId snap, newBand) of
               (None, Some nb) \<Rightarrow>
                 cur\<lparr>bands := bands cur @ [nb], editingBandId := Some (bd_id nb)\<rparr>
             | (None, None) \<Rightarrow> cur
             | (Some eb, _) \<Rightarrow>
                 cur\<lparr>bands := map (\<lambda>b. if bd_id b = eb
                                         then b\<lparr>bd_name := trim (newBandName snap)\<rparr> else b)
                                   (bands cur),
                      usageMap :=
                        fold (\<lambda>row m. m((u_band_id row, u_patch_channel_id row) \<mapsto> row))
                          insertedUsage
                          (fold (\<lambda>p m. m((eb, p_id p) := None)) (patchChannels snap)
                             (usageMap cur))\<rparr>);
          u4 = loadEventData ev u3 d;
          d5 = pruneUnusedPatchChannels ev d;
          u5 = loadEventData ev u4 d5;
          u6 = u5\<lparr>savingBand := False, bandDirty := False,
                  bandAutoStatus := (if isAuto then Saved else Idle)\<rparr>;
          currentBandId =
            (case editingBandId snap of
               Some eb \<Rightarrow> eb
             | None \<Rightarrow> (case newBand of Some nb \<Rightarrow> bd_id nb | None \<Rightarrow> targetBandId))
      in if isAuto then
           (loadBandIntoForm snap (Some currentBandId) (u6\<lparr>editingBandId := Some currentBandId\<rparr>), d5)
         else
           (case newBand of
              Some nb \<Rightarrow>
                (loadBandIntoForm snap (Some (bd_id nb)) (u6\<lparr>editingBandId := Some (bd_id nb)\<rparr>), d5)
            | None \<Rightarrow>
                (case editingBandId snap of
                   Some eb \<Rightarrow> (loadBandIntoForm snap (Some eb) u6, d5)
                 | None \<Rightarrow>
                     (u6\<lparr>editingBandId := None, newBandName := [], newBandSelection := []\<rparr>, d5))))"

text \<open>
  \<^verbatim>\<open>handleAddBand(opts)\<close>, with \<open>isAuto\<close> for \<^verbatim>\<open>opts?.auto === true\<close>. \<open>ui\<close> is the
  state of the render in which the save started: everything the function reads. The two
  validation exits come first: no selected event (silent), and a name that trims to the
  empty string (the message only on a manual save). There is no check of the selection.
\<close>

definition handleAddBand :: "bool \<Rightarrow> builder \<Rightarrow> db \<Rightarrow> builder \<times> db" where
  "handleAddBand isAuto ui d =
     (case selectedEvent ui of
        None \<Rightarrow> (ui, d)
      | Some ev \<Rightarrow>
          if trim (newBandName ui) = [] then
            ((if \<not> isAuto then ui\<lparr>error := Some ''Geef een groepsnaam in.''\<rparr> else ui), d)
          else
            let u1 = (if isAuto then ui\<lparr>bandAutoStatus := Saving\<rparr>
                      else ui\<lparr>savingBand := True, error := None\<rparr>);
                canonicalIds = newBandSelection ui
            in (case ensurePatchChannels ui canonicalIds u1 d of
                  (canonicalToPatch, u2, d2) \<Rightarrow>
                    (case persistBand ui ev d2 of
                       (Inl bandError, d3) \<Rightarrow>
                         (band_save_failed isAuto ''Fout bij opslaan van de groep.'' u2, d3)
                     | (Inr (targetBandId, newBand), d3) \<Rightarrow>
                         (case replaceUsage ui canonicalToPatch targetBandId canonicalIds d3 of
                            (Inl usageError, d4) \<Rightarrow>
                              (band_save_failed isAuto
                                 ''Fout bij opslaan van de groep-kanalen.'' u2, d4)
                          | (Inr insertedUsage, d4) \<Rightarrow>
                              finishBandSave isAuto ui ev targetBandId newBand insertedUsage
                                u2 d4))))"

section \<open>The matrix page: toggling a cell (\<^verbatim>\<open>toggleUsage\<close>)\<close>





section \<open>The tech-list page: saving (\<^verbatim>\<open>handleSaveTechlist\<close>)\<close>

record channel_details =
  cd_label :: string
  cd_mic_or_di :: string
  cd_stand :: string
  cd_notes :: string

record techlist_page =
  tp_categories :: "category list"
  tp_channels :: "canonical_channel list"
  tp_techlists :: "techlist_row list"
  tp_selectedTechlistId :: "ident option"
  tp_saving :: bool
  tp_error :: "string option"
  tp_bandName :: string
  tp_bandNotes :: string
  tp_selectedChannelIds :: "ident list"
  tp_channelDetails :: "ident \<rightharpoonup> channel_details"
  tp_copyMessage :: "string option"

text \<open>
  \<^verbatim>\<open>selectedChannelsSorted = orderedChannels.filter((ch) => selectedChannelIds.has(ch.id))\<close>.
\<close>

definition selectedChannelsSorted :: "techlist_page \<Rightarrow> canonical_channel list" where
  "selectedChannelsSorted tp =
     filter (\<lambda>ch. ch_id ch \<in> set (tp_selectedChannelIds tp))
       (orderedCanonicalChannels (tp_categories tp) (tp_channels tp))"

text \<open>The store calls of the tech-list save; none of them has a constraint to break.\<close>

definition insertTechlist :: "string \<Rightarrow> string option \<Rightarrow> db \<Rightarrow> (db_error + techlist_row) \<times> db" where
  "insertTechlist name notes d =
     (let row = \<lparr>tl_id = db_next_id d, tl_name = name, tl_notes = notes\<rparr>
      in (Inr row,
          d\<lparr>db_techlists := db_techlists d @ [row],
            db_next_id := db_next_id d + 1,
            db_writes := db_writes d + 1\<rparr>))"

definition updateTechlist :: "ident \<Rightarrow> string \<Rightarrow> string option \<Rightarrow> db \<Rightarrow> (db_error + unit) \<times> db" where
  "updateTechlist techlistId name notes d =
     (Inr (),
      d\<lparr>db_techlists := map (\<lambda>t. if tl_id t = techlistId
                                   then t\<lparr>tl_name := name, tl_notes := notes\<rparr> else t)
                             (db_techlists d),
        db_writes := db_writes d + 1\<rparr>)"

definition deleteTechlistChannels :: "ident \<Rightarrow> db \<Rightarrow> (db_error + unit) \<times> db" where
  "deleteTechlistChannels techlistId d =
     (Inr (),
      d\<lparr>db_techlist_channels :=
          filter (\<lambda>c. tc_techlist_id c \<noteq> techlistId) (db_techlist_channels d),
        db_writes := db_writes d + 1\<rparr>)"

definition insertTechlistChannels :: "techlist_channel_row list \<Rightarrow> db \<Rightarrow> (db_error + unit) \<times> db" where
  "insertTechlistChannels newRows d =
     (Inr (),
      d\<lparr>db_techlist_channels := db_techlist_channels d @ newRows,
        db_writes := db_writes d + 1\<rparr>)"

text \<open>\<^verbatim>\<open>x || null\<close> on a string: the empty string is falsy.\<close>

definition or_null :: "string \<Rightarrow> string option" where
  "or_null s = (if s = [] then None else Some s)"

text \<open>
  The second half of the save: the channels of the tech list are deleted and written
  again, numbered \<^verbatim>\<open>idx + 1\<close> in the order of \<^verbatim>\<open>selectedChannelsSorted\<close>.
\<close>

definition saveTechlistChannels :: "techlist_page \<Rightarrow> ident \<Rightarrow> techlist_page \<Rightarrow> db \<Rightarrow> techlist_page \<times> db" where
  "saveTechlistChannels snap techlistId cur d =
     (case deleteTechlistChannels techlistId d of
        (Inl delError, d1) \<Rightarrow>
          (cur\<lparr>tp_error := Some ''Fout bij opslaan van techlist-kanalen.'', tp_saving := False\<rparr>, d1)
      | (Inr _, d1) \<Rightarrow>
          let newRows = map (\<lambda>(idx, ch).
                let details = (case tp_channelDetails snap (ch_id ch) of
                                 Some det \<Rightarrow> det
                               | None \<Rightarrow> \<lparr>cd_label = ch_name ch, cd_mic_or_di = [],
                                            cd_stand = [], cd_notes = []\<rparr>)
                in \<lparr>tc_techlist_id = techlistId,
                    tc_channel_number = int idx + 1,
                    tc_canonical_channel_id = ch_id ch,
                    tc_label = (if cd_label details = [] then ch_name ch else cd_label details),
                    tc_mic_or_di = or_null (cd_mic_or_di details),
                    tc_stand = or_null (cd_stand details),
                    tc_notes = or_null (cd_notes details)\<rparr>)
                (enumerate 0 (selectedChannelsSorted snap))
          in (case insertTechlistChannels newRows d1 of
                (Inl insertChannelsError, d2) \<Rightarrow>
                  (cur\<lparr>tp_error := Some ''Fout bij opslaan van techlist-kanalen.'',
                       tp_saving := False\<rparr>, d2)
              | (Inr _, d2) \<Rightarrow>
                  (cur\<lparr>tp_saving := False, tp_copyMessage := Some ''Techlist opgeslagen.''\<rparr>, d2)))"

text \<open>
  \<^verbatim>\<open>handleSaveTechlist()\<close>: the two validation exits, then the tech list itself is
  inserted or updated, then its channels are rewritten. (The message
  \<^verbatim>\<open>"Selecteer minstens een kanaal."\<close> has two accented letters in the source, code
  \<open>0xE9\<close>.)
\<close>

definition handleSaveTechlist :: "techlist_page \<Rightarrow> db \<Rightarrow> techlist_page \<times> db" where
  "handleSaveTechlist tp d =
     (if trim (tp_bandName tp) = [] then
        (tp\<lparr>tp_error := Some ''Geef een groepsnaam in.''\<rparr>, d)
      else if selectedChannelsSorted tp = [] then
        (tp\<lparr>tp_error := Some (''Selecteer minstens '' @ [CHR 0xE9, CHR 0xE9] @ ''n kanaal.'')\<rparr>, d)
      else
        let t1 = tp\<lparr>tp_saving := True, tp_error := None\<rparr>;
            notes = (if trim (tp_bandNotes tp) = [] then None else Some (trim (tp_bandNotes tp)))
        in (case tp_selectedTechlistId tp of
              None \<Rightarrow>
                (case insertTechlist (trim (tp_bandName tp)) notes d of
                   (Inl insertError, d1) \<Rightarrow>
                     (t1\<lparr>tp_error := Some ''Fout bij opslaan van techlist.'', tp_saving := False\<rparr>, d1)
                 | (Inr data, d1) \<Rightarrow>
                     saveTechlistChannels tp (tl_id data)
                       (t1\<lparr>tp_selectedTechlistId := Some (tl_id data),
                           tp_techlists := data # tp_techlists t1\<rparr>) d1)
            | Some techlistId \<Rightarrow>
                (case updateTechlist techlistId (trim (tp_bandName tp)) notes d of
                   (Inl updateError, d1) \<Rightarrow>
                     (t1\<lparr>tp_error := Some ''Fout bij opslaan van techlist.'', tp_saving := False\<rparr>, d1)
                 | (Inr _, d1) \<Rightarrow> saveTechlistChannels tp techlistId t1 d1)))"

section \<open>Notions used to state the properties\<close>

text \<open>
  A patch channel is used when some usage row on it has \<^verbatim>\<open>is_used\<close>; it is used by
  a band of an event when such a row belongs to a band of that event. In a store whose
  usage rows stay within an event (band and patch channel of a row belong to the same
  event), the two coincide for the patch channels of the event.
\<close>

definition used_in :: "db \<Rightarrow> ident \<Rightarrow> bool" where
  "used_in d pid =
     (\<exists>u \<in> set (db_band_channel_usage d). u_patch_channel_id u = pid \<and> u_is_used u)"



text \<open>
  The patch channels of an event in the store, their current maximum number (0 when
  there is none), and the selected channel ids that have no patch channel in the event.
\<close>

definition event_rows :: "ident \<Rightarrow> db \<Rightarrow> patch_row list" where
  "event_rows ev d = filter (\<lambda>r. pc_event_id r = ev) (db_patch_channels d)"

definition max_channel_number :: "ident \<Rightarrow> db \<Rightarrow> int" where
  "max_channel_number ev d = Max (insert 0 (set (map pc_channel_number (event_rows ev d))))"

definition uncovered :: "ident \<Rightarrow> db \<Rightarrow> ident list \<Rightarrow> ident list" where
  "uncovered ev d canonicalIds =
     filter (\<lambda>c. Some c \<notin> set (map pc_canonical_channel_id (event_rows ev d))) canonicalIds"


text \<open>
  The rows that the store creates for the channel ids \<open>missing\<close>, numbered upwards from
  \<open>M + 1\<close>, with the keys it hands out.
\<close>

definition new_patch_rows :: "db \<Rightarrow> ident \<Rightarrow> int \<Rightarrow> ident list \<Rightarrow> patch_row list" where
  "new_patch_rows d ev M missing =
     map (\<lambda>i. \<lparr>pc_id = db_next_id d + i, pc_event_id = ev, pc_channel_number = M + int i + 1,
                pc_canonical_channel_id = Some (missing ! i)\<rparr>) [0..<length missing]"

text \<open>
  The page's patch list is the one that \<^verbatim>\<open>loadEventData\<close> read from this store state
  (ids, numbers and channel references; the joined name does not matter).
\<close>

definition patches_loaded :: "builder \<Rightarrow> ident \<Rightarrow> db \<Rightarrow> bool" where
  "patches_loaded snap ev d =
     (map (\<lambda>p. (p_id p, p_channel_number p, p_canonical_channel_id p)) (patchChannels snap)
        = map (\<lambda>r. (pc_id r, pc_channel_number r, pc_canonical_channel_id r))
            (selectPatchChannels ev d))"

text \<open>The same two notions on the page's own patch list.\<close>

definition missing_of :: "builder \<Rightarrow> ident list \<Rightarrow> ident list" where
  "missing_of snap canonicalIds =
     filter (\<lambda>c. Some c \<notin> set (map p_canonical_channel_id (patchChannels snap))) canonicalIds"

definition mem_max :: "builder \<Rightarrow> int" where
  "mem_max snap = Max (insert 0 (set (map p_channel_number (patchChannels snap))))"

text \<open>
  The usage rows that the store creates for the rows of an insert, with the keys it hands
  out from \<open>n\<close> on.
\<close>

definition new_usage_rows :: "nat \<Rightarrow> (ident \<times> ident \<times> bool \<times> string option) list \<Rightarrow> usage_row list" where
  "new_usage_rows n usageRows =
     map (\<lambda>(idx, (b, p, used, l)).
            \<lparr>u_id = n + idx, u_band_id = b, u_patch_channel_id = p, u_is_used = used, u_label = l\<rparr>)
         (enumerate 0 usageRows)"

text \<open>
  The bands of an event in the store; the answers that the store may give to the bands
  query of \<^verbatim>\<open>loadEventData\<close> (the bands of the event, each as often as the table has it,
  in ascending \<^verbatim>\<open>sort_order\<close>, bands of equal \<^verbatim>\<open>sort_order\<close> in any order); and the
  selection of a band: the channels of those patch channels of the event on which the
  band has a usage row with \<^verbatim>\<open>is_used\<close>.
\<close>

definition event_bands :: "ident \<Rightarrow> db \<Rightarrow> band_row list" where
  "event_bands ev d = filter (\<lambda>b. b_event_id b = ev) (db_bands d)"

definition bands_answer :: "ident \<Rightarrow> db \<Rightarrow> band_row list \<Rightarrow> bool" where
  "bands_answer ev d rows =
     (mset rows = mset (event_bands ev d) \<and> sorted (map b_sort_order rows))"

definition band_selection :: "ident \<Rightarrow> ident \<Rightarrow> db \<Rightarrow> ident list" where
  "band_selection ev b d =
     List.map_filter pc_canonical_channel_id
       (concat (map (\<lambda>u. filter (\<lambda>r. pc_id r = u_patch_channel_id u) (event_rows ev d))
                    (filter (\<lambda>u. u_band_id u = b \<and> u_is_used u) (db_band_channel_usage d))))"


section \<open>Proofs: the two-phase renumbering\<close>

lemma update_accepted:
  assumes "\<forall>r\<in>set tbl. pc_id r = p \<longrightarrow> pc_event_id r = e"
    and "\<forall>r\<in>set tbl. pc_event_id r = e \<longrightarrow> pc_channel_number r \<noteq> n"
  shows "updatePatchChannelNumber p n tbl =
           Inr (map (\<lambda>r. if pc_id r = p then r\<lparr>pc_channel_number := n\<rparr> else r) tbl)"
  using assms unfolding updatePatchChannelNumber_def number_taken_def by auto

lemma run_updates_ok:
  assumes "distinct (map fst us)" "distinct (map snd us)"
    and "\<forall>r\<in>set tbl. pc_id r \<in> fst ` set us \<longrightarrow> pc_event_id r = e"
    and "\<forall>r\<in>set tbl. pc_event_id r = e \<longrightarrow> pc_channel_number r \<notin> snd ` set us"
  shows "run_updates us tbl = (apply_numbers (map_of us) tbl, [])"
  using assms
proof (induction us arbitrary: tbl)
  case Nil
  then show ?case by (simp add: apply_numbers_def)
next
  case (Cons u us)
  obtain p n where u: "u = (p, n)" by (cases u)
  let ?tbl' = "map (\<lambda>r. if pc_id r = p then r\<lparr>pc_channel_number := n\<rparr> else r) tbl"
  have acc: "updatePatchChannelNumber p n tbl = Inr ?tbl'"
    using Cons.prems u by (intro update_accepted[where e = e]) auto
  have p_notin: "p \<notin> fst ` set us" and n_notin: "n \<notin> snd ` set us"
    using Cons.prems(1,2) u by (auto simp: image_iff)
  have ih: "run_updates us ?tbl' = (apply_numbers (map_of us) ?tbl', [])"
  proof (rule Cons.IH)
    show "distinct (map fst us)" "distinct (map snd us)" using Cons.prems by auto
    show "\<forall>r\<in>set ?tbl'. pc_id r \<in> fst ` set us \<longrightarrow> pc_event_id r = e"
      using Cons.prems(3) u by auto
    show "\<forall>r\<in>set ?tbl'. pc_event_id r = e \<longrightarrow> pc_channel_number r \<notin> snd ` set us"
      using Cons.prems(4) n_notin by (auto simp: image_iff)
  qed
  have "map_of us p = None" using p_notin by (simp add: map_of_eq_None_iff)
  then have eq: "apply_numbers (map_of us) ?tbl' = apply_numbers (map_of ((p, n) # us)) tbl"
    unfolding apply_numbers_def by (auto split: option.splits)
  have "run_updates ((p, n) # us) tbl = run_updates us ?tbl'"
    by (simp add: acc)
  then show ?case unfolding u using ih eq by (simp only:)
qed


lemma phase_updates_zip:
  "phase_updates off ids = zip ids (map (\<lambda>i. int i + off) [0..<length ids])"
  unfolding phase_updates_def enumerate_eq_zip
  by (simp add: zip_map2 zip_commute[of ids] map_zip_map2 split_def zip_map_map[symmetric] del: upt_Suc)

lemma phase_updates_fst: "map fst (phase_updates off ids) = ids"
  by (simp add: phase_updates_zip)

lemma phase_updates_snd:
  "map snd (phase_updates off ids) = map (\<lambda>i. int i + off) [0..<length ids]"
  by (simp add: phase_updates_zip)

lemma phase_updates_targets:
  "snd ` set (phase_updates off ids) = {off ..< off + int (length ids)}"
proof -
  have "snd ` set (phase_updates off ids) = set (map snd (phase_updates off ids))" by simp
  also have "\<dots> = (\<lambda>i. int i + off) ` {0..<length ids}"
    by (simp only: phase_updates_snd set_map set_upt)
  also have "\<dots> = {off ..< off + int (length ids)}"
  proof (intro set_eqI iffI)
    fix x assume "x \<in> (\<lambda>i. int i + off) ` {0..<length ids}"
    then show "x \<in> {off ..< off + int (length ids)}" by auto
  next
    fix x assume x: "x \<in> {off ..< off + int (length ids)}"
    then have "x = int (nat (x - off)) + off" "nat (x - off) < length ids" by auto
    then show "x \<in> (\<lambda>i. int i + off) ` {0..<length ids}" by (metis atLeastLessThan_iff image_eqI zero_le)
  qed
  finally show ?thesis .
qed

lemma phase_updates_map_of:
  assumes "distinct ids" "i < length ids"
  shows "map_of (phase_updates off ids) (ids ! i) = Some (int i + off)"
proof -
  have "map_of (zip ids (map (\<lambda>i. int i + off) [0..<length ids])) (ids ! i)
          = Some (map (\<lambda>i. int i + off) [0..<length ids] ! i)"
    using assms by (intro map_of_zip_nth) auto
  then show ?thesis using assms by (simp add: phase_updates_zip)
qed

lemma phase_updates_dom: "dom (map_of (phase_updates off ids)) = set ids"
  using phase_updates_fst[of off ids] by (metis dom_map_of_conv_image_fst set_map)

lemma schedule_facts:
  assumes "valid_schedule off ids s" "distinct ids"
  shows "distinct (map fst s)" "distinct (map snd s)" "set s = set (phase_updates off ids)"
    "map_of s = map_of (phase_updates off ids)"
proof -
  have m: "mset s = mset (phase_updates off ids)" using assms(1) by (simp add: valid_schedule_def)
  show st: "set s = set (phase_updates off ids)" using m by (rule mset_eq_setD)
  have "mset (map fst s) = mset (map fst (phase_updates off ids))"
    using m by (metis mset_map)
  then have "distinct (map fst s) = distinct (map fst (phase_updates off ids))"
    by (rule mset_eq_imp_distinct_iff)
  then show d1: "distinct (map fst s)" using assms(2) by (simp add: phase_updates_fst)
  have "mset (map snd s) = mset (map snd (phase_updates off ids))"
    using m by (metis mset_map)
  then have "distinct (map snd s) = distinct (map snd (phase_updates off ids))"
    by (rule mset_eq_imp_distinct_iff)
  then show "distinct (map snd s)"
    by (simp add: phase_updates_snd distinct_map inj_on_def)
  show "map_of s = map_of (phase_updates off ids)"
    using d1 assms(2) st by (simp add: map_of_inject_set phase_updates_fst)
qed

lemma apply_numbers_fields:
  "map pc_id (apply_numbers m tbl) = map pc_id tbl"
  "map pc_event_id (apply_numbers m tbl) = map pc_event_id tbl"
  "map pc_canonical_channel_id (apply_numbers m tbl) = map pc_canonical_channel_id tbl"
  by (auto simp: apply_numbers_def split: option.splits)

lemma phase_result:
  assumes ids: "distinct ids" and sch: "valid_schedule off ids s"
    and ev: "\<forall>r\<in>set tbl. pc_id r \<in> set ids \<longrightarrow> pc_event_id r = e"
    and free: "\<forall>r\<in>set tbl. pc_event_id r = e \<longrightarrow>
                 \<not> (off \<le> pc_channel_number r \<and> pc_channel_number r < off + int (length ids))"
  shows "run_updates s tbl = (apply_numbers (map_of (phase_updates off ids)) tbl, [])"
proof -
  note f = schedule_facts[OF sch ids]
  have fs: "fst ` set s = set ids"
    using f(3) phase_updates_fst[of off ids] by (metis set_map)
  have sn: "snd ` set s = {off ..< off + int (length ids)}"
    using f(3) phase_updates_targets by simp
  have "run_updates s tbl = (apply_numbers (map_of s) tbl, [])"
  proof (rule run_updates_ok[where e = e])
    show "distinct (map fst s)" "distinct (map snd s)" by (rule f)+
    show "\<forall>r\<in>set tbl. pc_id r \<in> fst ` set s \<longrightarrow> pc_event_id r = e"
      using ev fs by simp
    show "\<forall>r\<in>set tbl. pc_event_id r = e \<longrightarrow> pc_channel_number r \<notin> snd ` set s"
      using free sn by auto
  qed
  then show ?thesis by (simp only: f(4))
qed


lemma apply_numbers_twice:
  assumes "dom m1 = dom m2"
  shows "apply_numbers m2 (apply_numbers m1 tbl) = apply_numbers m2 tbl"
proof -
  have "\<And>k. m2 k = None \<Longrightarrow> m1 k = None" using assms by auto
  then show ?thesis
    unfolding apply_numbers_def by (auto split: option.splits)
qed

lemma listed_rows_in_event:
  assumes pk: "distinct (map pc_id tbl)"
    and cover: "set ids = pc_id ` {r \<in> set tbl. pc_event_id r = e}"
  shows "\<forall>r\<in>set tbl. pc_id r \<in> set ids \<longrightarrow> pc_event_id r = e"
proof (intro ballI impI)
  fix r assume r: "r \<in> set tbl" "pc_id r \<in> set ids"
  then obtain r' where r': "r' \<in> set tbl" "pc_event_id r' = e" "pc_id r' = pc_id r"
    using cover by auto
  have "inj_on pc_id (set tbl)" using pk by (simp add: distinct_map)
  then have "r' = r" using r r' by (auto dest: inj_onD)
  then show "pc_event_id r = e" using r' by simp
qed

lemma after_phase1:
  assumes pk: "distinct (map pc_id tbl)" and ids: "distinct ids"
    and cover: "set ids = pc_id ` {r \<in> set tbl. pc_event_id r = e}"
    and n: "length ids < 1000"
  shows "\<forall>r\<in>set (apply_numbers (map_of (phase_updates 1000 ids)) tbl).
           pc_id r \<in> set ids \<longrightarrow> pc_event_id r = e"
    and "\<forall>r\<in>set (apply_numbers (map_of (phase_updates 1000 ids)) tbl). pc_event_id r = e \<longrightarrow>
           \<not> (1 \<le> pc_channel_number r \<and> pc_channel_number r < 1 + int (length ids))"
proof -
  let ?m1 = "map_of (phase_updates 1000 ids)"
  note ev = listed_rows_in_event[OF pk cover]
  show "\<forall>r\<in>set (apply_numbers ?m1 tbl). pc_id r \<in> set ids \<longrightarrow> pc_event_id r = e"
    using ev unfolding apply_numbers_def by (auto split: option.splits)
  show "\<forall>r\<in>set (apply_numbers ?m1 tbl). pc_event_id r = e \<longrightarrow>
       \<not> (1 \<le> pc_channel_number r \<and> pc_channel_number r < 1 + int (length ids))"
  proof (intro ballI impI)
    fix r1 assume r1: "r1 \<in> set (apply_numbers ?m1 tbl)" "pc_event_id r1 = e"
    then obtain r where r: "r \<in> set tbl"
      and r1eq: "r1 = (case ?m1 (pc_id r) of None \<Rightarrow> r | Some k \<Rightarrow> r\<lparr>pc_channel_number := k\<rparr>)"
      unfolding apply_numbers_def by auto
    have "pc_event_id r = e" using r1 r1eq by (auto split: option.splits)
    then have "pc_id r \<in> set ids" using cover r by auto
    then obtain i where i: "i < length ids" "ids ! i = pc_id r" by (auto simp: in_set_conv_nth)
    then have "?m1 (pc_id r) = Some (int i + 1000)"
      using phase_updates_map_of[OF ids, of i 1000] by simp
    then have "pc_channel_number r1 = int i + 1000" using r1eq by simp
    then show "\<not> (1 \<le> pc_channel_number r1 \<and> pc_channel_number r1 < 1 + int (length ids))"
      using n by simp
  qed
qed

lemma two_phases:
  assumes pk: "distinct (map pc_id tbl)" and ids: "distinct ids"
    and cover: "set ids = pc_id ` {r \<in> set tbl. pc_event_id r = e}"
    and small: "\<forall>r\<in>set tbl. pc_event_id r = e \<longrightarrow> pc_channel_number r < 1000"
    and n: "length ids < 1000"
    and s1: "valid_schedule 1000 ids s1" and s2: "valid_schedule 1 ids s2"
  shows "run_updates s1 tbl = (apply_numbers (map_of (phase_updates 1000 ids)) tbl, [])"
    and "run_updates s2 (apply_numbers (map_of (phase_updates 1000 ids)) tbl)
           = (apply_numbers (map_of (phase_updates 1 ids)) tbl, [])"
proof -
  let ?m1 = "map_of (phase_updates 1000 ids)" and ?m2 = "map_of (phase_updates 1 ids)"
  note ev = listed_rows_in_event[OF pk cover]
  show "run_updates s1 tbl = (apply_numbers ?m1 tbl, [])"
    using small by (intro phase_result[OF ids s1 ev]) auto
  have "run_updates s2 (apply_numbers ?m1 tbl) = (apply_numbers ?m2 (apply_numbers ?m1 tbl), [])"
    by (rule phase_result[OF ids s2 after_phase1[OF pk ids cover n]])
  moreover have "apply_numbers ?m2 (apply_numbers ?m1 tbl) = apply_numbers ?m2 tbl"
    by (rule apply_numbers_twice) (simp add: phase_updates_dom)
  ultimately show "run_updates s2 (apply_numbers ?m1 tbl) = (apply_numbers ?m2 tbl, [])"
    by simp
qed

lemma applyChannelOrder_sched_eq:
  assumes pk: "distinct (map pc_id tbl)" and ids: "distinct ids"
    and cover: "set ids = pc_id ` {r \<in> set tbl. pc_event_id r = e}"
    and small: "\<forall>r\<in>set tbl. pc_event_id r = e \<longrightarrow> pc_channel_number r < 1000"
    and n: "length ids < 1000"
    and s1: "valid_schedule 1000 ids s1" and s2: "valid_schedule 1 ids s2"
  shows "applyChannelOrder_sched s1 s2 tbl = (apply_numbers (map_of (phase_updates 1 ids)) tbl, [])"
  unfolding applyChannelOrder_sched_def
  by (simp add: two_phases[OF assms])

lemma update_keeps_unique:
  assumes "updatePatchChannelNumber p n tbl = Inr tbl'" "unique_numbers tbl"
  shows "unique_numbers tbl'"
proof -
  have nt: "\<forall>r\<in>set tbl. pc_id r = p \<longrightarrow> \<not> number_taken tbl r n"
    and eq: "tbl' = map (\<lambda>r. if pc_id r = p then r\<lparr>pc_channel_number := n\<rparr> else r) tbl"
    using assms(1) unfolding updatePatchChannelNumber_def by (auto split: if_splits)
  show ?thesis
    unfolding unique_numbers_def eq
    using assms(2) nt unfolding unique_numbers_def number_taken_def
    by (auto; metis)
qed

lemma unique_run_updates:
  "unique_numbers tbl \<Longrightarrow> unique_numbers (fst (run_updates us tbl))"
proof (induction us arbitrary: tbl)
  case Nil
  then show ?case by simp
next
  case (Cons u us)
  obtain p n where u: "u = (p, n)" by (cases u)
  show ?case
  proof (cases "updatePatchChannelNumber p n tbl")
    case (Inl e)
    then show ?thesis using Cons by (simp add: u case_prod_beta)
  next
    case (Inr tbl')
    then show ?thesis using Cons update_keeps_unique[OF Inr] by (simp add: u)
  qed
qed

lemma run_updates_steps_ok:
  assumes "distinct (map fst us)" "distinct (map snd us)"
    and "\<forall>r\<in>set tbl. pc_id r \<in> fst ` set us \<longrightarrow> pc_event_id r = e"
    and "\<forall>r\<in>set tbl. pc_event_id r = e \<longrightarrow> pc_channel_number r \<notin> snd ` set us"
    and "k < length us"
  shows "\<forall>r\<in>set (fst (run_updates (take k us) tbl)).
           pc_id r = fst (us ! k) \<longrightarrow> \<not> number_taken (fst (run_updates (take k us) tbl)) r (snd (us ! k))"
  using assms
proof (induction us arbitrary: tbl k)
  case Nil
  then show ?case by simp
next
  case (Cons u us)
  obtain p n where u: "u = (p, n)" by (cases u)
  show ?case
  proof (cases k)
    case 0
    show ?thesis using Cons.prems(3,4) unfolding 0 u number_taken_def by (auto simp: image_iff)
  next
    case (Suc k')
    let ?tbl' = "map (\<lambda>r. if pc_id r = p then r\<lparr>pc_channel_number := n\<rparr> else r) tbl"
    have acc: "updatePatchChannelNumber p n tbl = Inr ?tbl'"
      using Cons.prems u by (intro update_accepted[where e = e]) auto
    have n_notin: "n \<notin> snd ` set us"
      using Cons.prems(2) u by (auto simp: image_iff)
    have "\<forall>r\<in>set (fst (run_updates (take k' us) ?tbl')).
           pc_id r = fst (us ! k') \<longrightarrow> \<not> number_taken (fst (run_updates (take k' us) ?tbl')) r (snd (us ! k'))"
    proof (rule Cons.IH)
      show "distinct (map fst us)" "distinct (map snd us)" using Cons.prems by auto
      show "\<forall>r\<in>set ?tbl'. pc_id r \<in> fst ` set us \<longrightarrow> pc_event_id r = e"
        using Cons.prems(3) u by auto
      show "\<forall>r\<in>set ?tbl'. pc_event_id r = e \<longrightarrow> pc_channel_number r \<notin> snd ` set us"
        using Cons.prems(4) n_notin by (auto simp: image_iff)
      show "k' < length us" using Cons.prems(5) Suc by simp
    qed
    then show ?thesis by (simp add: Suc u acc)
  qed
qed

lemma phase_steps:
  assumes ids: "distinct ids" and sch: "valid_schedule off ids s"
    and ev: "\<forall>r\<in>set tbl. pc_id r \<in> set ids \<longrightarrow> pc_event_id r = e"
    and free: "\<forall>r\<in>set tbl. pc_event_id r = e \<longrightarrow>
                 \<not> (off \<le> pc_channel_number r \<and> pc_channel_number r < off + int (length ids))"
    and k: "k < length s"
  shows "\<forall>r\<in>set (fst (run_updates (take k s) tbl)).
           pc_id r = fst (s ! k) \<longrightarrow> \<not> number_taken (fst (run_updates (take k s) tbl)) r (snd (s ! k))"
proof -
  note f = schedule_facts[OF sch ids]
  have fs: "fst ` set s = set ids"
    using f(3) phase_updates_fst[of off ids] by (metis set_map)
  have sn: "snd ` set s = {off ..< off + int (length ids)}"
    using f(3) phase_updates_targets by simp
  show ?thesis
  proof (rule run_updates_steps_ok[where e = e])
    show "distinct (map fst s)" "distinct (map snd s)" by (rule f)+
    show "\<forall>r\<in>set tbl. pc_id r \<in> fst ` set s \<longrightarrow> pc_event_id r = e"
      using ev fs by simp
    show "\<forall>r\<in>set tbl. pc_event_id r = e \<longrightarrow> pc_channel_number r \<notin> snd ` set s"
      using free sn by auto
    show "k < length s" by (rule k)
  qed
qed


subsection \<open>C1: the final numbers\<close>

text \<open>
  Claim C1, as amended. Let \<open>orderedIds\<close> name each patch-channel record of an event
  exactly once, let there be fewer than 1000 of them, and let every record of the event
  hold a number below 1000 before the call. Then, in whatever order the store serves the
  requests of each phase, after both phases the record at list position \<open>i\<close> holds
  \<open>i + 1\<close>: the numbers of the event's records are exactly \<open>1..N\<close> without
  duplicates, the same records exist, and the rows of other events are untouched.
\<close>

theorem applyChannelOrder_dense:
  assumes pk: "distinct (map pc_id tbl)" and ids: "distinct orderedIds"
    and cover0: "set orderedIds = set (map pc_id (filter (\<lambda>r. pc_event_id r = e) tbl))"
    and small: "\<forall>r\<in>set tbl. pc_event_id r = e \<longrightarrow> pc_channel_number r < 1000"
    and n: "length orderedIds < 1000"
    and s1: "valid_schedule 1000 orderedIds s1" and s2: "valid_schedule 1 orderedIds s2"
  shows "(\<forall>i<length orderedIds. \<exists>r\<in>set (fst (applyChannelOrder_sched s1 s2 tbl)).
            pc_id r = orderedIds ! i \<and> pc_event_id r = e)
       \<and> (\<forall>i<length orderedIds. \<forall>r\<in>set (fst (applyChannelOrder_sched s1 s2 tbl)).
            pc_id r = orderedIds ! i \<longrightarrow> pc_channel_number r = int i + 1)
       \<and> set (map pc_channel_number
            (filter (\<lambda>r. pc_event_id r = e) (fst (applyChannelOrder_sched s1 s2 tbl))))
            = {1 .. int (length orderedIds)}
       \<and> distinct (map pc_channel_number
            (filter (\<lambda>r. pc_event_id r = e) (fst (applyChannelOrder_sched s1 s2 tbl))))
       \<and> map pc_id (fst (applyChannelOrder_sched s1 s2 tbl)) = map pc_id tbl
       \<and> filter (\<lambda>r. pc_event_id r \<noteq> e) (fst (applyChannelOrder_sched s1 s2 tbl))
            = filter (\<lambda>r. pc_event_id r \<noteq> e) tbl"
proof -
  let ?m = "map_of (phase_updates 1 orderedIds)"
  let ?t = "fst (applyChannelOrder_sched s1 s2 tbl)"
  have cover: "set orderedIds = pc_id ` {r \<in> set tbl. pc_event_id r = e}"
    using cover0 by auto
  have t: "?t = apply_numbers ?m tbl"
    by (simp add: applyChannelOrder_sched_eq[OF pk ids cover small n s1 s2])
  note ev = listed_rows_in_event[OF pk cover]
  have num: "pc_channel_number r = int i + 1"
    if h: "i < length orderedIds" "r \<in> set ?t" "pc_id r = orderedIds ! i" for i r
  proof -
    obtain r0 where r0: "r0 \<in> set tbl"
      and req: "r = (case ?m (pc_id r0) of None \<Rightarrow> r0 | Some k \<Rightarrow> r0\<lparr>pc_channel_number := k\<rparr>)"
      using h(2) unfolding t apply_numbers_def by auto
    have "pc_id r0 = orderedIds ! i" using req h(3) by (auto split: option.splits)
    then have "?m (pc_id r0) = Some (int i + 1)"
      using phase_updates_map_of[OF ids h(1), of 1] by simp
    then show ?thesis using req by simp
  qed
  have ex: "\<exists>r\<in>set ?t. pc_id r = orderedIds ! i \<and> pc_event_id r = e"
    if h: "i < length orderedIds" for i
  proof -
    have "orderedIds ! i \<in> set orderedIds" using h by simp
    then obtain r0 where r0: "r0 \<in> set tbl" "pc_event_id r0 = e" "pc_id r0 = orderedIds ! i"
      using cover by auto
    let ?r = "case ?m (pc_id r0) of None \<Rightarrow> r0 | Some k \<Rightarrow> r0\<lparr>pc_channel_number := k\<rparr>"
    have "?r \<in> set ?t" using r0(1) unfolding t apply_numbers_def by auto
    moreover have "pc_id ?r = orderedIds ! i" "pc_event_id ?r = e"
      using r0 by (auto split: option.splits)
    ultimately show ?thesis by blast
  qed
  have idx: "\<exists>i<length orderedIds. pc_id r = orderedIds ! i"
    if h: "r \<in> set ?t" "pc_event_id r = e" for r
  proof -
    obtain r0 where r0: "r0 \<in> set tbl"
      and req: "r = (case ?m (pc_id r0) of None \<Rightarrow> r0 | Some k \<Rightarrow> r0\<lparr>pc_channel_number := k\<rparr>)"
      using h(1) unfolding t apply_numbers_def by auto
    have "pc_event_id r0 = e" "pc_id r0 = pc_id r" using req h(2) by (auto split: option.splits)
    then have "pc_id r \<in> pc_id ` {r \<in> set tbl. pc_event_id r = e}" using r0 by (metis (mono_tags, lifting) imageI mem_Collect_eq)
    then have "pc_id r \<in> set orderedIds" using cover by simp
    then show ?thesis by (metis in_set_conv_nth)
  qed
  have img: "pc_channel_number ` {r \<in> set ?t. pc_event_id r = e} = {1 .. int (length orderedIds)}"
  proof (intro set_eqI iffI)
    fix x assume "x \<in> pc_channel_number ` {r \<in> set ?t. pc_event_id r = e}"
    then obtain r where r: "r \<in> set ?t" "pc_event_id r = e" "x = pc_channel_number r" by auto
    from idx[OF r(1,2)] obtain i where i: "i < length orderedIds" "pc_id r = orderedIds ! i" by auto
    from num[OF i(1) r(1) i(2)] r(3) i(1) show "x \<in> {1 .. int (length orderedIds)}" by simp
  next
    fix x assume x: "x \<in> {1 .. int (length orderedIds)}"
    then have i: "nat (x - 1) < length orderedIds" "x = int (nat (x - 1)) + 1" by auto
    from ex[OF i(1)] obtain r where r: "r \<in> set ?t" "pc_id r = orderedIds ! nat (x - 1)" "pc_event_id r = e"
      by auto
    from num[OF i(1) r(1,2)] i(2) have "pc_channel_number r = x" by simp
    then show "x \<in> pc_channel_number ` {r \<in> set ?t. pc_event_id r = e}" using r by force
  qed
  have ids_t: "map pc_id ?t = map pc_id tbl" by (simp add: t apply_numbers_fields)
  have inj_id: "inj_on pc_id (set ?t)" and dist_t: "distinct ?t"
    using pk ids_t by (metis distinct_map)+
  have dist: "distinct (map pc_channel_number (filter (\<lambda>r. pc_event_id r = e) ?t))"
  proof -
    have "inj_on pc_channel_number (set (filter (\<lambda>r. pc_event_id r = e) ?t))"
    proof (rule inj_onI)
      fix a b assume a: "a \<in> set (filter (\<lambda>r. pc_event_id r = e) ?t)"
        and b: "b \<in> set (filter (\<lambda>r. pc_event_id r = e) ?t)"
        and eq: "pc_channel_number a = pc_channel_number b"
      from a idx obtain i where i: "i < length orderedIds" "pc_id a = orderedIds ! i" by auto
      from b idx obtain j where j: "j < length orderedIds" "pc_id b = orderedIds ! j" by auto
      have "pc_channel_number a = int i + 1" using num[OF i(1) _ i(2)] a by simp
      moreover have "pc_channel_number b = int j + 1" using num[OF j(1) _ j(2)] b by simp
      ultimately have "i = j" using eq by simp
      then have "pc_id a = pc_id b" using i j by simp
      then show "a = b" using inj_id a b by (auto dest: inj_onD)
    qed
    then show ?thesis using dist_t by (simp add: distinct_map)
  qed
  have other: "filter (\<lambda>r. pc_event_id r \<noteq> e) ?t = filter (\<lambda>r. pc_event_id r \<noteq> e) tbl"
  proof -
    have "\<And>r. r \<in> set tbl \<Longrightarrow> pc_event_id r \<noteq> e \<Longrightarrow> ?m (pc_id r) = None"
      using ev by (metis domIff phase_updates_dom)
    then show ?thesis
      unfolding t apply_numbers_def
      by (induction tbl) (auto split: option.splits)
  qed
  have img': "set (map pc_channel_number (filter (\<lambda>r. pc_event_id r = e) ?t))
                = {1 .. int (length orderedIds)}"
    using img by (simp only: set_map set_filter)
  show ?thesis using ex num img' dist ids_t other by blast
qed

theorem applyChannelOrder_dense_witness:
  "map pc_channel_number (fst (applyChannelOrder_sched
       [(1, 1002), (2, 1000), (3, 1001)] [(3, 2), (1, 3), (2, 1)]
       [\<lparr>pc_id = 1, pc_event_id = 7, pc_channel_number = 2, pc_canonical_channel_id = Some 21\<rparr>,
        \<lparr>pc_id = 2, pc_event_id = 7, pc_channel_number = 3, pc_canonical_channel_id = Some 22\<rparr>,
        \<lparr>pc_id = 4, pc_event_id = 8, pc_channel_number = 1, pc_canonical_channel_id = Some 21\<rparr>,
        \<lparr>pc_id = 3, pc_event_id = 7, pc_channel_number = 1, pc_canonical_channel_id = None\<rparr>]))
     = [3, 1, 1, 2]
   \<and> set (map pc_channel_number (filter (\<lambda>r. pc_event_id r = 7) (fst (applyChannelOrder_sched
       [(1, 1002), (2, 1000), (3, 1001)] [(3, 2), (1, 3), (2, 1)]
       [\<lparr>pc_id = 1, pc_event_id = 7, pc_channel_number = 2, pc_canonical_channel_id = Some 21\<rparr>,
        \<lparr>pc_id = 2, pc_event_id = 7, pc_channel_number = 3, pc_canonical_channel_id = Some 22\<rparr>,
        \<lparr>pc_id = 4, pc_event_id = 8, pc_channel_number = 1, pc_canonical_channel_id = Some 21\<rparr>,
        \<lparr>pc_id = 3, pc_event_id = 7, pc_channel_number = 1, pc_canonical_channel_id = None\<rparr>])))) = {1 .. int (length [2, 3, 1 :: nat])}"
proof -
  let ?tbl = "[\<lparr>pc_id = 1, pc_event_id = 7, pc_channel_number = 2, pc_canonical_channel_id = Some 21\<rparr>,
        \<lparr>pc_id = 2, pc_event_id = 7, pc_channel_number = 3, pc_canonical_channel_id = Some 22\<rparr>,
        \<lparr>pc_id = 4, pc_event_id = 8, pc_channel_number = 1, pc_canonical_channel_id = Some 21\<rparr>,
        \<lparr>pc_id = 3, pc_event_id = 7, pc_channel_number = 1, pc_canonical_channel_id = None\<rparr>]"
  have h1: "distinct (map pc_id ?tbl)" by simp
  have h2: "distinct [2, 3, 1 :: nat]" by simp
  have h3: "set [2, 3, 1 :: nat] = set (map pc_id (filter (\<lambda>r. pc_event_id r = 7) ?tbl))" by auto
  have h4: "\<forall>r\<in>set ?tbl. pc_event_id r = 7 \<longrightarrow> pc_channel_number r < 1000" by simp
  have h5: "length [2, 3, 1 :: nat] < 1000" by simp
  have h6: "valid_schedule 1000 [2, 3, 1] [(1, 1002), (2, 1000), (3, 1001)]"
    by (simp add: valid_schedule_def phase_updates_def enumerate_eq_zip)
  have h7: "valid_schedule 1 [2, 3, 1] [(3, 2), (1, 3), (2, 1)]"
    by (simp add: valid_schedule_def phase_updates_def enumerate_eq_zip)
  note th = applyChannelOrder_dense[OF h1 h2 h3 h4 h5 h6 h7]
  have v: "map pc_channel_number (fst (applyChannelOrder_sched
       [(1, 1002), (2, 1000), (3, 1001)] [(3, 2), (1, 3), (2, 1)] ?tbl)) = [3, 1, 1, 2]"
    by (simp add: applyChannelOrder_sched_def updatePatchChannelNumber_def number_taken_def)
  show ?thesis using th v by blast
qed

text \<open>
  C1 as stated ("regardless of which numbers the records held before") fails. Three
  records of one event hold 5, 1 and 1001. Phase 1 moves the first to 1000, is refused
  1001 for the second (the third still holds it) and moves the third to 1002. Phase 2 is
  then refused 1 for the first record (the second still holds 1), and the source never
  looks at the refusal: the first record ends on 1000.
\<close>

theorem applyChannelOrder_dense_counterexample:
  "map pc_channel_number (fst (applyChannelOrder [1, 2, 3]
     [\<lparr>pc_id = 1, pc_event_id = 7, pc_channel_number = 5, pc_canonical_channel_id = Some 21\<rparr>,
      \<lparr>pc_id = 2, pc_event_id = 7, pc_channel_number = 1, pc_canonical_channel_id = Some 22\<rparr>,
      \<lparr>pc_id = 3, pc_event_id = 7, pc_channel_number = 1001, pc_canonical_channel_id = Some 23\<rparr>]))
   = [1000, 2, 3]"
  by (simp add: applyChannelOrder_def applyChannelOrder_sched_def phase_updates_def enumerate_eq_zip
        updatePatchChannelNumber_def number_taken_def)

subsection \<open>C3: no collision on the way\<close>

text \<open>
  Claim C3, as amended. Under the same conditions (each record of the event named once,
  fewer than 1000 records, every number below 1000 before the call), and with a table
  that satisfies the uniqueness constraint to begin with: whatever order the store serves
  the requests in, no request of phase 1 or of phase 2 writes a number that another
  record of the event holds at that moment, so no request is refused, and the constraint
  holds in every intermediate table.
\<close>

theorem applyChannelOrder_no_collision:
  assumes pk: "distinct (map pc_id tbl)" and ids: "distinct orderedIds"
    and cover0: "set orderedIds = set (map pc_id (filter (\<lambda>r. pc_event_id r = e) tbl))"
    and small: "\<forall>r\<in>set tbl. pc_event_id r = e \<longrightarrow> pc_channel_number r < 1000"
    and n: "length orderedIds < 1000"
    and uniq: "unique_numbers tbl"
    and s1: "valid_schedule 1000 orderedIds s1" and s2: "valid_schedule 1 orderedIds s2"
  shows "snd (applyChannelOrder_sched s1 s2 tbl) = []
       \<and> (\<forall>k<length s1. \<forall>r\<in>set (fst (run_updates (take k s1) tbl)).
            pc_id r = fst (s1 ! k) \<longrightarrow>
              \<not> number_taken (fst (run_updates (take k s1) tbl)) r (snd (s1 ! k)))
       \<and> (\<forall>k<length s2. \<forall>r\<in>set (fst (run_updates (take k s2) (fst (run_updates s1 tbl)))).
            pc_id r = fst (s2 ! k) \<longrightarrow>
              \<not> number_taken (fst (run_updates (take k s2) (fst (run_updates s1 tbl)))) r (snd (s2 ! k)))
       \<and> (\<forall>k\<le>length s1. unique_numbers (fst (run_updates (take k s1) tbl)))
       \<and> (\<forall>k\<le>length s2. unique_numbers (fst (run_updates (take k s2) (fst (run_updates s1 tbl)))))"
proof -
  let ?m1 = "map_of (phase_updates 1000 orderedIds)"
  have cover: "set orderedIds = pc_id ` {r \<in> set tbl. pc_event_id r = e}"
    using cover0 by auto
  note ev = listed_rows_in_event[OF pk cover]
  have free: "\<forall>r\<in>set tbl. pc_event_id r = e \<longrightarrow>
       \<not> (1000 \<le> pc_channel_number r \<and> pc_channel_number r < 1000 + int (length orderedIds))"
    using small by auto
  have t1: "fst (run_updates s1 tbl) = apply_numbers ?m1 tbl"
    by (simp add: two_phases(1)[OF pk ids cover small n s1 s2])
  have a: "snd (applyChannelOrder_sched s1 s2 tbl) = []"
    by (simp add: applyChannelOrder_sched_eq[OF pk ids cover small n s1 s2])
  have b: "\<forall>k<length s1. \<forall>r\<in>set (fst (run_updates (take k s1) tbl)).
            pc_id r = fst (s1 ! k) \<longrightarrow>
              \<not> number_taken (fst (run_updates (take k s1) tbl)) r (snd (s1 ! k))"
    using phase_steps[OF ids s1 ev free] by blast
  have c: "\<forall>k<length s2. \<forall>r\<in>set (fst (run_updates (take k s2) (fst (run_updates s1 tbl)))).
            pc_id r = fst (s2 ! k) \<longrightarrow>
              \<not> number_taken (fst (run_updates (take k s2) (fst (run_updates s1 tbl)))) r (snd (s2 ! k))"
    unfolding t1 using phase_steps[OF ids s2 after_phase1[OF pk ids cover n]] by blast
  have d: "\<forall>k\<le>length s1. unique_numbers (fst (run_updates (take k s1) tbl))"
    using unique_run_updates[OF uniq] by blast
  have "unique_numbers (fst (run_updates s1 tbl))" by (rule unique_run_updates[OF uniq])
  then have e: "\<forall>k\<le>length s2. unique_numbers (fst (run_updates (take k s2) (fst (run_updates s1 tbl))))"
    using unique_run_updates by blast
  show ?thesis using a b c d e by blast
qed

theorem applyChannelOrder_no_collision_witness:
  "snd (applyChannelOrder_sched
       [(1, 1002), (2, 1000), (3, 1001)] [(3, 2), (1, 3), (2, 1)]
       [\<lparr>pc_id = 1, pc_event_id = 7, pc_channel_number = 2, pc_canonical_channel_id = Some 21\<rparr>,
        \<lparr>pc_id = 2, pc_event_id = 7, pc_channel_number = 3, pc_canonical_channel_id = Some 22\<rparr>,
        \<lparr>pc_id = 4, pc_event_id = 8, pc_channel_number = 1, pc_canonical_channel_id = Some 21\<rparr>,
        \<lparr>pc_id = 3, pc_event_id = 7, pc_channel_number = 1, pc_canonical_channel_id = None\<rparr>]) = []"
proof -
  let ?tbl = "[\<lparr>pc_id = 1, pc_event_id = 7, pc_channel_number = 2, pc_canonical_channel_id = Some 21\<rparr>,
        \<lparr>pc_id = 2, pc_event_id = 7, pc_channel_number = 3, pc_canonical_channel_id = Some 22\<rparr>,
        \<lparr>pc_id = 4, pc_event_id = 8, pc_channel_number = 1, pc_canonical_channel_id = Some 21\<rparr>,
        \<lparr>pc_id = 3, pc_event_id = 7, pc_channel_number = 1, pc_canonical_channel_id = None\<rparr>]"
  have h1: "distinct (map pc_id ?tbl)" by simp
  have h2: "distinct [2, 3, 1 :: nat]" by simp
  have h3: "set [2, 3, 1 :: nat] = set (map pc_id (filter (\<lambda>r. pc_event_id r = 7) ?tbl))" by auto
  have h4: "\<forall>r\<in>set ?tbl. pc_event_id r = 7 \<longrightarrow> pc_channel_number r < 1000" by simp
  have h5: "length [2, 3, 1 :: nat] < 1000" by simp
  have h6: "unique_numbers ?tbl" by (simp add: unique_numbers_def)
  have h7: "valid_schedule 1000 [2, 3, 1] [(1, 1002), (2, 1000), (3, 1001)]"
    by (simp add: valid_schedule_def phase_updates_def enumerate_eq_zip)
  have h8: "valid_schedule 1 [2, 3, 1] [(3, 2), (1, 3), (2, 1)]"
    by (simp add: valid_schedule_def phase_updates_def enumerate_eq_zip)
  show ?thesis using applyChannelOrder_no_collision[OF h1 h2 h3 h4 h5 h6 h7 h8] by blast
qed

text \<open>
  C3 as stated, for any prior numbers, fails: with two records holding 7 and 1000, the
  first request of phase 1 writes 1000 while the second record still holds it, and the
  store refuses it.
\<close>

theorem applyChannelOrder_no_collision_counterexample:
  "snd (applyChannelOrder [1, 2]
     [\<lparr>pc_id = 1, pc_event_id = 7, pc_channel_number = 7, pc_canonical_channel_id = Some 21\<rparr>,
      \<lparr>pc_id = 2, pc_event_id = 7, pc_channel_number = 1000, pc_canonical_channel_id = Some 22\<rparr>])
   = [(1, 1000)]"
  by (simp add: applyChannelOrder_def applyChannelOrder_sched_def phase_updates_def enumerate_eq_zip
        updatePatchChannelNumber_def number_taken_def)

section \<open>Proofs: ranking and catalog order\<close>

lemma includes_str_sublist: "includes_str s t \<longleftrightarrow> sublist t s"
  by (induction s) (auto simp: sublist_Cons_right)

lemma includes_lower_occurs:
  assumes "toLowerCase t = t"
  shows "includes_str (toLowerCase name) t \<longleftrightarrow> occurs_ci t name"
proof
  assume "includes_str (toLowerCase name) t"
  then obtain ps ss where "map toLowerChar name = ps @ t @ ss"
    by (auto simp: includes_str_sublist sublist_def toLowerCase_def)
  then obtain pre rest where a: "name = pre @ rest" "map toLowerChar rest = t @ ss"
    by (metis map_eq_append_conv)
  then obtain mid post where b: "rest = mid @ post" "map toLowerChar mid = t"
    by (metis map_eq_append_conv)
  show "occurs_ci t name"
    unfolding occurs_ci_def using a b assms by (auto simp: toLowerCase_def)
next
  assume "occurs_ci t name"
  then obtain pre mid post where "name = pre @ mid @ post" "toLowerCase mid = t"
    using assms by (auto simp: occurs_ci_def)
  then have "toLowerCase name = toLowerCase pre @ t @ toLowerCase post"
    by (auto simp: toLowerCase_def)
  then show "includes_str (toLowerCase name) t"
    by (auto simp: includes_str_sublist sublist_def)
qed

lemma order_loop_find:
  assumes "\<forall>(tokens, weight) \<in> set tbl. \<forall>t \<in> set tokens. toLowerCase t = t"
  shows "order_loop tbl (toLowerCase name) =
           (case find (\<lambda>(keywords, weight). \<exists>k \<in> set keywords. occurs_ci k name) tbl of
              Some (keywords, weight) \<Rightarrow> weight | None \<Rightarrow> 9999)"
  using assms
proof (induction tbl)
  case Nil
  then show ?case by simp
next
  case (Cons g tbl)
  obtain tokens weight where g: "g = (tokens, weight)" by (cases g)
  have low: "\<forall>t \<in> set tokens. toLowerCase t = t" using Cons.prems g by auto
  have "(\<exists>t \<in> set tokens. includes_str (toLowerCase name) t) \<longleftrightarrow> (\<exists>k \<in> set tokens. occurs_ci k name)"
    using low includes_lower_occurs by blast
  then show ?case using Cons g by simp
qed

lemma orderMap_lowercase:
  "\<forall>(tokens, weight) \<in> set orderMap. \<forall>t \<in> set tokens. toLowerCase t = t"
  by (simp add: orderMap_def toLowerCase_def toLowerChar_def)

lemma categoryOrderValue_spec: "categoryOrderValue name = rank_spec name"
  unfolding categoryOrderValue_def rank_spec_def
  by (rule order_loop_find[OF orderMap_lowercase])

lemma insort_cmp_key:
  assumes "\<And>a b. cmp a b \<le> 0 \<longleftrightarrow> f a \<le> f b"
  shows "insort_cmp cmp x ys = insort_key f x ys"
  by (induction ys) (auto simp: assms)

lemma sort_cmp_key:
  assumes "\<And>a b. cmp a b \<le> 0 \<longleftrightarrow> f a \<le> f b"
  shows "sort_cmp cmp xs = sort_key f xs"
  unfolding sort_cmp_def sort_key_def
  by (induction xs) (auto simp: insort_cmp_key[OF assms])

lemma orderedCanonicalChannels_sort_key:
  "orderedCanonicalChannels cats chans = sort_key (channel_key cats) chans"
  unfolding orderedCanonicalChannels_def
  by (rule sort_cmp_key) (auto simp: canonicalOrder_def channel_key_def Let_def less_eq_prod_def)

lemma sortedCategories_sort_key:
  "sortedCategories cats = sort_key category_key cats"
  unfolding sortedCategories_def
  by (rule sort_cmp_key) (auto simp: category_key_def Let_def less_eq_prod_def)


lemma catOrder_fold:
  "fold (\<lambda>c m. m(cat_id c \<mapsto> categoryOrderValue (cat_name c))) cats m cid = Some w
     \<Longrightarrow> m cid = Some w \<or> (\<exists>c \<in> set cats. cat_id c = cid \<and> w = categoryOrderValue (cat_name c))"
proof (induction cats arbitrary: m)
  case Nil
  then show ?case by simp
next
  case (Cons c cats)
  from Cons.IH[of "m(cat_id c \<mapsto> categoryOrderValue (cat_name c))"] Cons.prems
  show ?case by (auto split: if_splits)
qed

lemma catOrder_fold_dom:
  "dom (fold (\<lambda>c m. m(cat_id c \<mapsto> categoryOrderValue (cat_name c))) cats m) = dom m \<union> cat_id ` set cats"
  by (induction cats arbitrary: m) auto

lemma catOrder_known:
  assumes "catOrder cats cid = Some w"
  shows "\<exists>c \<in> set cats. cat_id c = cid \<and> w = categoryOrderValue (cat_name c)"
  using catOrder_fold[of cats Map.empty cid w] assms by (simp add: catOrder_def)

lemma catOrder_dom: "dom (catOrder cats) = cat_id ` set cats"
  by (simp add: catOrder_def catOrder_fold_dom)

lemma sorted_key_wrt:
  "sorted (map f xs) \<longleftrightarrow>
     sorted_wrt (\<lambda>a b. fst (f a) < fst (f b) \<or> (fst (f a) = fst (f b) \<and> snd (f a) \<le> snd (f b))) xs"
  for f :: "'a \<Rightarrow> int \<times> int"
proof -
  have "(\<lambda>a b. f a \<le> f b) = (\<lambda>a b. fst (f a) < fst (f b) \<or> (fst (f a) = fst (f b) \<and> snd (f a) \<le> snd (f b)))"
    by (auto simp: less_eq_prod_def fun_eq_iff)
  then show ?thesis by (simp add: sorted_map)
qed

lemma orderMap_weights: "\<forall>(keywords, weight) \<in> set orderMap. weight < 9999"
  by (simp add: orderMap_def)

lemma rank_spec_cases:
  "((\<forall>(keywords, weight) \<in> set orderMap. \<forall>k \<in> set keywords. \<not> occurs_ci k name)
      \<longrightarrow> rank_spec name = 9999)
   \<and> ((\<exists>(keywords, weight) \<in> set orderMap. \<exists>k \<in> set keywords. occurs_ci k name)
      \<longrightarrow> rank_spec name < 9999)"
proof (cases "find (\<lambda>(keywords, weight). \<exists>k \<in> set keywords. occurs_ci k name) orderMap")
  case None
  then have "\<forall>(keywords, weight) \<in> set orderMap. \<forall>k \<in> set keywords. \<not> occurs_ci k name"
    by (auto simp: find_None_iff)
  then show ?thesis using None by (auto simp: rank_spec_def)
next
  case (Some g)
  obtain ks w where g: "g = (ks, w)" by (cases g)
  have "(ks, w) \<in> set orderMap" "\<exists>k \<in> set ks. occurs_ci k name"
    using Some g by (auto simp: find_Some_iff) (metis nth_mem)
  then have "w < 9999" "\<exists>(keywords, weight) \<in> set orderMap. \<exists>k \<in> set keywords. occurs_ci k name"
    using orderMap_weights by auto
  then show ?thesis using Some g by (auto simp: rank_spec_def)
qed

lemma categoryOrderValue_le: "categoryOrderValue name \<le> 9999"
  using rank_spec_cases[of name] categoryOrderValue_spec[of name] by force

subsection \<open>C4: the catalog order\<close>

text \<open>
  Claim C4. The catalog order is a function of the categories and the channels alone. Its
  result is a rearrangement of the input that is sorted by category weight first and by
  \<open>default_order\<close> second, and channels that agree on both keys keep their input
  order. It is the only such list, so every stable sort returns it, call after call.
  A channel without a category, or with a category id that no category has, weighs 9999,
  which no weight exceeds; a channel with a known category id weighs what the ranking
  gives that category's name.
\<close>

theorem orderedCanonicalChannels_sorted_stable:
  "sorted_wrt (\<lambda>a b. category_weight categories a < category_weight categories b
                  \<or> (category_weight categories a = category_weight categories b
                       \<and> ch_default_order a \<le> ch_default_order b))
      (orderedCanonicalChannels categories channels)
   \<and> mset (orderedCanonicalChannels categories channels) = mset channels
   \<and> (\<forall>w d. filter (\<lambda>c. category_weight categories c = w \<and> ch_default_order c = d)
                (orderedCanonicalChannels categories channels)
            = filter (\<lambda>c. category_weight categories c = w \<and> ch_default_order c = d) channels)
   \<and> (\<forall>ys. mset ys = mset channels
          \<and> sorted_wrt (\<lambda>a b. category_weight categories a < category_weight categories b
                  \<or> (category_weight categories a = category_weight categories b
                       \<and> ch_default_order a \<le> ch_default_order b)) ys
          \<and> (\<forall>w d. filter (\<lambda>c. category_weight categories c = w \<and> ch_default_order c = d) ys
                 = filter (\<lambda>c. category_weight categories c = w \<and> ch_default_order c = d) channels)
        \<longrightarrow> ys = orderedCanonicalChannels categories channels)
   \<and> (\<forall>c. category_weight categories c \<le> 9999)
   \<and> (\<forall>c. ch_category_id c = None \<longrightarrow> category_weight categories c = 9999)
   \<and> (\<forall>c cid. ch_category_id c = Some cid \<and> cid \<notin> set (map cat_id categories)
          \<longrightarrow> category_weight categories c = 9999)
   \<and> (\<forall>c cid. ch_category_id c = Some cid \<and> cid \<in> set (map cat_id categories)
          \<longrightarrow> (\<exists>cat \<in> set categories. cat_id cat = cid
                 \<and> category_weight categories c = categoryOrderValue (cat_name cat)))"
proof -
  let ?f = "channel_key categories"
  let ?R = "\<lambda>a b. category_weight categories a < category_weight categories b
                  \<or> (category_weight categories a = category_weight categories b
                       \<and> ch_default_order a \<le> ch_default_order b)"
  let ?out = "orderedCanonicalChannels categories channels"
  have out: "?out = sort_key ?f channels" by (rule orderedCanonicalChannels_sort_key)
  have R: "sorted (map ?f ys) \<longleftrightarrow> sorted_wrt ?R ys" for ys
    by (simp add: sorted_key_wrt channel_key_def)
  have key: "(\<lambda>c. category_weight categories c = w \<and> ch_default_order c = d) = (\<lambda>c. ?f c = (w, d))" for w d
    by (auto simp: channel_key_def)
  have a: "sorted_wrt ?R ?out" using R[of ?out] by (simp add: out)
  have b: "mset ?out = mset channels" by (simp add: out)
  have c: "filter (\<lambda>c. category_weight categories c = w \<and> ch_default_order c = d) ?out
         = filter (\<lambda>c. category_weight categories c = w \<and> ch_default_order c = d) channels" for w d
    unfolding key out by (rule sort_key_stable)
  have d: "ys = ?out"
    if h: "mset ys = mset channels" "sorted_wrt ?R ys"
      "\<forall>w d. filter (\<lambda>c. category_weight categories c = w \<and> ch_default_order c = d) ys
                 = filter (\<lambda>c. category_weight categories c = w \<and> ch_default_order c = d) channels"
    for ys
  proof -
    have "sort_key ?f channels = ys"
    proof (rule properties_for_sort_key)
      show "mset ys = mset channels" by (rule h(1))
      show "sorted (map ?f ys)" using h(2) R by simp
      fix k assume "k \<in> set ys"
      have "filter (\<lambda>x. ?f x = ?f k) ys = filter (\<lambda>x. ?f x = ?f k) channels"
        using h(3)[rule_format, of "fst (?f k)" "snd (?f k)"]
        unfolding key[of "fst (?f k)" "snd (?f k)"] by simp
      moreover have "(\<lambda>x. ?f k = ?f x) = (\<lambda>x. ?f x = ?f k)" by auto
      ultimately show "filter (\<lambda>x. ?f k = ?f x) ys = filter (\<lambda>x. ?f k = ?f x) channels" by simp
    qed
    then show ?thesis by (simp add: out)
  qed
  have e: "ch_category_id c = None \<Longrightarrow> category_weight categories c = 9999" for c
    by (simp add: category_weight_def)
  have f: "category_weight categories c = 9999"
    if "ch_category_id c = Some cid" "cid \<notin> set (map cat_id categories)" for c cid
  proof -
    have "catOrder categories cid = None" using that(2) catOrder_dom[of categories] by auto
    then show ?thesis using that(1) by (simp add: category_weight_def)
  qed
  have g: "\<exists>cat \<in> set categories. cat_id cat = cid
                 \<and> category_weight categories c = categoryOrderValue (cat_name cat)"
    if h: "ch_category_id c = Some cid" "cid \<in> set (map cat_id categories)" for c cid
  proof -
    obtain w where w: "catOrder categories cid = Some w"
      using h(2) catOrder_dom[of categories] by auto
    from catOrder_known[OF w] h(1) w show ?thesis by (auto simp: category_weight_def)
  qed
  have le: "category_weight categories c \<le> 9999" for c
  proof (cases "ch_category_id c")
    case None
    then show ?thesis by (simp add: category_weight_def)
  next
    case (Some cid)
    note cid = Some
    show ?thesis
    proof (cases "catOrder categories cid")
      case None
      then show ?thesis using cid by (simp add: category_weight_def)
    next
      case (Some w)
      from catOrder_known[OF Some] categoryOrderValue_le have "w \<le> 9999" by auto
      then show ?thesis using Some cid by (simp add: category_weight_def)
    qed
  qed
  have le': "\<forall>c. category_weight categories c \<le> 9999" using le by simp
  have rest: "(\<forall>c. ch_category_id c = None \<longrightarrow> category_weight categories c = 9999)
   \<and> (\<forall>c cid. ch_category_id c = Some cid \<and> cid \<notin> set (map cat_id categories)
          \<longrightarrow> category_weight categories c = 9999)
   \<and> (\<forall>c cid. ch_category_id c = Some cid \<and> cid \<in> set (map cat_id categories)
          \<longrightarrow> (\<exists>cat \<in> set categories. cat_id cat = cid
                 \<and> category_weight categories c = categoryOrderValue (cat_name cat)))"
    using e f g by blast
  have first: "sorted_wrt ?R ?out \<and> mset ?out = mset channels
   \<and> (\<forall>w d. filter (\<lambda>c. category_weight categories c = w \<and> ch_default_order c = d) ?out
            = filter (\<lambda>c. category_weight categories c = w \<and> ch_default_order c = d) channels)
   \<and> (\<forall>ys. mset ys = mset channels \<and> sorted_wrt ?R ys
          \<and> (\<forall>w d. filter (\<lambda>c. category_weight categories c = w \<and> ch_default_order c = d) ys
                 = filter (\<lambda>c. category_weight categories c = w \<and> ch_default_order c = d) channels)
        \<longrightarrow> ys = ?out)"
    using a b c d by blast
  show ?thesis using first le' rest by (elim conjE, intro conjI) assumption+
qed


theorem orderedCanonicalChannels_sorted_stable_witness:
  "orderedCanonicalChannels
      [\<lparr>cat_id = 1, cat_name = ''Vocals'', cat_sort_order = 5\<rparr>,
       \<lparr>cat_id = 3, cat_name = ''Drums'', cat_sort_order = 3\<rparr>]
      [\<lparr>ch_id = 13, ch_name = ''Lead Vox'', ch_default_order = 1, ch_category_id = Some 1\<rparr>,
       \<lparr>ch_id = 14, ch_name = ''Talkback'', ch_default_order = 1, ch_category_id = None\<rparr>,
       \<lparr>ch_id = 12, ch_name = ''Snare Top'', ch_default_order = 2, ch_category_id = Some 3\<rparr>,
       \<lparr>ch_id = 11, ch_name = ''Kick In'', ch_default_order = 1, ch_category_id = Some 3\<rparr>]
    = [\<lparr>ch_id = 11, ch_name = ''Kick In'', ch_default_order = 1, ch_category_id = Some 3\<rparr>,
       \<lparr>ch_id = 12, ch_name = ''Snare Top'', ch_default_order = 2, ch_category_id = Some 3\<rparr>,
       \<lparr>ch_id = 13, ch_name = ''Lead Vox'', ch_default_order = 1, ch_category_id = Some 1\<rparr>,
       \<lparr>ch_id = 14, ch_name = ''Talkback'', ch_default_order = 1, ch_category_id = None\<rparr>]
   \<and> mset (orderedCanonicalChannels
      [\<lparr>cat_id = 1, cat_name = ''Vocals'', cat_sort_order = 5\<rparr>,
       \<lparr>cat_id = 3, cat_name = ''Drums'', cat_sort_order = 3\<rparr>]
      [\<lparr>ch_id = 13, ch_name = ''Lead Vox'', ch_default_order = 1, ch_category_id = Some 1\<rparr>,
       \<lparr>ch_id = 14, ch_name = ''Talkback'', ch_default_order = 1, ch_category_id = None\<rparr>,
       \<lparr>ch_id = 12, ch_name = ''Snare Top'', ch_default_order = 2, ch_category_id = Some 3\<rparr>,
       \<lparr>ch_id = 11, ch_name = ''Kick In'', ch_default_order = 1, ch_category_id = Some 3\<rparr>])
    = mset [\<lparr>ch_id = 13, ch_name = ''Lead Vox'', ch_default_order = 1, ch_category_id = Some 1\<rparr>,
       \<lparr>ch_id = 14, ch_name = ''Talkback'', ch_default_order = 1, ch_category_id = None\<rparr>,
       \<lparr>ch_id = 12, ch_name = ''Snare Top'', ch_default_order = 2, ch_category_id = Some 3\<rparr>,
       \<lparr>ch_id = 11, ch_name = ''Kick In'', ch_default_order = 1, ch_category_id = Some 3\<rparr>]"
proof -
  have v: "categoryOrderValue ''Vocals'' = 6" "categoryOrderValue ''Drums'' = 0"
    by (simp_all add: categoryOrderValue_def orderMap_def toLowerCase_def toLowerChar_def)
  have s: "orderedCanonicalChannels
      [\<lparr>cat_id = 1, cat_name = ''Vocals'', cat_sort_order = 5\<rparr>,
       \<lparr>cat_id = 3, cat_name = ''Drums'', cat_sort_order = 3\<rparr>]
      [\<lparr>ch_id = 13, ch_name = ''Lead Vox'', ch_default_order = 1, ch_category_id = Some 1\<rparr>,
       \<lparr>ch_id = 14, ch_name = ''Talkback'', ch_default_order = 1, ch_category_id = None\<rparr>,
       \<lparr>ch_id = 12, ch_name = ''Snare Top'', ch_default_order = 2, ch_category_id = Some 3\<rparr>,
       \<lparr>ch_id = 11, ch_name = ''Kick In'', ch_default_order = 1, ch_category_id = Some 3\<rparr>]
    = [\<lparr>ch_id = 11, ch_name = ''Kick In'', ch_default_order = 1, ch_category_id = Some 3\<rparr>,
       \<lparr>ch_id = 12, ch_name = ''Snare Top'', ch_default_order = 2, ch_category_id = Some 3\<rparr>,
       \<lparr>ch_id = 13, ch_name = ''Lead Vox'', ch_default_order = 1, ch_category_id = Some 1\<rparr>,
       \<lparr>ch_id = 14, ch_name = ''Talkback'', ch_default_order = 1, ch_category_id = None\<rparr>]"
    by (simp add: orderedCanonicalChannels_def sort_cmp_def canonicalOrder_def category_weight_def
          catOrder_def v)
  show ?thesis
    using orderedCanonicalChannels_sorted_stable[of
      "[\<lparr>cat_id = 1, cat_name = ''Vocals'', cat_sort_order = 5\<rparr>,
       \<lparr>cat_id = 3, cat_name = ''Drums'', cat_sort_order = 3\<rparr>]"
      "[\<lparr>ch_id = 13, ch_name = ''Lead Vox'', ch_default_order = 1, ch_category_id = Some 1\<rparr>,
       \<lparr>ch_id = 14, ch_name = ''Talkback'', ch_default_order = 1, ch_category_id = None\<rparr>,
       \<lparr>ch_id = 12, ch_name = ''Snare Top'', ch_default_order = 2, ch_category_id = Some 3\<rparr>,
       \<lparr>ch_id = 11, ch_name = ''Kick In'', ch_default_order = 1, ch_category_id = Some 3\<rparr>]"] s
    by blast
qed

subsection \<open>C7: the category ranking\<close>

text \<open>
  Claim C7. The ranking of a name is the weight of the first keyword group, in table
  order with weights 0 to 6, one of whose keywords occurs in the name up to case. Every
  weight of the table is below the sentinel 9999, which a name gets exactly when no
  keyword occurs in it. The sorted categories are ordered by weight and, at equal weight,
  by ascending \<open>sort_order\<close>; so no unrecognised category stands before a recognised
  one.
\<close>

theorem categoryOrderValue_ranking:
  "categoryOrderValue name = rank_spec name
   \<and> map snd orderMap = [0, 1, 2, 3, 4, 5, 6]
   \<and> (\<forall>(keywords, weight) \<in> set orderMap. weight < 9999)
   \<and> ((\<forall>(keywords, weight) \<in> set orderMap. \<forall>k \<in> set keywords. \<not> occurs_ci k name)
        \<longrightarrow> categoryOrderValue name = 9999)
   \<and> ((\<exists>(keywords, weight) \<in> set orderMap. \<exists>k \<in> set keywords. occurs_ci k name)
        \<longrightarrow> categoryOrderValue name < 9999)
   \<and> sorted_wrt (\<lambda>a b. categoryOrderValue (cat_name a) < categoryOrderValue (cat_name b)
                   \<or> (categoryOrderValue (cat_name a) = categoryOrderValue (cat_name b)
                        \<and> cat_sort_order a \<le> cat_sort_order b))
        (sortedCategories categories)
   \<and> sorted_wrt (\<lambda>a b. \<not> (categoryOrderValue (cat_name a) = 9999
                            \<and> categoryOrderValue (cat_name b) < 9999))
        (sortedCategories categories)
   \<and> mset (sortedCategories categories) = mset categories"
proof -
  let ?R = "\<lambda>a b. categoryOrderValue (cat_name a) < categoryOrderValue (cat_name b)
                   \<or> (categoryOrderValue (cat_name a) = categoryOrderValue (cat_name b)
                        \<and> cat_sort_order a \<le> cat_sort_order b)"
  have a: "categoryOrderValue name = rank_spec name" by (rule categoryOrderValue_spec)
  have b: "map snd orderMap = [0, 1, 2, 3, 4, 5, 6]" by (simp add: orderMap_def)
  note c = orderMap_weights
  note d = rank_spec_cases[of name, folded a]
  have "sorted (map category_key (sort_key category_key categories))" by simp
  then have e: "sorted_wrt ?R (sortedCategories categories)"
    by (simp add: sorted_key_wrt sortedCategories_sort_key category_key_def)
  have f: "sorted_wrt (\<lambda>a b. \<not> (categoryOrderValue (cat_name a) = 9999
                            \<and> categoryOrderValue (cat_name b) < 9999)) (sortedCategories categories)"
    by (rule sorted_wrt_mono_rel[OF _ e]) auto
  have g: "mset (sortedCategories categories) = mset categories"
    by (simp add: sortedCategories_sort_key)
  show ?thesis using a b c d e f g by blast
qed

theorem categoryOrderValue_ranking_witness:
  "categoryOrderValue ''Lead Vocals'' = rank_spec ''Lead Vocals''
   \<and> categoryOrderValue ''Lead Vocals'' = 6
   \<and> sortedCategories
        [\<lparr>cat_id = 1, cat_name = ''Vocals'', cat_sort_order = 5\<rparr>,
         \<lparr>cat_id = 2, cat_name = ''FX / Playback'', cat_sort_order = 1\<rparr>,
         \<lparr>cat_id = 3, cat_name = ''Drums'', cat_sort_order = 3\<rparr>]
      = [\<lparr>cat_id = 3, cat_name = ''Drums'', cat_sort_order = 3\<rparr>,
         \<lparr>cat_id = 1, cat_name = ''Vocals'', cat_sort_order = 5\<rparr>,
         \<lparr>cat_id = 2, cat_name = ''FX / Playback'', cat_sort_order = 1\<rparr>]
   \<and> sorted_wrt (\<lambda>a b. \<not> (categoryOrderValue (cat_name a) = 9999
                            \<and> categoryOrderValue (cat_name b) < 9999))
        (sortedCategories
        [\<lparr>cat_id = 1, cat_name = ''Vocals'', cat_sort_order = 5\<rparr>,
         \<lparr>cat_id = 2, cat_name = ''FX / Playback'', cat_sort_order = 1\<rparr>,
         \<lparr>cat_id = 3, cat_name = ''Drums'', cat_sort_order = 3\<rparr>])"
proof -
  have v: "categoryOrderValue ''Lead Vocals'' = 6" "categoryOrderValue ''Vocals'' = 6"
    "categoryOrderValue ''FX / Playback'' = 9999" "categoryOrderValue ''Drums'' = 0"
    by (simp_all add: categoryOrderValue_def orderMap_def toLowerCase_def toLowerChar_def)
  have s: "sortedCategories
        [\<lparr>cat_id = 1, cat_name = ''Vocals'', cat_sort_order = 5\<rparr>,
         \<lparr>cat_id = 2, cat_name = ''FX / Playback'', cat_sort_order = 1\<rparr>,
         \<lparr>cat_id = 3, cat_name = ''Drums'', cat_sort_order = 3\<rparr>]
      = [\<lparr>cat_id = 3, cat_name = ''Drums'', cat_sort_order = 3\<rparr>,
         \<lparr>cat_id = 1, cat_name = ''Vocals'', cat_sort_order = 5\<rparr>,
         \<lparr>cat_id = 2, cat_name = ''FX / Playback'', cat_sort_order = 1\<rparr>]"
    by (simp add: sortedCategories_def sort_cmp_def v)
  show ?thesis
    using categoryOrderValue_ranking[of "''Lead Vocals''"
        "[\<lparr>cat_id = 1, cat_name = ''Vocals'', cat_sort_order = 5\<rparr>,
         \<lparr>cat_id = 2, cat_name = ''FX / Playback'', cat_sort_order = 1\<rparr>,
         \<lparr>cat_id = 3, cat_name = ''Drums'', cat_sort_order = 3\<rparr>]"] v(1) s
    by blast
qed

section \<open>Proofs: pruning\<close>





lemma set_selectPatchChannels:
  "set (selectPatchChannels ev d) = {r \<in> set (db_patch_channels d). pc_event_id r = ev}"
  by (auto simp: selectPatchChannels_def)


lemma prune_cases:
  "pruneUnusedPatchChannels ev d = d
   \<or> pruneUnusedPatchChannels ev d = snd (deletePatchChannels (unusedPatchIds (selectPatchChannels ev d) d) d)
   \<or> (\<exists>ids'. pruneUnusedPatchChannels ev d
        = applyChannelOrder_db ids' (snd (deletePatchChannels (unusedPatchIds (selectPatchChannels ev d) d) d)))"
  unfolding pruneUnusedPatchChannels_def Let_def
  by (auto simp: deletePatchChannels_def)


lemma prune_bands: "db_bands (pruneUnusedPatchChannels ev d) = db_bands d"
  using prune_cases[of ev d] by (auto simp: deletePatchChannels_def applyChannelOrder_db_def)

lemma unusedPatchIds_eq:
  "unusedPatchIds pd d = map pc_id (filter (\<lambda>p. \<not> used_in d (pc_id p)) pd)"
proof -
  let ?used = "map u_patch_channel_id (filter u_is_used
        (filter (\<lambda>u. u_patch_channel_id u \<in> set (map pc_id pd)) (db_band_channel_usage d)))"
  have "filter (\<lambda>p. pc_id p \<notin> set ?used) pd = filter (\<lambda>p. \<not> used_in d (pc_id p)) pd"
  proof (rule filter_cong[OF refl])
    fix p assume p: "p \<in> set pd"
    have "pc_id p \<in> set ?used \<longleftrightarrow> used_in d (pc_id p)"
    proof
      assume "pc_id p \<in> set ?used"
      then obtain u where "u \<in> set (db_band_channel_usage d)" "u_is_used u" "u_patch_channel_id u = pc_id p"
        by auto
      then show "used_in d (pc_id p)" unfolding used_in_def by blast
    next
      assume "used_in d (pc_id p)"
      then obtain u where u: "u \<in> set (db_band_channel_usage d)" "u_is_used u" "u_patch_channel_id u = pc_id p"
        unfolding used_in_def by blast
      then have "u \<in> set (filter u_is_used
        (filter (\<lambda>u. u_patch_channel_id u \<in> set (map pc_id pd)) (db_band_channel_usage d)))"
        using p by simp
      then show "pc_id p \<in> set ?used" using u(3) by (metis image_eqI set_map)
    qed
    then show "(pc_id p \<notin> set ?used) = (\<not> used_in d (pc_id p))" by simp
  qed
  then show ?thesis unfolding unusedPatchIds_def Let_def by simp
qed








subsection \<open>C2: pruning keeps exactly the used patch channels\<close>



section \<open>Proofs: ensuring patch channels\<close>

lemma map_enumerate_upt:
  "map (\<lambda>(i, x). f i x) (enumerate 0 xs) = map (\<lambda>i. f i (xs ! i)) [0..<length xs]"
  by (rule nth_equalityI) (simp_all add: nth_enumerate_eq)

lemma fold_max_Max:
  "fold (\<lambda>p acc. max acc (f p)) xs (a::int) = Max (insert a (set (map f xs)))"
proof -
  have "(\<lambda>p acc. max acc (f p)) = max \<circ> f" by (auto simp: fun_eq_iff)
  then have "fold (\<lambda>p acc. max acc (f p)) xs a = fold max (map f xs) a"
    by (simp add: fold_map)
  also have "\<dots> = Max (set (a # map f xs))" by (rule Max.set_eq_fold[symmetric])
  finally show ?thesis by simp
qed

lemma add_to_canonicalToPatch_None:
  "add_to_canonicalToPatch ps m0 c = None
     \<longleftrightarrow> m0 c = None \<and> Some c \<notin> set (map p_canonical_channel_id ps)"
  unfolding add_to_canonicalToPatch_def
  by (induction ps arbitrary: m0) (auto split: option.splits)

lemma add_to_canonicalToPatch_Some:
  "add_to_canonicalToPatch ps m0 c = Some p
     \<Longrightarrow> (p \<in> set ps \<and> p_canonical_channel_id p = Some c) \<or> m0 c = Some p"
proof (induction ps arbitrary: m0)
  case Nil
  then show ?case by (simp add: add_to_canonicalToPatch_def)
next
  case (Cons a ps)
  show ?case
  proof (cases "p_canonical_channel_id a")
    case None
    then have "add_to_canonicalToPatch ps m0 c = Some p"
      using Cons.prems by (simp add: add_to_canonicalToPatch_def)
    from Cons.IH[OF this] show ?thesis by auto
  next
    case (Some x)
    then have "add_to_canonicalToPatch ps (m0(x \<mapsto> a)) c = Some p"
      using Cons.prems by (simp add: add_to_canonicalToPatch_def)
    from Cons.IH[OF this] Some show ?thesis by (auto split: if_splits)
  qed
qed




lemma insertPatchChannels_fresh:
  assumes "\<forall>r \<in> set (db_patch_channels d). pc_event_id r = ev \<longrightarrow> pc_channel_number r \<le> M"
  shows "insertPatchChannels (map (\<lambda>(idx, c). (ev, M + int idx + 1, Some c)) (enumerate 0 missing)) d
       = (Inr (new_patch_rows d ev M missing),
          d\<lparr>db_patch_channels := db_patch_channels d @ new_patch_rows d ev M missing,
            db_next_id := db_next_id d + length missing,
            db_writes := db_writes d + 1\<rparr>)"
proof -
  let ?newRows = "map (\<lambda>(idx, c). (ev, M + int idx + 1, Some c)) (enumerate 0 missing)"
  have nr: "?newRows = map (\<lambda>i. (ev, M + int i + 1, Some (missing ! i))) [0..<length missing]"
    by (rule map_enumerate_upt)
  have no_clash: "\<not> (\<exists>(e, n, c) \<in> set ?newRows. \<exists>r \<in> set (db_patch_channels d).
             pc_event_id r = e \<and> pc_channel_number r = n)"
    unfolding nr using assms by fastforce
  have "map (\<lambda>(e, n, c). (e, n)) ?newRows = map (\<lambda>i. (ev, M + int i + 1)) [0..<length missing]"
    unfolding nr by simp
  then have dist: "distinct (map (\<lambda>(e, n, c). (e, n)) ?newRows)"
    by (simp add: distinct_map inj_on_def)
  have created: "map (\<lambda>(idx, (e, n, c)).
                \<lparr>pc_id = db_next_id d + idx, pc_event_id = e, pc_channel_number = n,
                 pc_canonical_channel_id = c\<rparr>) (enumerate 0 ?newRows) = new_patch_rows d ev M missing"
    unfolding new_patch_rows_def
    by (rule nth_equalityI) (simp_all add: nth_enumerate_eq nr)
  have len: "length ?newRows = length missing" by simp
  show ?thesis
    unfolding insertPatchChannels_def
    using no_clash dist by (simp only: created len if_False Let_def simp_thms)
qed




lemma ensure_nothing_missing:
  assumes "missing_of snap canonicalIds = []"
  shows "ensurePatchChannels snap canonicalIds cur d
           = (add_to_canonicalToPatch (patchChannels snap) Map.empty, cur, d)"
proof -
  have "filter (\<lambda>c. add_to_canonicalToPatch (patchChannels snap) Map.empty c = None) canonicalIds
      = missing_of snap canonicalIds"
    unfolding missing_of_def by (simp add: add_to_canonicalToPatch_None)
  then show ?thesis using assms by (simp add: ensurePatchChannels_def)
qed

lemma ensure_missing:
  assumes ev: "selectedEventId snap = Some ev"
    and nums: "\<forall>r \<in> set (db_patch_channels d). pc_event_id r = ev \<longrightarrow>
                 pc_channel_number r \<in> set (map p_channel_number (patchChannels snap))"
    and mis: "missing_of snap canonicalIds \<noteq> []"
  shows "ensurePatchChannels snap canonicalIds cur d
           = (add_to_canonicalToPatch
                (map (mem_of snap) (new_patch_rows d ev (mem_max snap) (missing_of snap canonicalIds)))
                (add_to_canonicalToPatch (patchChannels snap) Map.empty),
              cur\<lparr>patchChannels := patchChannels snap
                     @ map (mem_of snap) (new_patch_rows d ev (mem_max snap) (missing_of snap canonicalIds))\<rparr>,
              d\<lparr>db_patch_channels := db_patch_channels d
                     @ new_patch_rows d ev (mem_max snap) (missing_of snap canonicalIds),
                db_next_id := db_next_id d + length (missing_of snap canonicalIds),
                db_writes := db_writes d + 1\<rparr>)"
proof -
  have m: "filter (\<lambda>c. add_to_canonicalToPatch (patchChannels snap) Map.empty c = None) canonicalIds
      = missing_of snap canonicalIds"
    unfolding missing_of_def by (simp add: add_to_canonicalToPatch_None)
  have mx: "fold (\<lambda>p acc. max acc (p_channel_number p)) (patchChannels snap) 0 = mem_max snap"
    unfolding mem_max_def by (rule fold_max_Max)
  have le: "\<forall>r \<in> set (db_patch_channels d). pc_event_id r = ev \<longrightarrow> pc_channel_number r \<le> mem_max snap"
  proof (intro ballI impI)
    fix r assume "r \<in> set (db_patch_channels d)" "pc_event_id r = ev"
    then have "pc_channel_number r \<in> set (map p_channel_number (patchChannels snap))"
      using nums by blast
    then show "pc_channel_number r \<le> mem_max snap" unfolding mem_max_def by (intro Max_ge) auto
  qed
  note ins = insertPatchChannels_fresh[OF le, of "missing_of snap canonicalIds"]
  show ?thesis
    unfolding ensurePatchChannels_def Let_def m mx
    using mis by (simp add: ev ins mem_of_def[abs_def])
qed






lemma patches_loaded_sets:
  assumes "patches_loaded snap ev d"
  shows "set (map p_channel_number (patchChannels snap)) = set (map pc_channel_number (event_rows ev d))"
    and "set (map p_canonical_channel_id (patchChannels snap))
           = set (map pc_canonical_channel_id (event_rows ev d))"
    and "set (map p_id (patchChannels snap)) = set (map pc_id (event_rows ev d))"
proof -
  let ?mem = "map (\<lambda>p. (p_id p, p_channel_number p, p_canonical_channel_id p)) (patchChannels snap)"
  let ?sel = "map (\<lambda>r. (pc_id r, pc_channel_number r, pc_canonical_channel_id r)) (selectPatchChannels ev d)"
  have eq: "?mem = ?sel" using assms by (simp add: patches_loaded_def)
  have s: "set (selectPatchChannels ev d) = set (event_rows ev d)"
    by (simp add: selectPatchChannels_def event_rows_def)
  have "map p_channel_number (patchChannels snap) = map (fst \<circ> snd) ?mem" by (simp add: comp_def)
  also have "\<dots> = map pc_channel_number (selectPatchChannels ev d)" unfolding eq by (simp add: comp_def)
  finally show "set (map p_channel_number (patchChannels snap)) = set (map pc_channel_number (event_rows ev d))"
    using s by simp
  have "map p_canonical_channel_id (patchChannels snap) = map (snd \<circ> snd) ?mem" by (simp add: comp_def)
  also have "\<dots> = map pc_canonical_channel_id (selectPatchChannels ev d)" unfolding eq by (simp add: comp_def)
  finally show "set (map p_canonical_channel_id (patchChannels snap))
           = set (map pc_canonical_channel_id (event_rows ev d))"
    using s by simp
  have "map p_id (patchChannels snap) = map fst ?mem" by (simp add: comp_def)
  also have "\<dots> = map pc_id (selectPatchChannels ev d)" unfolding eq by (simp add: comp_def)
  finally show "set (map p_id (patchChannels snap)) = set (map pc_id (event_rows ev d))"
    using s by simp
qed

lemma add_to_canonicalToPatch_keeps:
  "m0 c \<noteq> None \<Longrightarrow> add_to_canonicalToPatch ps m0 c \<noteq> None"
  by (simp add: add_to_canonicalToPatch_None)

lemma ensure_cover:
  assumes ev: "selectedEventId snap = Some ev"
    and nums: "\<forall>r \<in> set (db_patch_channels d). pc_event_id r = ev \<longrightarrow>
                 pc_channel_number r \<in> set (map p_channel_number (patchChannels snap))"
    and c: "c \<in> set canonicalIds"
  shows "\<exists>p. fst (ensurePatchChannels snap canonicalIds cur d) c = Some p
            \<and> p_canonical_channel_id p = Some c"
proof (cases "missing_of snap canonicalIds = []")
  case True
  then have "c \<notin> set (missing_of snap canonicalIds)" by simp
  then have "Some c \<in> set (map p_canonical_channel_id (patchChannels snap))"
    using c by (simp add: missing_of_def)
  then obtain p where p: "add_to_canonicalToPatch (patchChannels snap) Map.empty c = Some p"
    using add_to_canonicalToPatch_None[of "patchChannels snap" Map.empty c] by auto
  from add_to_canonicalToPatch_Some[OF p] have "p_canonical_channel_id p = Some c" by simp
  then show ?thesis using p by (simp add: ensure_nothing_missing[OF True])
next
  case False
  let ?app = "map (mem_of snap) (new_patch_rows d ev (mem_max snap) (missing_of snap canonicalIds))"
  let ?m0 = "add_to_canonicalToPatch (patchChannels snap) Map.empty"
  have res: "fst (ensurePatchChannels snap canonicalIds cur d) = add_to_canonicalToPatch ?app ?m0"
    by (simp add: ensure_missing[OF ev nums False])
  have "add_to_canonicalToPatch ?app ?m0 c \<noteq> None"
  proof (cases "c \<in> set (missing_of snap canonicalIds)")
    case True
    then obtain i where i: "i < length (missing_of snap canonicalIds)" "missing_of snap canonicalIds ! i = c"
      by (auto simp: in_set_conv_nth)
    then have "Some c \<in> set (map p_canonical_channel_id ?app)"
      by (force simp: new_patch_rows_def mem_of_def image_iff)
    then show ?thesis by (simp add: add_to_canonicalToPatch_None)
  next
    case False
    then have "Some c \<in> set (map p_canonical_channel_id (patchChannels snap))"
      using c by (simp add: missing_of_def)
    then have "?m0 c \<noteq> None" by (simp add: add_to_canonicalToPatch_None)
    then show ?thesis by (rule add_to_canonicalToPatch_keeps)
  qed
  then obtain p where p: "add_to_canonicalToPatch ?app ?m0 c = Some p" by auto
  from add_to_canonicalToPatch_Some[OF p] have "p_canonical_channel_id p = Some c"
    using add_to_canonicalToPatch_Some[of "patchChannels snap" Map.empty c p] by auto
  then show ?thesis using p res by simp
qed

subsection \<open>C6: new patch channels are appended\<close>

text \<open>
  Claim C6. With an event selected and the page's patch list as loaded from the store,
  \<^verbatim>\<open>ensurePatchChannels\<close> leaves every existing row of the table as it is and appends
  one row for each selected channel id without a patch channel in the event, in the
  order of the selection, numbered consecutively from the event's current maximum plus
  one. Bands and usage rows are untouched; with nothing to create, nothing changes at
  all; the page's list keeps its entries and gains the new ones at the end; and every
  selected id has a patch channel in the returned map.
\<close>

theorem ensurePatchChannels_appends:
  assumes ev: "selectedEventId snap = Some ev"
    and sync: "patches_loaded snap ev d"
  shows "db_patch_channels (snd (snd (ensurePatchChannels snap canonicalIds cur d)))
           = db_patch_channels d
             @ new_patch_rows d ev (max_channel_number ev d) (uncovered ev d canonicalIds)
       \<and> db_bands (snd (snd (ensurePatchChannels snap canonicalIds cur d))) = db_bands d
       \<and> db_band_channel_usage (snd (snd (ensurePatchChannels snap canonicalIds cur d)))
           = db_band_channel_usage d
       \<and> (uncovered ev d canonicalIds = []
            \<longrightarrow> snd (ensurePatchChannels snap canonicalIds cur d) = (cur, d))
       \<and> (uncovered ev d canonicalIds \<noteq> []
            \<longrightarrow> patchChannels (fst (snd (ensurePatchChannels snap canonicalIds cur d)))
                  = patchChannels snap
                    @ map (mem_of snap)
                        (new_patch_rows d ev (max_channel_number ev d) (uncovered ev d canonicalIds)))
       \<and> (\<forall>c \<in> set canonicalIds. \<exists>p. fst (ensurePatchChannels snap canonicalIds cur d) c = Some p
              \<and> p_canonical_channel_id p = Some c)"
proof -
  note sets = patches_loaded_sets[OF sync]
  have mis: "missing_of snap canonicalIds = uncovered ev d canonicalIds"
    by (simp only: missing_of_def uncovered_def sets(2))
  have mx: "mem_max snap = max_channel_number ev d"
    by (simp only: mem_max_def max_channel_number_def sets(1))
  have nums: "\<forall>r \<in> set (db_patch_channels d). pc_event_id r = ev \<longrightarrow>
                 pc_channel_number r \<in> set (map p_channel_number (patchChannels snap))"
    unfolding sets(1) event_rows_def by auto
  have cover: "\<forall>c \<in> set canonicalIds. \<exists>p. fst (ensurePatchChannels snap canonicalIds cur d) c = Some p
              \<and> p_canonical_channel_id p = Some c"
    using ensure_cover[OF ev nums] by blast
  show ?thesis
  proof (cases "uncovered ev d canonicalIds = []")
    case True
    then have "missing_of snap canonicalIds = []" using mis by simp
    from ensure_nothing_missing[OF this, of cur d] True cover show ?thesis
      by (simp add: new_patch_rows_def)
  next
    case False
    then have "missing_of snap canonicalIds \<noteq> []" using mis by simp
    from ensure_missing[OF ev nums this, of cur] False cover show ?thesis
      by (simp add: mis mx)
  qed
qed

theorem ensurePatchChannels_appends_witness:
  "db_patch_channels (snd (snd (ensurePatchChannels
      \<lparr>events = [3], selectedEventId = Some 3,
       canonicalChannels = [\<lparr>ch_id = 11, ch_name = ''Kick In'', ch_default_order = 1, ch_category_id = None\<rparr>],
       patchChannels = [\<lparr>p_id = 4, p_channel_number = 1, p_canonical_channel_id = Some 11,
                         p_canonical_name = Some ''Kick In''\<rparr>],
       bands = [], usageMap = Map.empty, editingBandId = None, bandDirty = False,
       bandAutoStatus = Idle, newBandName = ''Opener'', newBandSelection = [13, 11, 12],
       loading = False, savingBand = False, error = None\<rparr>
      [13, 11, 12]
      \<lparr>events = [3], selectedEventId = Some 3,
       canonicalChannels = [\<lparr>ch_id = 11, ch_name = ''Kick In'', ch_default_order = 1, ch_category_id = None\<rparr>],
       patchChannels = [\<lparr>p_id = 4, p_channel_number = 1, p_canonical_channel_id = Some 11,
                         p_canonical_name = Some ''Kick In''\<rparr>],
       bands = [], usageMap = Map.empty, editingBandId = None, bandDirty = False,
       bandAutoStatus = Idle, newBandName = ''Opener'', newBandSelection = [13, 11, 12],
       loading = False, savingBand = False, error = None\<rparr>
      \<lparr>db_canonical_channels = [],
       db_patch_channels = [\<lparr>pc_id = 4, pc_event_id = 3, pc_channel_number = 1,
                              pc_canonical_channel_id = Some 11\<rparr>,
                            \<lparr>pc_id = 5, pc_event_id = 2, pc_channel_number = 7,
                              pc_canonical_channel_id = Some 13\<rparr>],
       db_bands = [], db_band_channel_usage = [], db_techlists = [], db_techlist_channels = [],
       db_next_id = 10, db_writes = 0\<rparr>)))
   = [\<lparr>pc_id = 4, pc_event_id = 3, pc_channel_number = 1, pc_canonical_channel_id = Some 11\<rparr>,
      \<lparr>pc_id = 5, pc_event_id = 2, pc_channel_number = 7, pc_canonical_channel_id = Some 13\<rparr>,
      \<lparr>pc_id = 10, pc_event_id = 3, pc_channel_number = 2, pc_canonical_channel_id = Some 13\<rparr>,
      \<lparr>pc_id = 11, pc_event_id = 3, pc_channel_number = 3, pc_canonical_channel_id = Some 12\<rparr>]"
proof -
  let ?ui = "\<lparr>events = [3], selectedEventId = Some 3,
       canonicalChannels = [\<lparr>ch_id = 11, ch_name = ''Kick In'', ch_default_order = 1, ch_category_id = None\<rparr>],
       patchChannels = [\<lparr>p_id = 4, p_channel_number = 1, p_canonical_channel_id = Some 11,
                         p_canonical_name = Some ''Kick In''\<rparr>],
       bands = [], usageMap = Map.empty, editingBandId = None, bandDirty = False,
       bandAutoStatus = Idle, newBandName = ''Opener'', newBandSelection = [13, 11, 12],
       loading = False, savingBand = False, error = None\<rparr>"
  let ?d = "\<lparr>db_canonical_channels = [],
       db_patch_channels = [\<lparr>pc_id = 4, pc_event_id = 3, pc_channel_number = 1,
                              pc_canonical_channel_id = Some 11\<rparr>,
                            \<lparr>pc_id = 5, pc_event_id = 2, pc_channel_number = 7,
                              pc_canonical_channel_id = Some 13\<rparr>],
       db_bands = [], db_band_channel_usage = [], db_techlists = [], db_techlist_channels = [],
       db_next_id = 10, db_writes = 0\<rparr>"
  have h1: "selectedEventId ?ui = Some 3" by simp
  have h2: "patches_loaded ?ui 3 ?d" by (simp add: patches_loaded_def selectPatchChannels_def)
  have u: "uncovered 3 ?d [13, 11, 12] = [13, 12]" by (simp add: uncovered_def event_rows_def)
  have m: "max_channel_number 3 ?d = 1" by (simp add: max_channel_number_def event_rows_def)
  have n: "new_patch_rows ?d 3 1 [13, 12]
      = [\<lparr>pc_id = 10, pc_event_id = 3, pc_channel_number = 2, pc_canonical_channel_id = Some 13\<rparr>,
         \<lparr>pc_id = 11, pc_event_id = 3, pc_channel_number = 3, pc_canonical_channel_id = Some 12\<rparr>]"
    by (simp add: new_patch_rows_def upt_rec)
  show ?thesis
    using ensurePatchChannels_appends[OF h1 h2, of "[13, 11, 12]" ?ui] by (simp add: u m n)
qed

section \<open>Proofs: saving a band\<close>

lemma ensure_cur_independent:
  "fst (ensurePatchChannels snap ids cur d) = fst (ensurePatchChannels snap ids cur' d)"
  "snd (snd (ensurePatchChannels snap ids cur d)) = snd (snd (ensurePatchChannels snap ids cur' d))"
  unfolding ensurePatchChannels_def Let_def
  by (auto split: option.splits prod.splits sum.splits)

lemma persistBand_new:
  assumes "editingBandId snap = None"
  shows "persistBand snap ev d =
           (Inr (db_next_id d,
                 Some \<lparr>bd_id = db_next_id d, bd_name = trim (newBandName snap),
                       bd_sort_order = int (length (bands snap)) + 1\<rparr>),
            d\<lparr>db_bands := db_bands d @ [\<lparr>b_id = db_next_id d, b_event_id = ev,
                                          b_name = trim (newBandName snap),
                                          b_sort_order = int (length (bands snap)) + 1\<rparr>],
              db_next_id := db_next_id d + 1,
              db_writes := db_writes d + 1\<rparr>)"
  using assms by (simp add: persistBand_def insertBand_def to_Band_def Let_def)

lemma persistBand_edit:
  assumes "editingBandId snap = Some b"
  shows "persistBand snap ev d =
           (Inr (b, None),
            d\<lparr>db_bands := map (\<lambda>x. if b_id x = b then x\<lparr>b_name := trim (newBandName snap)\<rparr> else x)
                              (db_bands d),
              db_writes := db_writes d + 1\<rparr>)"
  using assms by (simp add: persistBand_def updateBandName_def)

lemma handleAddBand_db:
  assumes sel: "selectedEvent ui = Some ev" and name: "trim (newBandName ui) \<noteq> []"
    and pb: "persistBand ui ev (snd (snd (ensurePatchChannels ui (newBandSelection ui) ui d)))
               = (Inr (t, nb), d3)"
    and ru: "replaceUsage ui (fst (ensurePatchChannels ui (newBandSelection ui) ui d)) t
               (newBandSelection ui) d3 = (Inr ins, d4)"
  shows "snd (handleAddBand isAuto ui d) = pruneUnusedPatchChannels ev d4"
proof -
  let ?u1 = "if isAuto then ui\<lparr>bandAutoStatus := Saving\<rparr> else ui\<lparr>savingBand := True, error := None\<rparr>"
  obtain ctp u2 d2 where e: "ensurePatchChannels ui (newBandSelection ui) ?u1 d = (ctp, u2, d2)"
    by (cases "ensurePatchChannels ui (newBandSelection ui) ?u1 d") auto
  have ctp: "ctp = fst (ensurePatchChannels ui (newBandSelection ui) ui d)"
    using ensure_cur_independent(1)[of ui "newBandSelection ui" ?u1 d ui] e by simp
  have d2: "d2 = snd (snd (ensurePatchChannels ui (newBandSelection ui) ui d))"
    using ensure_cur_independent(2)[of ui "newBandSelection ui" ?u1 d ui] e by simp
  have "handleAddBand isAuto ui d = finishBandSave isAuto ui ev t nb ins u2 d4"
    unfolding handleAddBand_def using sel name e pb ru
    by (simp add: Let_def ctp[symmetric] d2[symmetric])
  then show ?thesis
    by (simp add: finishBandSave_def Let_def split: option.splits)
qed

lemma prune_all_used:
  assumes "\<forall>r \<in> set (db_patch_channels d). pc_event_id r = ev \<longrightarrow> used_in d (pc_id r)"
  shows "pruneUnusedPatchChannels ev d = d"
proof -
  have "filter (\<lambda>p. \<not> used_in d (pc_id p)) (selectPatchChannels ev d) = []"
    using assms by (auto simp: filter_empty_conv selectPatchChannels_def)
  then have "unusedPatchIds (selectPatchChannels ev d) d = []"
    by (simp add: unusedPatchIds_eq)
  then show ?thesis by (simp add: pruneUnusedPatchChannels_def Let_def)
qed

subsection \<open>C2: a save while another event is selected\<close>


subsection \<open>C8: validation before any store call\<close>

text \<open>
  Claim C8, as amended. The tech-list save with a name that trims to nothing (a name
  made of white space only, the no-break space included), or with no selected channel,
  leaves the store as it is (not one mutating statement) and changes the page only by
  setting an error message. The band save with a name that trims to nothing leaves the
  store as it is and changes the page at most by the error message, which a manual save
  on a selected event sets to "Geef een groepsnaam in.". The band save does not check
  the selection.
\<close>

theorem validation_no_mutation:
  "((trim (tp_bandName tp) = [] \<or> selectedChannelsSorted tp = [])
      \<longrightarrow> snd (handleSaveTechlist tp d) = d
          \<and> tp_error (fst (handleSaveTechlist tp d)) \<noteq> None
          \<and> fst (handleSaveTechlist tp d) = tp\<lparr>tp_error := tp_error (fst (handleSaveTechlist tp d))\<rparr>)
   \<and> (trim (newBandName ui) = [] \<longrightarrow>
         snd (handleAddBand isAuto ui d) = d
         \<and> (\<not> isAuto \<and> selectedEvent ui \<noteq> None
               \<longrightarrow> error (fst (handleAddBand isAuto ui d)) = Some ''Geef een groepsnaam in.'')
         \<and> fst (handleAddBand isAuto ui d) = ui\<lparr>error := error (fst (handleAddBand isAuto ui d))\<rparr>)"
  by (auto simp: handleSaveTechlist_def handleAddBand_def split: option.splits)

theorem validation_no_mutation_witness:
  "snd (handleSaveTechlist
      \<lparr>tp_categories = [], tp_channels = [], tp_techlists = [], tp_selectedTechlistId = None,
       tp_saving = False, tp_error = None, tp_bandName = ''Opener'', tp_bandNotes = [],
       tp_selectedChannelIds = [], tp_channelDetails = Map.empty, tp_copyMessage = None\<rparr>
      \<lparr>db_canonical_channels = [], db_patch_channels = [], db_bands = [],
       db_band_channel_usage = [], db_techlists = [], db_techlist_channels = [],
       db_next_id = 10, db_writes = 0\<rparr>)
    = \<lparr>db_canonical_channels = [], db_patch_channels = [], db_bands = [],
       db_band_channel_usage = [], db_techlists = [], db_techlist_channels = [],
       db_next_id = 10, db_writes = 0\<rparr>
   \<and> snd (handleSaveTechlist
      \<lparr>tp_categories = [],
       tp_channels = [\<lparr>ch_id = 11, ch_name = ''Kick In'', ch_default_order = 1, ch_category_id = None\<rparr>],
       tp_techlists = [], tp_selectedTechlistId = None,
       tp_saving = False, tp_error = None, tp_bandName = [CHR 0xA0], tp_bandNotes = [],
       tp_selectedChannelIds = [11], tp_channelDetails = Map.empty, tp_copyMessage = None\<rparr>
      \<lparr>db_canonical_channels = [], db_patch_channels = [], db_bands = [],
       db_band_channel_usage = [], db_techlists = [], db_techlist_channels = [],
       db_next_id = 10, db_writes = 0\<rparr>)
    = \<lparr>db_canonical_channels = [], db_patch_channels = [], db_bands = [],
       db_band_channel_usage = [], db_techlists = [], db_techlist_channels = [],
       db_next_id = 10, db_writes = 0\<rparr>
   \<and> snd (handleAddBand False
      \<lparr>events = [1], selectedEventId = Some 1, canonicalChannels = [], patchChannels = [],
       bands = [], usageMap = Map.empty, editingBandId = None, bandDirty = False,
       bandAutoStatus = Idle, newBandName = [CHR 0x20, CHR 0xA0], newBandSelection = [11],
       loading = False, savingBand = False, error = None\<rparr>
      \<lparr>db_canonical_channels = [], db_patch_channels = [], db_bands = [],
       db_band_channel_usage = [], db_techlists = [], db_techlist_channels = [],
       db_next_id = 10, db_writes = 0\<rparr>)
    = \<lparr>db_canonical_channels = [], db_patch_channels = [], db_bands = [],
       db_band_channel_usage = [], db_techlists = [], db_techlist_channels = [],
       db_next_id = 10, db_writes = 0\<rparr>
   \<and> error (fst (handleAddBand False
      \<lparr>events = [1], selectedEventId = Some 1, canonicalChannels = [], patchChannels = [],
       bands = [], usageMap = Map.empty, editingBandId = None, bandDirty = False,
       bandAutoStatus = Idle, newBandName = [CHR 0x20, CHR 0xA0], newBandSelection = [11],
       loading = False, savingBand = False, error = None\<rparr>
      \<lparr>db_canonical_channels = [], db_patch_channels = [], db_bands = [],
       db_band_channel_usage = [], db_techlists = [], db_techlist_channels = [],
       db_next_id = 10, db_writes = 0\<rparr>)) = Some ''Geef een groepsnaam in.''"
proof -
  let ?tp = "\<lparr>tp_categories = [], tp_channels = [], tp_techlists = [], tp_selectedTechlistId = None,
       tp_saving = False, tp_error = None, tp_bandName = ''Opener'', tp_bandNotes = [],
       tp_selectedChannelIds = [], tp_channelDetails = Map.empty, tp_copyMessage = None\<rparr>"
  let ?tq = "\<lparr>tp_categories = [],
       tp_channels = [\<lparr>ch_id = 11, ch_name = ''Kick In'', ch_default_order = 1, ch_category_id = None\<rparr>],
       tp_techlists = [], tp_selectedTechlistId = None,
       tp_saving = False, tp_error = None, tp_bandName = [CHR 0xA0], tp_bandNotes = [],
       tp_selectedChannelIds = [11], tp_channelDetails = Map.empty, tp_copyMessage = None\<rparr>"
  let ?ui = "\<lparr>events = [1], selectedEventId = Some 1, canonicalChannels = [], patchChannels = [],
       bands = [], usageMap = Map.empty, editingBandId = None, bandDirty = False,
       bandAutoStatus = Idle, newBandName = [CHR 0x20, CHR 0xA0], newBandSelection = [11],
       loading = False, savingBand = False, error = None\<rparr>"
  have h1: "selectedChannelsSorted ?tp = []"
    by (simp add: selectedChannelsSorted_def)
  have h2: "trim (newBandName ?ui) = []" by (simp add: trim_def is_space_def)
  have h3: "selectedEvent ?ui \<noteq> None" by (simp add: selectedEvent_def)
  have h4: "trim (tp_bandName ?tq) = []" by (simp add: trim_def is_space_def)
  show ?thesis
    using validation_no_mutation[of ?tp _ ?ui False] validation_no_mutation[of ?tq _ ?ui False]
      h1 h2 h3 h4 by blast
qed

lemma handleAddBand_new_empty:
  assumes sel: "selectedEvent ui = Some ev" and name: "trim (newBandName ui) \<noteq> []"
    and new: "editingBandId ui = None" and empty: "newBandSelection ui = []"
    and none: "\<forall>r \<in> set (db_patch_channels d). pc_event_id r \<noteq> ev"
  shows "snd (handleAddBand isAuto ui d) =
           d\<lparr>db_bands := db_bands d @ [\<lparr>b_id = db_next_id d, b_event_id = ev,
                                          b_name = trim (newBandName ui),
                                          b_sort_order = int (length (bands ui)) + 1\<rparr>],
              db_next_id := db_next_id d + 1,
              db_writes := db_writes d + 1\<rparr>"
proof -
  let ?d3 = "d\<lparr>db_bands := db_bands d @ [\<lparr>b_id = db_next_id d, b_event_id = ev,
                                          b_name = trim (newBandName ui),
                                          b_sort_order = int (length (bands ui)) + 1\<rparr>],
              db_next_id := db_next_id d + 1,
              db_writes := db_writes d + 1\<rparr>"
  have m: "missing_of ui (newBandSelection ui) = []" by (simp add: missing_of_def empty)
  note e = ensure_nothing_missing[OF m, of ui d]
  have pb: "persistBand ui ev (snd (snd (ensurePatchChannels ui (newBandSelection ui) ui d)))
               = (Inr (db_next_id d, Some \<lparr>bd_id = db_next_id d, bd_name = trim (newBandName ui),
                       bd_sort_order = int (length (bands ui)) + 1\<rparr>), ?d3)"
    by (simp add: e persistBand_new[OF new])
  have ru: "replaceUsage ui (fst (ensurePatchChannels ui (newBandSelection ui) ui d)) (db_next_id d)
               (newBandSelection ui) ?d3 = (Inr [], ?d3)"
    by (simp add: replaceUsage_def new empty)
  have "snd (handleAddBand isAuto ui d) = pruneUnusedPatchChannels ev ?d3"
    by (rule handleAddBand_db[OF sel name pb ru])
  also have "\<dots> = ?d3" by (rule prune_all_used) (use none in simp)
  finally show ?thesis .
qed

text \<open>
  C8 as stated fails for the band save without channels: a new band "Opener" with an
  empty selection is inserted into the store.
\<close>

theorem validation_no_mutation_counterexample:
  "snd (handleAddBand False
      \<lparr>events = [1], selectedEventId = Some 1, canonicalChannels = [], patchChannels = [],
       bands = [], usageMap = Map.empty, editingBandId = None, bandDirty = False,
       bandAutoStatus = Idle, newBandName = ''Opener'', newBandSelection = [],
       loading = False, savingBand = False, error = None\<rparr>
      \<lparr>db_canonical_channels = [], db_patch_channels = [], db_bands = [],
       db_band_channel_usage = [], db_techlists = [], db_techlist_channels = [],
       db_next_id = 10, db_writes = 0\<rparr>)
    = \<lparr>db_canonical_channels = [], db_patch_channels = [],
       db_bands = [\<lparr>b_id = 10, b_event_id = 1, b_name = ''Opener'', b_sort_order = 1\<rparr>],
       db_band_channel_usage = [], db_techlists = [], db_techlist_channels = [],
       db_next_id = 11, db_writes = 1\<rparr>"
  by (subst handleAddBand_new_empty[where ev = 1])
     (simp_all add: selectedEvent_def trim_def is_space_def)

lemma insertPatchChannels_ids:
  "insertPatchChannels newRows d = (Inr data, d1)
     \<Longrightarrow> map pc_id data = map (\<lambda>i. db_next_id d + i) [0..<length data]"
  unfolding insertPatchChannels_def Let_def
  by (auto split: if_splits intro!: nth_equalityI simp: nth_enumerate_eq case_prod_beta)

lemma insertPatchChannels_other:
  "insertPatchChannels newRows d = (res, d1)
     \<Longrightarrow> db_band_channel_usage d1 = db_band_channel_usage d \<and> db_bands d1 = db_bands d
         \<and> db_next_id d \<le> db_next_id d1"
  unfolding insertPatchChannels_def Let_def
  by (auto split: if_splits)

lemma add_to_canonicalToPatch_Nil [simp]: "add_to_canonicalToPatch [] m = m"
  by (simp add: add_to_canonicalToPatch_def)

lemma ensure_shape:
  "\<exists>data. fst (ensurePatchChannels snap ids cur d)
             = add_to_canonicalToPatch (map (mem_of snap) data)
                 (add_to_canonicalToPatch (patchChannels snap) Map.empty)
         \<and> map pc_id data = map (\<lambda>i. db_next_id d + i) [0..<length data]"
proof -
  let ?m0 = "add_to_canonicalToPatch (patchChannels snap) Map.empty"
  have nil: "?m0 = add_to_canonicalToPatch (map (mem_of snap) []) ?m0
               \<and> map pc_id [] = map (\<lambda>i. db_next_id d + i) [0..<length ([]::patch_row list)]"
    by simp
  show ?thesis
  proof (cases "filter (\<lambda>c. ?m0 c = None) ids = []")
    case True
    then have "fst (ensurePatchChannels snap ids cur d) = ?m0"
      by (simp add: ensurePatchChannels_def)
    then show ?thesis using nil by metis
  next
    case mis: False
    show ?thesis
    proof (cases "selectedEventId snap")
      case None
      then have "fst (ensurePatchChannels snap ids cur d) = ?m0"
        using mis by (simp add: ensurePatchChannels_def Let_def)
      then show ?thesis using nil by metis
    next
      case (Some ev)
      let ?newRows = "map (\<lambda>(idx, c). (ev, fold (\<lambda>p acc. max acc (p_channel_number p)) (patchChannels snap) 0 + int idx + 1, Some c))
                          (enumerate 0 (filter (\<lambda>c. ?m0 c = None) ids))"
      obtain res d1 where ins: "insertPatchChannels ?newRows d = (res, d1)"
        by (cases "insertPatchChannels ?newRows d") auto
      show ?thesis
      proof (cases res)
        case (Inl e)
        then have "fst (ensurePatchChannels snap ids cur d) = ?m0"
          using mis Some ins by (simp add: ensurePatchChannels_def Let_def)
        then show ?thesis using nil by metis
      next
        case (Inr data)
        then have "fst (ensurePatchChannels snap ids cur d)
                     = add_to_canonicalToPatch (map (mem_of snap) data) ?m0"
          using mis Some ins by (simp add: ensurePatchChannels_def Let_def)
        moreover have "map pc_id data = map (\<lambda>i. db_next_id d + i) [0..<length data]"
          using insertPatchChannels_ids ins Inr by blast
        ultimately show ?thesis by blast
      qed
    qed
  qed
qed

lemma ensure_other_tables:
  "db_band_channel_usage (snd (snd (ensurePatchChannels snap ids cur d))) = db_band_channel_usage d
   \<and> db_bands (snd (snd (ensurePatchChannels snap ids cur d))) = db_bands d
   \<and> db_next_id d \<le> db_next_id (snd (snd (ensurePatchChannels snap ids cur d)))"
proof -
  let ?m0 = "add_to_canonicalToPatch (patchChannels snap) Map.empty"
  show ?thesis
  proof (cases "filter (\<lambda>c. ?m0 c = None) ids = []")
    case True
    then show ?thesis by (simp add: ensurePatchChannels_def)
  next
    case mis: False
    show ?thesis
    proof (cases "selectedEventId snap")
      case None
      then show ?thesis using mis by (simp add: ensurePatchChannels_def Let_def)
    next
      case (Some ev)
      let ?newRows = "map (\<lambda>(idx, c). (ev, fold (\<lambda>p acc. max acc (p_channel_number p)) (patchChannels snap) 0 + int idx + 1, Some c))
                          (enumerate 0 (filter (\<lambda>c. ?m0 c = None) ids))"
      obtain res d1 where ins: "insertPatchChannels ?newRows d = (res, d1)"
        by (cases "insertPatchChannels ?newRows d") auto
      have "snd (snd (ensurePatchChannels snap ids cur d)) = d1"
        using mis Some ins by (cases res) (simp_all add: ensurePatchChannels_def Let_def)
      then show ?thesis using insertPatchChannels_other[OF ins] by simp
    qed
  qed
qed


lemma ensure_ctp_values:
  assumes "fst (ensurePatchChannels snap ids cur d) c = Some p"
  shows "p_canonical_channel_id p = Some c"
proof -
  obtain data where sh: "fst (ensurePatchChannels snap ids cur d)
             = add_to_canonicalToPatch (map (mem_of snap) data)
                 (add_to_canonicalToPatch (patchChannels snap) Map.empty)"
    using ensure_shape by blast
  from assms[unfolded sh] add_to_canonicalToPatch_Some show ?thesis
    by (metis option.distinct(1))
qed

lemma ensure_ctp_inj:
  assumes dmem: "distinct (map p_id (patchChannels snap))"
    and fresh: "\<forall>p \<in> set (patchChannels snap). p_id p < db_next_id d"
    and c1: "fst (ensurePatchChannels snap ids cur d) c1 = Some p1"
    and c2: "fst (ensurePatchChannels snap ids cur d) c2 = Some p2"
    and ne: "c1 \<noteq> c2"
  shows "p_id p1 \<noteq> p_id p2"
proof -
  obtain data where sh: "fst (ensurePatchChannels snap ids cur d)
             = add_to_canonicalToPatch (map (mem_of snap) data)
                 (add_to_canonicalToPatch (patchChannels snap) Map.empty)"
    and idsd: "map pc_id data = map (\<lambda>i. db_next_id d + i) [0..<length data]"
    using ensure_shape by blast
  let ?all = "patchChannels snap @ map (mem_of snap) data"
  have mem: "p \<in> set ?all" if "fst (ensurePatchChannels snap ids cur d) c = Some p" for c p
    using that[unfolded sh] add_to_canonicalToPatch_Some
    by (metis Un_iff option.distinct(1) set_append)
  have "map p_id (map (mem_of snap) data) = map pc_id data" by (simp add: mem_of_def comp_def)
  then have ids_all: "map p_id ?all = map p_id (patchChannels snap) @ map (\<lambda>i. db_next_id d + i) [0..<length data]"
    using idsd by simp
  have "distinct (map (\<lambda>i. db_next_id d + i) [0..<length data])"
    by (simp add: distinct_map inj_on_def)
  moreover have "set (map p_id (patchChannels snap)) \<inter> set (map (\<lambda>i. db_next_id d + i) [0..<length data]) = {}"
    using fresh by fastforce
  ultimately have "distinct (map p_id ?all)" unfolding ids_all using dmem by simp
  then have inj: "inj_on p_id (set ?all)" by (simp only: distinct_map)
  have "p1 \<noteq> p2" using ensure_ctp_values[OF c1] ensure_ctp_values[OF c2] ne by auto
  then show ?thesis using inj mem[OF c1] mem[OF c2] by (auto dest!: inj_onD)
qed

lemma new_usage_rows_Nil [simp]: "new_usage_rows n [] = []"
  by (simp add: new_usage_rows_def)

lemma usageRows_of_pairs:
  "map (\<lambda>(bb, p, used, l). (bb, p)) (usageRows_of snap ctp b sel)
     = map (\<lambda>c. (b, p_id (the (ctp c)))) (filter (\<lambda>c. ctp c \<noteq> None) sel)"
  unfolding usageRows_of_def List.map_filter_def
  by (induction sel) (auto split: option.splits)

lemma usageRows_of_band:
  "\<forall>(bb, p, used, l) \<in> set (usageRows_of snap ctp b sel). bb = b"
  unfolding usageRows_of_def List.map_filter_def
  by (auto split: option.splits)














subsection \<open>C10: a builder re-save rewrites the labels\<close>




subsection \<open>C5: the first band of an event\<close>

lemma add_to_canonicalToPatch_absent:
  "Some c \<notin> set (map p_canonical_channel_id ps) \<Longrightarrow> add_to_canonicalToPatch ps m c = m c"
  unfolding add_to_canonicalToPatch_def
  by (induction ps arbitrary: m) (auto split: option.splits)

lemma add_to_canonicalToPatch_distinct:
  assumes "distinct (map p_canonical_channel_id ps)" "p \<in> set ps" "p_canonical_channel_id p = Some c"
  shows "add_to_canonicalToPatch ps m c = Some p"
  using assms
proof (induction ps arbitrary: m)
  case Nil
  then show ?case by simp
next
  case (Cons a ps)
  show ?case
  proof (cases "p = a")
    case True
    then have "Some c \<notin> set (map p_canonical_channel_id ps)" using Cons.prems by auto
    from add_to_canonicalToPatch_absent[OF this, of "m(c \<mapsto> a)"] True Cons.prems(3)
    show ?thesis by (simp add: add_to_canonicalToPatch_def)
  next
    case False
    then have p: "p \<in> set ps" using Cons.prems by simp
    have d: "distinct (map p_canonical_channel_id ps)" using Cons.prems by simp
    have "add_to_canonicalToPatch (a # ps) m c
            = add_to_canonicalToPatch ps (case p_canonical_channel_id a of None \<Rightarrow> m | Some x \<Rightarrow> m(x \<mapsto> a)) c"
      by (simp add: add_to_canonicalToPatch_def)
    then show ?thesis using Cons.IH[OF d p Cons.prems(3)] by simp
  qed
qed

lemma replaceUsage_new:
  assumes new: "editingBandId snap = None"
    and dsel: "distinct sel"
    and inj: "\<forall>c1 c2 p1 p2. ctp c1 = Some p1 \<longrightarrow> ctp c2 = Some p2 \<longrightarrow> c1 \<noteq> c2
                 \<longrightarrow> p_id p1 \<noteq> p_id p2"
    and fresh: "\<forall>u \<in> set (db_band_channel_usage d3). u_band_id u \<noteq> t"
  shows "\<exists>ins d4. replaceUsage snap ctp t sel d3 = (Inr ins, d4)
           \<and> db_band_channel_usage d4
               = db_band_channel_usage d3 @ new_usage_rows (db_next_id d3) (usageRows_of snap ctp t sel)
           \<and> db_patch_channels d4 = db_patch_channels d3 \<and> db_bands d4 = db_bands d3"
proof -
  let ?rows = "usageRows_of snap ctp t sel"
  show ?thesis
  proof (cases "sel \<noteq> [] \<and> ?rows \<noteq> []")
    case False
    then have "?rows = []" by (auto simp: usageRows_of_def List.map_filter_def)
    moreover have "replaceUsage snap ctp t sel d3 = (Inr [], d3)"
      using False by (auto simp: replaceUsage_def new Let_def)
    ultimately show ?thesis by simp
  next
    case True
    have no_clash: "\<not> (\<exists>(bb, p, used, l) \<in> set ?rows. \<exists>u \<in> set (db_band_channel_usage d3).
             u_band_id u = bb \<and> u_patch_channel_id u = p)"
      using usageRows_of_band[of snap ctp t sel] fresh by fastforce
    have "inj_on (\<lambda>c. (t, p_id (the (ctp c)))) (set (filter (\<lambda>c. ctp c \<noteq> None) sel))"
      by (rule inj_onI) (use inj in fastforce)
    then have dist: "distinct (map (\<lambda>(bb, p, used, l). (bb, p)) ?rows)"
      unfolding usageRows_of_pairs using dsel by (simp add: distinct_map)
    have ins: "insertUsage ?rows d3
             = (Inr (new_usage_rows (db_next_id d3) ?rows),
                d3\<lparr>db_band_channel_usage := db_band_channel_usage d3 @ new_usage_rows (db_next_id d3) ?rows,
                    db_next_id := db_next_id d3 + length ?rows,
                    db_writes := db_writes d3 + 1\<rparr>)"
      unfolding insertUsage_def new_usage_rows_def
      using no_clash dist by (simp only: if_False Let_def simp_thms)
    have "replaceUsage snap ctp t sel d3 = insertUsage ?rows d3"
      using True by (simp add: replaceUsage_def new Let_def)
    then show ?thesis unfolding ins by simp
  qed
qed

lemma mem_max_empty: "patchChannels snap = [] \<Longrightarrow> mem_max snap = 0"
  by (simp add: mem_max_def)

lemma missing_of_empty: "patchChannels snap = [] \<Longrightarrow> missing_of snap sel = sel"
  by (simp add: missing_of_def)

lemma ensure_first:
  assumes ev: "selectedEventId snap = Some ev"
    and nomem: "patchChannels snap = []"
    and nodb: "\<forall>r \<in> set (db_patch_channels d). pc_event_id r \<noteq> ev"
  shows "fst (ensurePatchChannels snap sel cur d)
           = add_to_canonicalToPatch (map (mem_of snap) (new_patch_rows d ev 0 sel)) Map.empty"
    and "db_patch_channels (snd (snd (ensurePatchChannels snap sel cur d)))
           = db_patch_channels d @ new_patch_rows d ev 0 sel"
    and "db_next_id (snd (snd (ensurePatchChannels snap sel cur d))) = db_next_id d + length sel"
    and "db_band_channel_usage (snd (snd (ensurePatchChannels snap sel cur d))) = db_band_channel_usage d"
    and "db_bands (snd (snd (ensurePatchChannels snap sel cur d))) = db_bands d"
proof -
  have nums: "\<forall>r \<in> set (db_patch_channels d). pc_event_id r = ev \<longrightarrow>
                 pc_channel_number r \<in> set (map p_channel_number (patchChannels snap))"
    using nodb by blast
  have all: "fst (ensurePatchChannels snap sel cur d)
           = add_to_canonicalToPatch (map (mem_of snap) (new_patch_rows d ev 0 sel)) Map.empty
    \<and> db_patch_channels (snd (snd (ensurePatchChannels snap sel cur d)))
           = db_patch_channels d @ new_patch_rows d ev 0 sel
    \<and> db_next_id (snd (snd (ensurePatchChannels snap sel cur d))) = db_next_id d + length sel
    \<and> db_band_channel_usage (snd (snd (ensurePatchChannels snap sel cur d))) = db_band_channel_usage d
    \<and> db_bands (snd (snd (ensurePatchChannels snap sel cur d))) = db_bands d"
  proof (cases "sel = []")
    case True
    then have "missing_of snap sel = []" by (simp add: missing_of_def)
    from ensure_nothing_missing[OF this, of cur d] True nomem show ?thesis
      by (simp add: new_patch_rows_def)
  next
    case False
    then have "missing_of snap sel \<noteq> []" by (simp add: missing_of_empty[OF nomem])
    from ensure_missing[OF ev nums this, of cur] show ?thesis
      by (simp add: missing_of_empty[OF nomem] mem_max_empty[OF nomem] nomem)
  qed
  then show "fst (ensurePatchChannels snap sel cur d)
           = add_to_canonicalToPatch (map (mem_of snap) (new_patch_rows d ev 0 sel)) Map.empty"
    and "db_patch_channels (snd (snd (ensurePatchChannels snap sel cur d)))
           = db_patch_channels d @ new_patch_rows d ev 0 sel"
    and "db_next_id (snd (snd (ensurePatchChannels snap sel cur d))) = db_next_id d + length sel"
    and "db_band_channel_usage (snd (snd (ensurePatchChannels snap sel cur d))) = db_band_channel_usage d"
    and "db_bands (snd (snd (ensurePatchChannels snap sel cur d))) = db_bands d"
    by blast+
qed

lemma new_usage_rows_proj:
  "map (\<lambda>u. (u_band_id u, u_patch_channel_id u, u_is_used u)) (new_usage_rows n rows)
     = map (\<lambda>(b, p, used, l). (b, p, used)) rows"
  by (auto intro!: nth_equalityI simp: new_usage_rows_def nth_enumerate_eq case_prod_beta)

lemma first_ctp:
  assumes dsel: "distinct sel" and i: "i < length sel"
  shows "add_to_canonicalToPatch (map (mem_of ui) (new_patch_rows d ev 0 sel)) Map.empty (sel ! i)
           = Some (mem_of ui (new_patch_rows d ev 0 sel ! i))"
proof (rule add_to_canonicalToPatch_distinct)
  have "map p_canonical_channel_id (map (mem_of ui) (new_patch_rows d ev 0 sel))
          = map (\<lambda>i. Some (sel ! i)) [0..<length sel]"
    by (simp add: new_patch_rows_def mem_of_def comp_def)
  also have "\<dots> = map Some sel" by (auto intro!: nth_equalityI)
  finally show "distinct (map p_canonical_channel_id (map (mem_of ui) (new_patch_rows d ev 0 sel)))"
    using dsel by (simp add: distinct_map)
  show "mem_of ui (new_patch_rows d ev 0 sel ! i) \<in> set (map (mem_of ui) (new_patch_rows d ev 0 sel))"
    using i by (simp add: new_patch_rows_def)
  show "p_canonical_channel_id (mem_of ui (new_patch_rows d ev 0 sel ! i)) = Some (sel ! i)"
    using i by (simp add: new_patch_rows_def mem_of_def)
qed

lemma usageRows_of_first:
  assumes dsel: "distinct sel"
  shows "map (\<lambda>(b, p, used, l). (b, p, used))
           (usageRows_of ui (add_to_canonicalToPatch (map (mem_of ui) (new_patch_rows d ev 0 sel)) Map.empty) t sel)
         = map (\<lambda>i. (t, db_next_id d + i, True)) [0..<length sel]"
proof -
  let ?ctp = "add_to_canonicalToPatch (map (mem_of ui) (new_patch_rows d ev 0 sel)) Map.empty"
  let ?f = "\<lambda>cid. case ?ctp cid of
          None \<Rightarrow> None
        | Some patch \<Rightarrow> Some (t, p_id patch, True, map_option ch_name (canonicalMap ui cid))"
  have some: "?f (sel ! i) = Some (t, db_next_id d + i, True, map_option ch_name (canonicalMap ui (sel ! i)))"
    if "i < length sel" for i
    using first_ctp[OF dsel that, of ui d ev] that by (simp add: mem_of_def new_patch_rows_def)
  have all: "\<forall>c \<in> set sel. ?f c \<noteq> None"
    using some by (metis in_set_conv_nth option.distinct(1))
  have "usageRows_of ui ?ctp t sel = map (the \<circ> ?f) sel"
    unfolding usageRows_of_def List.map_filter_def using all by (simp add: filter_id_conv)
  then have "map (\<lambda>(b, p, used, l). (b, p, used)) (usageRows_of ui ?ctp t sel)
          = map ((\<lambda>(b, p, used, l). (b, p, used)) \<circ> (the \<circ> ?f)) sel" by simp
  also have "\<dots> = map (\<lambda>i. (t, db_next_id d + i, True)) [0..<length sel]"
    by (rule nth_equalityI) (simp_all add: some)
  finally show ?thesis .
qed

lemma handleAddBand_first_band:
  assumes sel: "selectedEvent ui = Some ev" and name: "trim (newBandName ui) \<noteq> []"
    and new: "editingBandId ui = None"
    and dsel: "distinct (newBandSelection ui)"
    and nomem: "patchChannels ui = []"
    and nodb: "\<forall>r \<in> set (db_patch_channels d). pc_event_id r \<noteq> ev"
    and fresh: "\<forall>u \<in> set (db_band_channel_usage d). u_band_id u < db_next_id d"
  shows "event_rows ev (snd (handleAddBand isAuto ui d)) = new_patch_rows d ev 0 (newBandSelection ui)
       \<and> map (\<lambda>u. (u_patch_channel_id u, u_is_used u))
           (filter (\<lambda>u. u_band_id u = db_next_id d + length (newBandSelection ui))
              (db_band_channel_usage (snd (handleAddBand isAuto ui d))))
         = map (\<lambda>r. (pc_id r, True)) (event_rows ev (snd (handleAddBand isAuto ui d)))
       \<and> db_bands (snd (handleAddBand isAuto ui d))
         = db_bands d @ [\<lparr>b_id = db_next_id d + length (newBandSelection ui), b_event_id = ev,
                           b_name = trim (newBandName ui),
                           b_sort_order = int (length (bands ui)) + 1\<rparr>]"
proof -
  let ?sel = "newBandSelection ui"
  let ?k = "length ?sel"
  let ?t = "db_next_id d + ?k"
  let ?created = "new_patch_rows d ev 0 ?sel"
  let ?ctp = "add_to_canonicalToPatch (map (mem_of ui) ?created) Map.empty"
  let ?d2 = "snd (snd (ensurePatchChannels ui ?sel ui d))"
  have evid: "selectedEventId ui = Some ev"
    using sel by (auto simp: selectedEvent_def find_Some_iff split: option.splits if_splits)
  note e = ensure_first[OF evid nomem nodb, of ?sel ui]
  obtain nb d3 where pb: "persistBand ui ev ?d2 = (Inr (?t, nb), d3)"
    and d3_bands: "db_bands d3 = db_bands d @ [\<lparr>b_id = ?t, b_event_id = ev,
                           b_name = trim (newBandName ui),
                           b_sort_order = int (length (bands ui)) + 1\<rparr>]"
    and d3_patch: "db_patch_channels d3 = db_patch_channels d @ ?created"
    and d3_usage: "db_band_channel_usage d3 = db_band_channel_usage d"
    and d3_next: "db_next_id d3 = ?t + 1"
    using persistBand_new[OF new, of ev ?d2] e(2-5) by simp
  have ctp: "fst (ensurePatchChannels ui ?sel ui d) = ?ctp" by (rule e(1))
  have inj: "\<forall>c1 c2 p1 p2. ?ctp c1 = Some p1 \<longrightarrow> ?ctp c2 = Some p2 \<longrightarrow> c1 \<noteq> c2
                 \<longrightarrow> p_id p1 \<noteq> p_id p2"
    using ensure_ctp_inj[of ui d ?sel ui] nomem unfolding ctp by simp
  have fresh3: "\<forall>u \<in> set (db_band_channel_usage d3). u_band_id u \<noteq> ?t"
    using fresh d3_usage by fastforce
  from replaceUsage_new[OF new dsel inj fresh3]
  obtain ins d4 where ru: "replaceUsage ui ?ctp ?t ?sel d3 = (Inr ins, d4)"
    and d4_usage: "db_band_channel_usage d4
               = db_band_channel_usage d @ new_usage_rows (?t + 1) (usageRows_of ui ?ctp ?t ?sel)"
    and d4_patch: "db_patch_channels d4 = db_patch_channels d @ ?created"
    and d4_bands: "db_bands d4 = db_bands d3"
    unfolding d3_usage d3_patch d3_next by blast
  let ?new = "new_usage_rows (?t + 1) (usageRows_of ui ?ctp ?t ?sel)"
  have proj: "map (\<lambda>u. (u_band_id u, u_patch_channel_id u, u_is_used u)) ?new
                = map (\<lambda>i. (?t, db_next_id d + i, True)) [0..<?k]"
    unfolding new_usage_rows_proj by (rule usageRows_of_first[OF dsel])
  have rows: "event_rows ev d4 = ?created"
  proof -
    have "filter (\<lambda>r. pc_event_id r = ev) (db_patch_channels d) = []"
      using nodb by (simp add: filter_empty_conv)
    moreover have "filter (\<lambda>r. pc_event_id r = ev) ?created = ?created"
      by (simp add: new_patch_rows_def filter_id_conv)
    ultimately show ?thesis by (simp add: event_rows_def d4_patch)
  qed
  have used: "used_in d4 (pc_id r)" if "r \<in> set (db_patch_channels d4)" "pc_event_id r = ev" for r
  proof -
    from that have "r \<in> set ?created" using rows unfolding event_rows_def
      by (metis (mono_tags, lifting) mem_Collect_eq set_filter)
    then obtain i where i: "i < ?k" "pc_id r = db_next_id d + i"
      by (auto simp: new_patch_rows_def)
    then have "(?t, db_next_id d + i, True) \<in> set (map (\<lambda>u. (u_band_id u, u_patch_channel_id u, u_is_used u)) ?new)"
      unfolding proj by simp
    then obtain u where "u \<in> set ?new" "u_patch_channel_id u = db_next_id d + i" "u_is_used u"
      by auto
    then show ?thesis unfolding used_in_def d4_usage using i(2) by auto
  qed
  have "snd (handleAddBand isAuto ui d) = pruneUnusedPatchChannels ev d4"
    by (rule handleAddBand_db[OF sel name pb ru[folded ctp]])
  also have "\<dots> = d4" by (rule prune_all_used) (use used in blast)
  finally have res: "snd (handleAddBand isAuto ui d) = d4" .
  have old: "filter (\<lambda>u. u_band_id u = ?t) (db_band_channel_usage d) = []"
    using fresh by (auto simp: filter_empty_conv)
  have bandnew: "\<forall>u \<in> set ?new. u_band_id u = ?t"
  proof
    fix u assume "u \<in> set ?new"
    then have "(u_band_id u, u_patch_channel_id u, u_is_used u)
                 \<in> set (map (\<lambda>u. (u_band_id u, u_patch_channel_id u, u_is_used u)) ?new)"
      by simp
    then show "u_band_id u = ?t" unfolding proj by auto
  qed
  have fnew: "filter (\<lambda>u. u_band_id u = ?t) (db_band_channel_usage d4) = ?new"
    unfolding d4_usage using old bandnew by (simp add: filter_id_conv)
  have "map (\<lambda>u. (u_patch_channel_id u, u_is_used u)) ?new
          = map (\<lambda>x. (fst (snd x), snd (snd x))) (map (\<lambda>u. (u_band_id u, u_patch_channel_id u, u_is_used u)) ?new)"
    by (simp add: comp_def)
  also have "\<dots> = map (\<lambda>i. (db_next_id d + i, True)) [0..<?k]"
    unfolding proj by (simp add: comp_def)
  also have "\<dots> = map (\<lambda>r. (pc_id r, True)) ?created"
    by (simp add: new_patch_rows_def comp_def)
  finally have c2: "map (\<lambda>u. (u_patch_channel_id u, u_is_used u))
           (filter (\<lambda>u. u_band_id u = ?t) (db_band_channel_usage d4))
         = map (\<lambda>r. (pc_id r, True)) (event_rows ev d4)"
    unfolding fnew rows .
  show ?thesis unfolding res using rows c2 d4_bands d3_bands by simp
qed

text \<open>
  Claim C5, as amended. A new band with a non-empty name is saved with \<open>k\<close> selected
  channels on an event that has no patch channel, neither on the page nor in the store
  (and no usage row refers to a band that the store has yet to create). Then the event
  has exactly \<open>k\<close> patch channels afterwards, numbered \<open>1..k\<close> in the order in which the
  selection lists the channels, the \<open>i\<close>-th one referring to the \<open>i\<close>-th selected channel;
  the new band has exactly \<open>k\<close> usage rows, one per new patch channel and in the same
  order, each with \<^verbatim>\<open>is_used\<close> set; and the band itself is the one new row of the band table.
  The order is that of the selection (the order in which the boxes were ticked), not the
  order of the catalog.
\<close>

theorem first_band_creates_channels:
  assumes sel: "selectedEvent ui = Some ev" and name: "trim (newBandName ui) \<noteq> []"
    and new: "editingBandId ui = None"
    and dsel: "distinct (newBandSelection ui)"
    and nomem: "patchChannels ui = []"
    and nodb: "\<forall>r \<in> set (db_patch_channels d). pc_event_id r \<noteq> ev"
    and fresh: "\<forall>u \<in> set (db_band_channel_usage d). u_band_id u < db_next_id d"
  shows "event_rows ev (snd (handleAddBand isAuto ui d)) = new_patch_rows d ev 0 (newBandSelection ui)
       \<and> map (\<lambda>r. (pc_channel_number r, pc_canonical_channel_id r))
           (event_rows ev (snd (handleAddBand isAuto ui d)))
         = map (\<lambda>i. (int i + 1, Some (newBandSelection ui ! i))) [0..<length (newBandSelection ui)]
       \<and> map (\<lambda>u. (u_patch_channel_id u, u_is_used u))
           (filter (\<lambda>u. u_band_id u = db_next_id d + length (newBandSelection ui))
              (db_band_channel_usage (snd (handleAddBand isAuto ui d))))
         = map (\<lambda>r. (pc_id r, True)) (event_rows ev (snd (handleAddBand isAuto ui d)))
       \<and> db_bands (snd (handleAddBand isAuto ui d))
         = db_bands d @ [\<lparr>b_id = db_next_id d + length (newBandSelection ui), b_event_id = ev,
                           b_name = trim (newBandName ui),
                           b_sort_order = int (length (bands ui)) + 1\<rparr>]"
proof -
  note h = handleAddBand_first_band[OF assms, of isAuto]
  have "map (\<lambda>r. (pc_channel_number r, pc_canonical_channel_id r))
           (new_patch_rows d ev 0 (newBandSelection ui))
         = map (\<lambda>i. (int i + 1, Some (newBandSelection ui ! i))) [0..<length (newBandSelection ui)]"
    by (simp add: new_patch_rows_def)
  then show ?thesis using h by simp
qed

theorem first_band_creates_channels_witness:
  "event_rows 3 (snd (handleAddBand False
      \<lparr>events = [3], selectedEventId = Some 3,
       canonicalChannels = [\<lparr>ch_id = 11, ch_name = ''Kick In'', ch_default_order = 1, ch_category_id = None\<rparr>,
                            \<lparr>ch_id = 12, ch_name = ''Lead Vox'', ch_default_order = 2, ch_category_id = None\<rparr>],
       patchChannels = [], bands = [], usageMap = Map.empty, editingBandId = None, bandDirty = False,
       bandAutoStatus = Idle, newBandName = ''Opener'', newBandSelection = [11, 12],
       loading = False, savingBand = False, error = None\<rparr>
      \<lparr>db_canonical_channels = [\<lparr>ch_id = 11, ch_name = ''Kick In'', ch_default_order = 1, ch_category_id = None\<rparr>,
                            \<lparr>ch_id = 12, ch_name = ''Lead Vox'', ch_default_order = 2, ch_category_id = None\<rparr>],
       db_patch_channels = [\<lparr>pc_id = 5, pc_event_id = 2, pc_channel_number = 7,
                              pc_canonical_channel_id = Some 12\<rparr>],
       db_bands = [\<lparr>b_id = 6, b_event_id = 2, b_name = ''Other'', b_sort_order = 1\<rparr>],
       db_band_channel_usage = [\<lparr>u_id = 7, u_band_id = 6, u_patch_channel_id = 5, u_is_used = True,
                               u_label = None\<rparr>],
       db_techlists = [], db_techlist_channels = [],
       db_next_id = 20, db_writes = 0\<rparr>))
    = [\<lparr>pc_id = 20, pc_event_id = 3, pc_channel_number = 1, pc_canonical_channel_id = Some 11\<rparr>,
       \<lparr>pc_id = 21, pc_event_id = 3, pc_channel_number = 2, pc_canonical_channel_id = Some 12\<rparr>]"
proof -
  let ?ui = "\<lparr>events = [3], selectedEventId = Some 3,
       canonicalChannels = [\<lparr>ch_id = 11, ch_name = ''Kick In'', ch_default_order = 1, ch_category_id = None\<rparr>,
                            \<lparr>ch_id = 12, ch_name = ''Lead Vox'', ch_default_order = 2, ch_category_id = None\<rparr>],
       patchChannels = [], bands = [], usageMap = Map.empty, editingBandId = None, bandDirty = False,
       bandAutoStatus = Idle, newBandName = ''Opener'', newBandSelection = [11, 12],
       loading = False, savingBand = False, error = None\<rparr>"
  let ?d = "\<lparr>db_canonical_channels = [\<lparr>ch_id = 11, ch_name = ''Kick In'', ch_default_order = 1, ch_category_id = None\<rparr>,
                            \<lparr>ch_id = 12, ch_name = ''Lead Vox'', ch_default_order = 2, ch_category_id = None\<rparr>],
       db_patch_channels = [\<lparr>pc_id = 5, pc_event_id = 2, pc_channel_number = 7,
                              pc_canonical_channel_id = Some 12\<rparr>],
       db_bands = [\<lparr>b_id = 6, b_event_id = 2, b_name = ''Other'', b_sort_order = 1\<rparr>],
       db_band_channel_usage = [\<lparr>u_id = 7, u_band_id = 6, u_patch_channel_id = 5, u_is_used = True,
                               u_label = None\<rparr>],
       db_techlists = [], db_techlist_channels = [],
       db_next_id = 20, db_writes = 0\<rparr>"
  have h1: "selectedEvent ?ui = Some 3" by (simp add: selectedEvent_def)
  have h2: "trim (newBandName ?ui) \<noteq> []" by (simp add: trim_def is_space_def)
  have h3: "editingBandId ?ui = None" by simp
  have h4: "distinct (newBandSelection ?ui)" by simp
  have h5: "patchChannels ?ui = []" by simp
  have h6: "\<forall>r \<in> set (db_patch_channels ?d). pc_event_id r \<noteq> 3" by simp
  have h7: "\<forall>u \<in> set (db_band_channel_usage ?d). u_band_id u < db_next_id ?d" by simp
  have n: "new_patch_rows ?d 3 0 (newBandSelection ?ui)
    = [\<lparr>pc_id = 20, pc_event_id = 3, pc_channel_number = 1, pc_canonical_channel_id = Some 11\<rparr>,
       \<lparr>pc_id = 21, pc_event_id = 3, pc_channel_number = 2, pc_canonical_channel_id = Some 12\<rparr>]"
    by (simp add: new_patch_rows_def upt_rec)
  from first_band_creates_channels[OF h1 h2 h3 h4 h5 h6 h7, of False]
  have "event_rows 3 (snd (handleAddBand False ?ui ?d)) = new_patch_rows ?d 3 0 (newBandSelection ?ui)"
    by (rule conjunct1)
  then show ?thesis unfolding n .
qed

text \<open>
  C5 as stated ("in the catalog order of the selected channels") fails. The catalog
  orders Kick In before Lead Vox. The operator ticks Lead Vox first and Kick In second
  and saves the band "Opener" on an event without patch channels: patch channel 1 is
  Lead Vox and patch channel 2 is Kick In.
\<close>

theorem first_band_creates_channels_counterexample:
  "map ch_id (orderedCanonicalChannels []
      [\<lparr>ch_id = 11, ch_name = ''Kick In'', ch_default_order = 1, ch_category_id = None\<rparr>,
       \<lparr>ch_id = 12, ch_name = ''Lead Vox'', ch_default_order = 2, ch_category_id = None\<rparr>])
     = [11, 12]
   \<and> map pc_canonical_channel_id (event_rows 3 (snd (handleAddBand False
      (toggleNewSelection 11 (toggleNewSelection 12
      \<lparr>events = [3], selectedEventId = Some 3,
       canonicalChannels = [\<lparr>ch_id = 11, ch_name = ''Kick In'', ch_default_order = 1, ch_category_id = None\<rparr>,
                            \<lparr>ch_id = 12, ch_name = ''Lead Vox'', ch_default_order = 2, ch_category_id = None\<rparr>],
       patchChannels = [], bands = [], usageMap = Map.empty, editingBandId = None, bandDirty = False,
       bandAutoStatus = Idle, newBandName = ''Opener'', newBandSelection = [],
       loading = False, savingBand = False, error = None\<rparr>))
      \<lparr>db_canonical_channels = [\<lparr>ch_id = 11, ch_name = ''Kick In'', ch_default_order = 1, ch_category_id = None\<rparr>,
                            \<lparr>ch_id = 12, ch_name = ''Lead Vox'', ch_default_order = 2, ch_category_id = None\<rparr>],
       db_patch_channels = [], db_bands = [], db_band_channel_usage = [],
       db_techlists = [], db_techlist_channels = [],
       db_next_id = 20, db_writes = 0\<rparr>)))
     = [Some 12, Some 11]
   \<and> map pc_channel_number (event_rows 3 (snd (handleAddBand False
      (toggleNewSelection 11 (toggleNewSelection 12
      \<lparr>events = [3], selectedEventId = Some 3,
       canonicalChannels = [\<lparr>ch_id = 11, ch_name = ''Kick In'', ch_default_order = 1, ch_category_id = None\<rparr>,
                            \<lparr>ch_id = 12, ch_name = ''Lead Vox'', ch_default_order = 2, ch_category_id = None\<rparr>],
       patchChannels = [], bands = [], usageMap = Map.empty, editingBandId = None, bandDirty = False,
       bandAutoStatus = Idle, newBandName = ''Opener'', newBandSelection = [],
       loading = False, savingBand = False, error = None\<rparr>))
      \<lparr>db_canonical_channels = [\<lparr>ch_id = 11, ch_name = ''Kick In'', ch_default_order = 1, ch_category_id = None\<rparr>,
                            \<lparr>ch_id = 12, ch_name = ''Lead Vox'', ch_default_order = 2, ch_category_id = None\<rparr>],
       db_patch_channels = [], db_bands = [], db_band_channel_usage = [],
       db_techlists = [], db_techlist_channels = [],
       db_next_id = 20, db_writes = 0\<rparr>)))
     = [1, 2]"
proof -
  let ?u0 = "\<lparr>events = [3], selectedEventId = Some 3,
       canonicalChannels = [\<lparr>ch_id = 11, ch_name = ''Kick In'', ch_default_order = 1, ch_category_id = None\<rparr>,
                            \<lparr>ch_id = 12, ch_name = ''Lead Vox'', ch_default_order = 2, ch_category_id = None\<rparr>],
       patchChannels = [], bands = [], usageMap = Map.empty, editingBandId = None, bandDirty = False,
       bandAutoStatus = Idle, newBandName = ''Opener'', newBandSelection = [],
       loading = False, savingBand = False, error = None\<rparr>"
  let ?ui = "toggleNewSelection 11 (toggleNewSelection 12 ?u0)"
  let ?d = "\<lparr>db_canonical_channels = [\<lparr>ch_id = 11, ch_name = ''Kick In'', ch_default_order = 1, ch_category_id = None\<rparr>,
                            \<lparr>ch_id = 12, ch_name = ''Lead Vox'', ch_default_order = 2, ch_category_id = None\<rparr>],
       db_patch_channels = [], db_bands = [], db_band_channel_usage = [],
       db_techlists = [], db_techlist_channels = [],
       db_next_id = 20, db_writes = 0\<rparr>"
  have t: "?ui = ?u0\<lparr>newBandSelection := [12, 11]\<rparr>"
    by (simp add: toggleNewSelection_def)
  have h1: "selectedEvent ?ui = Some 3" unfolding t by (simp add: selectedEvent_def)
  have h2: "trim (newBandName ?ui) \<noteq> []" unfolding t by (simp add: trim_def is_space_def)
  have h3: "editingBandId ?ui = None" unfolding t by simp
  have h4: "distinct (newBandSelection ?ui)" unfolding t by simp
  have h5: "patchChannels ?ui = []" unfolding t by simp
  have h6: "\<forall>r \<in> set (db_patch_channels ?d). pc_event_id r \<noteq> 3" by simp
  have h7: "\<forall>u \<in> set (db_band_channel_usage ?d). u_band_id u < db_next_id ?d" by simp
  have n: "new_patch_rows ?d 3 0 (newBandSelection ?ui)
    = [\<lparr>pc_id = 20, pc_event_id = 3, pc_channel_number = 1, pc_canonical_channel_id = Some 12\<rparr>,
       \<lparr>pc_id = 21, pc_event_id = 3, pc_channel_number = 2, pc_canonical_channel_id = Some 11\<rparr>]"
    unfolding t by (simp add: new_patch_rows_def upt_rec)
  from handleAddBand_first_band[OF h1 h2 h3 h4 h5 h6 h7, of False]
  have r: "event_rows 3 (snd (handleAddBand False ?ui ?d)) = new_patch_rows ?d 3 0 (newBandSelection ?ui)"
    by (rule conjunct1)
  have o: "map ch_id (orderedCanonicalChannels []
      [\<lparr>ch_id = 11, ch_name = ''Kick In'', ch_default_order = 1, ch_category_id = None\<rparr>,
       \<lparr>ch_id = 12, ch_name = ''Lead Vox'', ch_default_order = 2, ch_category_id = None\<rparr>])
     = [11, 12]"
    by (simp add: orderedCanonicalChannels_def sort_cmp_def canonicalOrder_def category_weight_def)
  show ?thesis unfolding r n using o by simp
qed

section \<open>Proofs: the baseline selection\<close>

lemma fold_set_add_set:
  "set (fold (\<lambda>row sel. if P row then (case g row of None \<Rightarrow> sel | Some c \<Rightarrow> set_add c sel) else sel)
          rows acc)
     = set acc \<union> {c. \<exists>row \<in> set rows. P row \<and> g row = Some c}"
  by (induction rows arbitrary: acc) (auto simp: set_add_def split: option.splits)

lemma fold_set_add_distinct:
  "distinct acc \<Longrightarrow>
   distinct (fold (\<lambda>row sel. if P row then (case g row of None \<Rightarrow> sel | Some c \<Rightarrow> set_add c sel) else sel)
          rows acc)"
  by (induction rows arbitrary: acc) (auto simp: set_add_def split: option.splits)

lemma patchToCanonical_Some:
  "fold (\<lambda>p m. case p_canonical_channel_id p of None \<Rightarrow> m | Some c \<Rightarrow> m(p_id p \<mapsto> c)) ps m0 pid
     = Some c
   \<Longrightarrow> (\<exists>p \<in> set ps. p_id p = pid \<and> p_canonical_channel_id p = Some c) \<or> m0 pid = Some c"
proof (induction ps arbitrary: m0)
  case Nil
  then show ?case by simp
next
  case (Cons a ps)
  show ?case
  proof (cases "p_canonical_channel_id a")
    case None
    with Cons.prems have "fold (\<lambda>p m. case p_canonical_channel_id p of None \<Rightarrow> m
                | Some c \<Rightarrow> m(p_id p \<mapsto> c)) ps m0 pid = Some c" by simp
    from Cons.IH[OF this] show ?thesis by auto
  next
    case (Some x)
    with Cons.prems have "fold (\<lambda>p m. case p_canonical_channel_id p of None \<Rightarrow> m
                | Some c \<Rightarrow> m(p_id p \<mapsto> c)) ps (m0(p_id a \<mapsto> x)) pid = Some c" by simp
    from Cons.IH[OF this]
    have "(\<exists>p \<in> set ps. p_id p = pid \<and> p_canonical_channel_id p = Some c)
            \<or> (m0(p_id a \<mapsto> x)) pid = Some c" .
    then show ?thesis using Some by (auto split: if_splits)
  qed
qed

lemma patchToCanonical_absent:
  "pid \<notin> set (map p_id ps) \<Longrightarrow>
   fold (\<lambda>p m. case p_canonical_channel_id p of None \<Rightarrow> m | Some c \<Rightarrow> m(p_id p \<mapsto> c)) ps m0 pid
     = m0 pid"
  by (induction ps arbitrary: m0) (auto split: option.splits)

lemma patchToCanonical_present:
  assumes "distinct (map p_id ps)" "p \<in> set ps" "p_canonical_channel_id p = Some c"
  shows "fold (\<lambda>p m. case p_canonical_channel_id p of None \<Rightarrow> m | Some c \<Rightarrow> m(p_id p \<mapsto> c)) ps m0 (p_id p)
           = Some c"
  using assms
proof (induction ps arbitrary: m0)
  case Nil
  then show ?case by simp
next
  case (Cons a ps)
  show ?case
  proof (cases "p = a")
    case True
    then have "p_id a \<notin> set (map p_id ps)" using Cons.prems by auto
    from patchToCanonical_absent[OF this, of "m0(p_id a \<mapsto> c)"] True Cons.prems(3)
    show ?thesis by simp
  next
    case False
    then have p: "p \<in> set ps" using Cons.prems by simp
    have d: "distinct (map p_id ps)" using Cons.prems by simp
    show ?thesis using Cons.IH[OF d p Cons.prems(3)] by simp
  qed
qed

lemma patchToCanonical_iff:
  assumes "distinct (map p_id ps)"
  shows "fold (\<lambda>p m. case p_canonical_channel_id p of None \<Rightarrow> m | Some c \<Rightarrow> m(p_id p \<mapsto> c)) ps Map.empty pid
           = Some c
         \<longleftrightarrow> (\<exists>p \<in> set ps. p_id p = pid \<and> p_canonical_channel_id p = Some c)"
  using patchToCanonical_Some[of ps Map.empty pid c] patchToCanonical_present[OF assms]
  by auto

lemma sorted_last_max:
  assumes "sorted (map f xs)" "x \<in> set xs"
  shows "f x \<le> f (last xs)"
  using assms by (induction xs) (auto split: if_splits)


lemma lastBand_rows:
  assumes srt: "sorted (map b_sort_order rows)" and ne: "rows \<noteq> []"
  shows "last (sort_cmp (\<lambda>a b. bd_sort_order a - bd_sort_order b) (map to_Band rows))
           = to_Band (last rows)"
proof -
  have "sort_cmp (\<lambda>a b. bd_sort_order a - bd_sort_order b) (map to_Band rows)
          = sort_key bd_sort_order (map to_Band rows)"
    by (rule sort_cmp_key) auto
  also have "\<dots> = map to_Band rows"
  proof (rule sort_key_id_if_sorted)
    have "map bd_sort_order (map to_Band rows) = map b_sort_order rows"
      by (simp add: to_Band_def comp_def)
    then show "sorted (map bd_sort_order (map to_Band rows))" using srt by (simp only:)
  qed
  finally show ?thesis using ne by (simp add: last_map)
qed

lemma loadEventData_with_selection:
  "newBandSelection (loadEventData_with rows ev ui d)
     = (if rows \<noteq> [] then
          baselineSelection (map to_Band rows) (map (to_PatchChannel d) (selectPatchChannels ev d))
            (filter (\<lambda>u. u_band_id u \<in> set (map bd_id (map to_Band rows))) (db_band_channel_usage d))
        else [])"
  by (simp add: loadEventData_with_def Let_def)

lemma bands_answer_set: "bands_answer ev d rows \<Longrightarrow> set rows = set (event_bands ev d)"
  unfolding bands_answer_def by (metis mset_eq_setD)

lemma bands_answer_selectBands: "bands_answer ev d (selectBands ev d)"
  by (simp add: bands_answer_def selectBands_def event_bands_def)

lemma restrict_to_bands:
  "b \<in> B \<Longrightarrow>
   {c. \<exists>u \<in> set (filter (\<lambda>u. f u \<in> B) us). (f u = b \<and> Q u) \<and> R u c}
     = {c. \<exists>u \<in> set us. f u = b \<and> Q u \<and> R u c}"
  by auto

lemma set_band_selection:
  "set (band_selection ev b d)
     = {c. \<exists>u \<in> set (db_band_channel_usage d). u_band_id u = b \<and> u_is_used u
              \<and> (\<exists>r \<in> set (event_rows ev d). pc_id r = u_patch_channel_id u
                     \<and> pc_canonical_channel_id r = Some c)}"
proof -
  let ?rs = "concat (map (\<lambda>u. filter (\<lambda>r. pc_id r = u_patch_channel_id u) (event_rows ev d))
                    (filter (\<lambda>u. u_band_id u = b \<and> u_is_used u) (db_band_channel_usage d)))"
  have mem: "r \<in> set ?rs \<longleftrightarrow> r \<in> set (event_rows ev d)
        \<and> (\<exists>u \<in> set (db_band_channel_usage d). u_band_id u = b \<and> u_is_used u
               \<and> pc_id r = u_patch_channel_id u)" for r
    by auto
  have bs: "set (band_selection ev b d) = {c. \<exists>r \<in> set ?rs. pc_canonical_channel_id r = Some c}"
    unfolding band_selection_def List.map_filter_def by force
  show ?thesis unfolding bs using mem by blast
qed

lemma baseline_set:
  assumes pk: "distinct (map pc_id (db_patch_channels d))"
    and ans: "bands_answer ev d rows" and ne: "rows \<noteq> []"
  shows "distinct (newBandSelection (loadEventData_with rows ev ui d))"
    and "set (newBandSelection (loadEventData_with rows ev ui d))
           = set (band_selection ev (b_id (last rows)) d)"
proof -
  let ?bandData = "map to_Band rows"
  let ?patchData = "map (to_PatchChannel d) (selectPatchChannels ev d)"
  let ?usageData = "filter (\<lambda>u. u_band_id u \<in> set (map bd_id ?bandData)) (db_band_channel_usage d)"
  let ?lb = "b_id (last rows)"
  let ?p2c = "fold (\<lambda>p m. case p_canonical_channel_id p of None \<Rightarrow> m | Some c \<Rightarrow> m(p_id p \<mapsto> c))
                ?patchData Map.empty"
  have srt: "sorted (map b_sort_order rows)" using ans by (simp add: bands_answer_def)
  have lb: "bd_id (last (sort_cmp (\<lambda>a b. bd_sort_order a - bd_sort_order b) ?bandData)) = ?lb"
    unfolding lastBand_rows[OF srt ne] by (simp add: to_Band_def)
  have sel: "newBandSelection (loadEventData_with rows ev ui d)
      = fold (\<lambda>row sel. if u_band_id row = ?lb \<and> u_is_used row
                 then (case ?p2c (u_patch_channel_id row) of None \<Rightarrow> sel | Some c \<Rightarrow> set_add c sel)
                 else sel) ?usageData []"
    unfolding loadEventData_with_selection using ne by (simp add: baselineSelection_def Let_def lb)
  show "distinct (newBandSelection (loadEventData_with rows ev ui d))"
    unfolding sel by (rule fold_set_add_distinct) simp
  have ids: "map p_id ?patchData = map pc_id (selectPatchChannels ev d)"
    by (simp add: to_PatchChannel_def comp_def)
  have "distinct (map pc_id (filter (\<lambda>r. pc_event_id r = ev) (db_patch_channels d)))"
    using pk by (rule distinct_map_filter)
  then have "distinct (map pc_id (selectPatchChannels ev d))"
    unfolding selectPatchChannels_def
    by (metis distinct_map distinct_sort set_sort)
  then have dp: "distinct (map p_id ?patchData)" unfolding ids .
  have p2c: "?p2c pid = Some c \<longleftrightarrow>
        (\<exists>r \<in> set (event_rows ev d). pc_id r = pid \<and> pc_canonical_channel_id r = Some c)" for pid c
    unfolding patchToCanonical_iff[OF dp]
    by (auto simp: to_PatchChannel_def set_selectPatchChannels event_rows_def)
  have "last rows \<in> set rows" using ne by (rule last_in_set)
  then have lbin: "?lb \<in> set (map bd_id ?bandData)" by (auto simp: to_Band_def)
  have "set (newBandSelection (loadEventData_with rows ev ui d))
      = {c. \<exists>u \<in> set ?usageData. (u_band_id u = ?lb \<and> u_is_used u) \<and> ?p2c (u_patch_channel_id u) = Some c}"
    unfolding sel fold_set_add_set by simp
  also have "\<dots> = {c. \<exists>u \<in> set (db_band_channel_usage d). u_band_id u = ?lb \<and> u_is_used u
                      \<and> ?p2c (u_patch_channel_id u) = Some c}"
    by (rule restrict_to_bands[OF lbin])
  also have "\<dots> = {c. \<exists>u \<in> set (db_band_channel_usage d). u_band_id u = ?lb \<and> u_is_used u
                      \<and> (\<exists>r \<in> set (event_rows ev d). pc_id r = u_patch_channel_id u
                             \<and> pc_canonical_channel_id r = Some c)}"
    unfolding p2c ..
  also have "\<dots> = set (band_selection ev ?lb d)"
    by (rule set_band_selection[symmetric])
  finally show "set (newBandSelection (loadEventData_with rows ev ui d))
                  = set (band_selection ev ?lb d)" .
qed

lemma replaceUsage_bands:
  "db_bands (snd (replaceUsage snap ctp t sel d3)) = db_bands d3"
  by (auto simp: replaceUsage_def deleteUsageOfBand_def insertUsage_def Let_def
           split: option.splits)

lemma handleAddBand_bands:
  assumes sel: "selectedEvent ui = Some ev" and name: "trim (newBandName ui) \<noteq> []"
  shows "db_bands (snd (handleAddBand isAuto ui d))
           = db_bands (snd (persistBand ui ev
                (snd (snd (ensurePatchChannels ui (newBandSelection ui) ui d)))))"
proof -
  let ?u1 = "if isAuto then ui\<lparr>bandAutoStatus := Saving\<rparr> else ui\<lparr>savingBand := True, error := None\<rparr>"
  let ?d2 = "snd (snd (ensurePatchChannels ui (newBandSelection ui) ui d))"
  obtain ctp u2 d2 where e: "ensurePatchChannels ui (newBandSelection ui) ?u1 d = (ctp, u2, d2)"
    by (cases "ensurePatchChannels ui (newBandSelection ui) ?u1 d") auto
  have d2: "d2 = ?d2"
    using ensure_cur_independent(2)[of ui "newBandSelection ui" ?u1 d ui] e by simp
  obtain t nb d3 where pb: "persistBand ui ev d2 = (Inr (t, nb), d3)"
    by (cases "editingBandId ui") (auto simp: persistBand_new persistBand_edit)
  obtain res d4 where ru: "replaceUsage ui ctp t (newBandSelection ui) d3 = (res, d4)"
    by (cases "replaceUsage ui ctp t (newBandSelection ui) d3") auto
  have b4: "db_bands d4 = db_bands d3"
    using replaceUsage_bands[of ui ctp t "newBandSelection ui" d3] ru by simp
  have "snd (handleAddBand isAuto ui d) = d4
      \<or> snd (handleAddBand isAuto ui d) = pruneUnusedPatchChannels ev d4"
  proof (cases res)
    case (Inl err)
    then have "snd (handleAddBand isAuto ui d) = d4"
      unfolding handleAddBand_def using sel name e pb ru by (simp add: Let_def)
    then show ?thesis by simp
  next
    case (Inr ins)
    then have "handleAddBand isAuto ui d = finishBandSave isAuto ui ev t nb ins u2 d4"
      unfolding handleAddBand_def using sel name e pb ru by (simp add: Let_def)
    then have "snd (handleAddBand isAuto ui d) = pruneUnusedPatchChannels ev d4"
      by (simp add: finishBandSave_def Let_def split: option.splits)
    then show ?thesis by simp
  qed
  then have "db_bands (snd (handleAddBand isAuto ui d)) = db_bands d3"
    using b4 prune_bands by auto
  then show ?thesis using pb d2 by simp
qed

lemma handleAddBand_bands_new:
  assumes sel: "selectedEvent ui = Some ev" and name: "trim (newBandName ui) \<noteq> []"
    and new: "editingBandId ui = None"
  shows "\<exists>n \<ge> db_next_id d. db_bands (snd (handleAddBand isAuto ui d))
           = db_bands d @ [\<lparr>b_id = n, b_event_id = ev, b_name = trim (newBandName ui),
                             b_sort_order = int (length (bands ui)) + 1\<rparr>]"
proof -
  let ?d2 = "snd (snd (ensurePatchChannels ui (newBandSelection ui) ui d))"
  note ot = ensure_other_tables[of ui "newBandSelection ui" ui d]
  have "db_bands (snd (handleAddBand isAuto ui d))
      = db_bands d @ [\<lparr>b_id = db_next_id ?d2, b_event_id = ev, b_name = trim (newBandName ui),
                             b_sort_order = int (length (bands ui)) + 1\<rparr>]"
    unfolding handleAddBand_bands[OF sel name] persistBand_new[OF new] using ot by simp
  then show ?thesis using ot by blast
qed

lemma handleAddBand_bands_edit:
  assumes edit: "editingBandId ui = Some b"
  shows "map (\<lambda>x. (b_id x, b_event_id x, b_sort_order x)) (db_bands (snd (handleAddBand isAuto ui d)))
           = map (\<lambda>x. (b_id x, b_event_id x, b_sort_order x)) (db_bands d)"
proof (cases "selectedEvent ui")
  case None
  then show ?thesis by (simp add: handleAddBand_def)
next
  case (Some ev)
  show ?thesis
  proof (cases "trim (newBandName ui) = []")
    case True
    then show ?thesis using Some by (simp add: handleAddBand_def)
  next
    case False
    note ot = ensure_other_tables[of ui "newBandSelection ui" ui d]
    have "db_bands (snd (handleAddBand isAuto ui d))
        = map (\<lambda>x. if b_id x = b then x\<lparr>b_name := trim (newBandName ui)\<rparr> else x) (db_bands d)"
      unfolding handleAddBand_bands[OF Some False] persistBand_edit[OF edit] using ot by simp
    then show ?thesis by (simp add: comp_def if_distrib cong: if_cong)
  qed
qed

lemma new_band_is_last:
  assumes ans: "bands_answer ev d' rows"
    and tbl: "db_bands d' = db_bands d @ [nb]" and nbev: "b_event_id nb = ev"
    and low: "\<forall>b \<in> set (event_bands ev d). b_sort_order b < b_sort_order nb"
  shows "last rows = nb"
proof -
  have evb: "event_bands ev d' = event_bands ev d @ [nb]"
    using tbl nbev by (simp add: event_bands_def)
  have st: "set rows = set (event_bands ev d) \<union> {nb}"
    using bands_answer_set[OF ans] evb by simp
  then have ne: "rows \<noteq> []" by auto
  have srt: "sorted (map b_sort_order rows)" using ans by (simp add: bands_answer_def)
  have "nb \<in> set rows" using st by simp
  then have ge: "b_sort_order nb \<le> b_sort_order (last rows)" by (rule sorted_last_max[OF srt])
  have "last rows \<in> set rows" using ne by (rule last_in_set)
  then have "last rows \<in> set (event_bands ev d) \<or> last rows = nb" using st by auto
  then show ?thesis using low ge by force
qed

subsection \<open>C9: the baseline is the selection of the band listed last\<close>

text \<open>
  Claim C9, as amended. The pre-checked selection is set by loading the data of an
  event, and it follows the band that the store lists last, which is the band created
  last and not the band edited last:

  \<^item> The answer that \<open>selectBands\<close> gives is one the store may give. For every answer the
    store may give to the bands query, in a store with unique patch-channel ids: when
    the event has no band, loading empties the selection; otherwise loading sets it to
    the channels, each once, that the band listed last has selected, and this band is a
    band of the event whose \<^verbatim>\<open>sort_order\<close> no band of the event exceeds.

  \<^item> A save of a new band that passes the validation adds one band to the table, for
    the selected event and with \<^verbatim>\<open>sort_order\<close> "number of loaded bands plus one", and
    changes no other band. When no band of the event had a \<^verbatim>\<open>sort_order\<close> above the
    number of loaded bands, every answer of the store after the save lists the new band
    last.

  \<^item> A save while a band is in the form (an edit) changes no id, event or
    \<^verbatim>\<open>sort_order\<close> in the band table.

  \<^item> Choosing "new band" in the form (\<^verbatim>\<open>loadBandIntoForm(null)\<close>) empties the selection.
\<close>

theorem baseline_is_last_band:
  assumes pk: "distinct (map pc_id (db_patch_channels d))"
  shows "bands_answer ev d (selectBands ev d)
       \<and> (bands_answer ev d rows \<longrightarrow>
            (rows = [] \<longrightarrow> newBandSelection (loadEventData_with rows ev ui d) = [])
          \<and> (rows \<noteq> [] \<longrightarrow>
                last rows \<in> set (event_bands ev d)
              \<and> (\<forall>b \<in> set (event_bands ev d). b_sort_order b \<le> b_sort_order (last rows))
              \<and> distinct (newBandSelection (loadEventData_with rows ev ui d))
              \<and> set (newBandSelection (loadEventData_with rows ev ui d))
                  = set (band_selection ev (b_id (last rows)) d)))
       \<and> (selectedEvent su = Some ev \<and> trim (newBandName su) \<noteq> [] \<and> editingBandId su = None \<longrightarrow>
            (\<exists>nb. db_bands (snd (handleAddBand isAuto su d)) = db_bands d @ [nb]
               \<and> b_event_id nb = ev \<and> b_sort_order nb = int (length (bands su)) + 1
               \<and> ((\<forall>b \<in> set (event_bands ev d). b_sort_order b \<le> int (length (bands su)))
                    \<and> bands_answer ev (snd (handleAddBand isAuto su d)) after
                    \<longrightarrow> last after = nb)))
       \<and> (editingBandId su \<noteq> None \<longrightarrow>
            map (\<lambda>x. (b_id x, b_event_id x, b_sort_order x)) (db_bands (snd (handleAddBand isAuto su d)))
              = map (\<lambda>x. (b_id x, b_event_id x, b_sort_order x)) (db_bands d))
       \<and> newBandSelection (loadBandIntoForm snap None cur) = []"
proof (intro conjI impI)
  show "bands_answer ev d (selectBands ev d)" by (rule bands_answer_selectBands)
next
  assume "bands_answer ev d rows" "rows = []"
  then show "newBandSelection (loadEventData_with rows ev ui d) = []"
    by (simp add: loadEventData_with_selection)
next
  assume ans: "bands_answer ev d rows" and ne: "rows \<noteq> []"
  have st: "set rows = set (event_bands ev d)" by (rule bands_answer_set[OF ans])
  have srt: "sorted (map b_sort_order rows)" using ans by (simp add: bands_answer_def)
  show "last rows \<in> set (event_bands ev d)" using last_in_set[OF ne] st by simp
  show "\<forall>b \<in> set (event_bands ev d). b_sort_order b \<le> b_sort_order (last rows)"
    using sorted_last_max[OF srt] st by blast
  show "distinct (newBandSelection (loadEventData_with rows ev ui d))"
    by (rule baseline_set(1)[OF pk ans ne])
  show "set (newBandSelection (loadEventData_with rows ev ui d))
          = set (band_selection ev (b_id (last rows)) d)"
    by (rule baseline_set(2)[OF pk ans ne])
next
  assume h: "selectedEvent su = Some ev \<and> trim (newBandName su) \<noteq> [] \<and> editingBandId su = None"
  then have sel: "selectedEvent su = Some ev" and name: "trim (newBandName su) \<noteq> []"
    and new: "editingBandId su = None"
    by simp_all
  from handleAddBand_bands_new[OF sel name new, where isAuto = isAuto and d = d]
  obtain n :: nat where tbl: "db_bands (snd (handleAddBand isAuto su d))
           = db_bands d @ [\<lparr>b_id = n, b_event_id = ev, b_name = trim (newBandName su),
                             b_sort_order = int (length (bands su)) + 1\<rparr>]"
    by auto
  let ?nb = "\<lparr>b_id = n, b_event_id = ev, b_name = trim (newBandName su),
                             b_sort_order = int (length (bands su)) + 1\<rparr>"
  have "last after = ?nb"
    if "(\<forall>b \<in> set (event_bands ev d). b_sort_order b \<le> int (length (bands su)))
          \<and> bands_answer ev (snd (handleAddBand isAuto su d)) after"
  proof (rule new_band_is_last[where d = d and ev = ev])
    show "bands_answer ev (snd (handleAddBand isAuto su d)) after" using that by simp
    show "db_bands (snd (handleAddBand isAuto su d)) = db_bands d @ [?nb]" by (rule tbl)
    show "b_event_id ?nb = ev" by simp
    show "\<forall>b \<in> set (event_bands ev d). b_sort_order b < b_sort_order ?nb"
      using that by auto
  qed
  then show "\<exists>nb. db_bands (snd (handleAddBand isAuto su d)) = db_bands d @ [nb]
               \<and> b_event_id nb = ev \<and> b_sort_order nb = int (length (bands su)) + 1
               \<and> ((\<forall>b \<in> set (event_bands ev d). b_sort_order b \<le> int (length (bands su)))
                    \<and> bands_answer ev (snd (handleAddBand isAuto su d)) after
                    \<longrightarrow> last after = nb)"
    using tbl by (intro exI[of _ ?nb]) simp
next
  assume "editingBandId su \<noteq> None"
  then obtain b where "editingBandId su = Some b" by auto
  then show "map (\<lambda>x. (b_id x, b_event_id x, b_sort_order x)) (db_bands (snd (handleAddBand isAuto su d)))
              = map (\<lambda>x. (b_id x, b_event_id x, b_sort_order x)) (db_bands d)"
    by (rule handleAddBand_bands_edit)
next
  show "newBandSelection (loadBandIntoForm snap None cur) = []"
    by (simp add: loadBandIntoForm_def)
qed

theorem baseline_is_last_band_witness:
  "distinct (newBandSelection (loadEventData 3
      \<lparr>events = [3], selectedEventId = Some 3,
       canonicalChannels = [\<lparr>ch_id = 11, ch_name = ''Kick In'', ch_default_order = 1, ch_category_id = None\<rparr>,
                            \<lparr>ch_id = 13, ch_name = ''Lead Vox'', ch_default_order = 2, ch_category_id = None\<rparr>],
       patchChannels = [\<lparr>p_id = 4, p_channel_number = 1, p_canonical_channel_id = Some 11,
                         p_canonical_name = Some ''Kick In''\<rparr>,
                        \<lparr>p_id = 6, p_channel_number = 2, p_canonical_channel_id = Some 13,
                         p_canonical_name = Some ''Lead Vox''\<rparr>],
       bands = [\<lparr>bd_id = 2, bd_name = ''Opener'', bd_sort_order = 1\<rparr>,
                \<lparr>bd_id = 5, bd_name = ''Headliner'', bd_sort_order = 2\<rparr>],
       usageMap = [(2, 4) \<mapsto> \<lparr>u_id = 7, u_band_id = 2, u_patch_channel_id = 4, u_is_used = True,
                               u_label = Some ''Kick In''\<rparr>,
                   (5, 6) \<mapsto> \<lparr>u_id = 8, u_band_id = 5, u_patch_channel_id = 6, u_is_used = True,
                               u_label = Some ''Lead Vox''\<rparr>],
       editingBandId = None, bandDirty = False,
       bandAutoStatus = Idle, newBandName = ''Opener'', newBandSelection = [],
       loading = False, savingBand = False, error = None\<rparr>
      \<lparr>db_canonical_channels = [\<lparr>ch_id = 11, ch_name = ''Kick In'', ch_default_order = 1, ch_category_id = None\<rparr>,
                            \<lparr>ch_id = 13, ch_name = ''Lead Vox'', ch_default_order = 2, ch_category_id = None\<rparr>],
       db_patch_channels = [\<lparr>pc_id = 4, pc_event_id = 3, pc_channel_number = 1,
                              pc_canonical_channel_id = Some 11\<rparr>,
                            \<lparr>pc_id = 6, pc_event_id = 3, pc_channel_number = 2,
                              pc_canonical_channel_id = Some 13\<rparr>],
       db_bands = [\<lparr>b_id = 2, b_event_id = 3, b_name = ''Opener'', b_sort_order = 1\<rparr>,
                   \<lparr>b_id = 5, b_event_id = 3, b_name = ''Headliner'', b_sort_order = 2\<rparr>],
       db_band_channel_usage = [\<lparr>u_id = 7, u_band_id = 2, u_patch_channel_id = 4, u_is_used = True,
                               u_label = Some ''Kick In''\<rparr>,
                                \<lparr>u_id = 8, u_band_id = 5, u_patch_channel_id = 6, u_is_used = True,
                               u_label = Some ''Lead Vox''\<rparr>],
       db_techlists = [], db_techlist_channels = [],
       db_next_id = 10, db_writes = 0\<rparr>))
   \<and> set (newBandSelection (loadEventData 3
      \<lparr>events = [3], selectedEventId = Some 3,
       canonicalChannels = [\<lparr>ch_id = 11, ch_name = ''Kick In'', ch_default_order = 1, ch_category_id = None\<rparr>,
                            \<lparr>ch_id = 13, ch_name = ''Lead Vox'', ch_default_order = 2, ch_category_id = None\<rparr>],
       patchChannels = [\<lparr>p_id = 4, p_channel_number = 1, p_canonical_channel_id = Some 11,
                         p_canonical_name = Some ''Kick In''\<rparr>,
                        \<lparr>p_id = 6, p_channel_number = 2, p_canonical_channel_id = Some 13,
                         p_canonical_name = Some ''Lead Vox''\<rparr>],
       bands = [\<lparr>bd_id = 2, bd_name = ''Opener'', bd_sort_order = 1\<rparr>,
                \<lparr>bd_id = 5, bd_name = ''Headliner'', bd_sort_order = 2\<rparr>],
       usageMap = [(2, 4) \<mapsto> \<lparr>u_id = 7, u_band_id = 2, u_patch_channel_id = 4, u_is_used = True,
                               u_label = Some ''Kick In''\<rparr>,
                   (5, 6) \<mapsto> \<lparr>u_id = 8, u_band_id = 5, u_patch_channel_id = 6, u_is_used = True,
                               u_label = Some ''Lead Vox''\<rparr>],
       editingBandId = None, bandDirty = False,
       bandAutoStatus = Idle, newBandName = ''Opener'', newBandSelection = [],
       loading = False, savingBand = False, error = None\<rparr>
      \<lparr>db_canonical_channels = [\<lparr>ch_id = 11, ch_name = ''Kick In'', ch_default_order = 1, ch_category_id = None\<rparr>,
                            \<lparr>ch_id = 13, ch_name = ''Lead Vox'', ch_default_order = 2, ch_category_id = None\<rparr>],
       db_patch_channels = [\<lparr>pc_id = 4, pc_event_id = 3, pc_channel_number = 1,
                              pc_canonical_channel_id = Some 11\<rparr>,
                            \<lparr>pc_id = 6, pc_event_id = 3, pc_channel_number = 2,
                              pc_canonical_channel_id = Some 13\<rparr>],
       db_bands = [\<lparr>b_id = 2, b_event_id = 3, b_name = ''Opener'', b_sort_order = 1\<rparr>,
                   \<lparr>b_id = 5, b_event_id = 3, b_name = ''Headliner'', b_sort_order = 2\<rparr>],
       db_band_channel_usage = [\<lparr>u_id = 7, u_band_id = 2, u_patch_channel_id = 4, u_is_used = True,
                               u_label = Some ''Kick In''\<rparr>,
                                \<lparr>u_id = 8, u_band_id = 5, u_patch_channel_id = 6, u_is_used = True,
                               u_label = Some ''Lead Vox''\<rparr>],
       db_techlists = [], db_techlist_channels = [],
       db_next_id = 10, db_writes = 0\<rparr>))
     = {13}
   \<and> map b_sort_order (db_bands (snd (handleAddBand False
      \<lparr>events = [3], selectedEventId = Some 3,
       canonicalChannels = [\<lparr>ch_id = 11, ch_name = ''Kick In'', ch_default_order = 1, ch_category_id = None\<rparr>,
                            \<lparr>ch_id = 13, ch_name = ''Lead Vox'', ch_default_order = 2, ch_category_id = None\<rparr>],
       patchChannels = [\<lparr>p_id = 4, p_channel_number = 1, p_canonical_channel_id = Some 11,
                         p_canonical_name = Some ''Kick In''\<rparr>,
                        \<lparr>p_id = 6, p_channel_number = 2, p_canonical_channel_id = Some 13,
                         p_canonical_name = Some ''Lead Vox''\<rparr>],
       bands = [\<lparr>bd_id = 2, bd_name = ''Opener'', bd_sort_order = 1\<rparr>,
                \<lparr>bd_id = 5, bd_name = ''Headliner'', bd_sort_order = 2\<rparr>],
       usageMap = [(2, 4) \<mapsto> \<lparr>u_id = 7, u_band_id = 2, u_patch_channel_id = 4, u_is_used = True,
                               u_label = Some ''Kick In''\<rparr>,
                   (5, 6) \<mapsto> \<lparr>u_id = 8, u_band_id = 5, u_patch_channel_id = 6, u_is_used = True,
                               u_label = Some ''Lead Vox''\<rparr>],
       editingBandId = None, bandDirty = False,
       bandAutoStatus = Idle, newBandName = ''Closer'', newBandSelection = [11],
       loading = False, savingBand = False, error = None\<rparr>
      \<lparr>db_canonical_channels = [\<lparr>ch_id = 11, ch_name = ''Kick In'', ch_default_order = 1, ch_category_id = None\<rparr>,
                            \<lparr>ch_id = 13, ch_name = ''Lead Vox'', ch_default_order = 2, ch_category_id = None\<rparr>],
       db_patch_channels = [\<lparr>pc_id = 4, pc_event_id = 3, pc_channel_number = 1,
                              pc_canonical_channel_id = Some 11\<rparr>,
                            \<lparr>pc_id = 6, pc_event_id = 3, pc_channel_number = 2,
                              pc_canonical_channel_id = Some 13\<rparr>],
       db_bands = [\<lparr>b_id = 2, b_event_id = 3, b_name = ''Opener'', b_sort_order = 1\<rparr>,
                   \<lparr>b_id = 5, b_event_id = 3, b_name = ''Headliner'', b_sort_order = 2\<rparr>],
       db_band_channel_usage = [\<lparr>u_id = 7, u_band_id = 2, u_patch_channel_id = 4, u_is_used = True,
                               u_label = Some ''Kick In''\<rparr>,
                                \<lparr>u_id = 8, u_band_id = 5, u_patch_channel_id = 6, u_is_used = True,
                               u_label = Some ''Lead Vox''\<rparr>],
       db_techlists = [], db_techlist_channels = [],
       db_next_id = 10, db_writes = 0\<rparr>)))
     = [1, 2, 3]
   \<and> map b_sort_order (db_bands (snd (handleAddBand False
      \<lparr>events = [3], selectedEventId = Some 3,
       canonicalChannels = [\<lparr>ch_id = 11, ch_name = ''Kick In'', ch_default_order = 1, ch_category_id = None\<rparr>,
                            \<lparr>ch_id = 13, ch_name = ''Lead Vox'', ch_default_order = 2, ch_category_id = None\<rparr>],
       patchChannels = [\<lparr>p_id = 4, p_channel_number = 1, p_canonical_channel_id = Some 11,
                         p_canonical_name = Some ''Kick In''\<rparr>,
                        \<lparr>p_id = 6, p_channel_number = 2, p_canonical_channel_id = Some 13,
                         p_canonical_name = Some ''Lead Vox''\<rparr>],
       bands = [\<lparr>bd_id = 2, bd_name = ''Opener'', bd_sort_order = 1\<rparr>,
                \<lparr>bd_id = 5, bd_name = ''Headliner'', bd_sort_order = 2\<rparr>],
       usageMap = [(2, 4) \<mapsto> \<lparr>u_id = 7, u_band_id = 2, u_patch_channel_id = 4, u_is_used = True,
                               u_label = Some ''Kick In''\<rparr>,
                   (5, 6) \<mapsto> \<lparr>u_id = 8, u_band_id = 5, u_patch_channel_id = 6, u_is_used = True,
                               u_label = Some ''Lead Vox''\<rparr>],
       editingBandId = Some 2, bandDirty = False,
       bandAutoStatus = Idle, newBandName = ''Opener'', newBandSelection = [11, 13],
       loading = False, savingBand = False, error = None\<rparr>
      \<lparr>db_canonical_channels = [\<lparr>ch_id = 11, ch_name = ''Kick In'', ch_default_order = 1, ch_category_id = None\<rparr>,
                            \<lparr>ch_id = 13, ch_name = ''Lead Vox'', ch_default_order = 2, ch_category_id = None\<rparr>],
       db_patch_channels = [\<lparr>pc_id = 4, pc_event_id = 3, pc_channel_number = 1,
                              pc_canonical_channel_id = Some 11\<rparr>,
                            \<lparr>pc_id = 6, pc_event_id = 3, pc_channel_number = 2,
                              pc_canonical_channel_id = Some 13\<rparr>],
       db_bands = [\<lparr>b_id = 2, b_event_id = 3, b_name = ''Opener'', b_sort_order = 1\<rparr>,
                   \<lparr>b_id = 5, b_event_id = 3, b_name = ''Headliner'', b_sort_order = 2\<rparr>],
       db_band_channel_usage = [\<lparr>u_id = 7, u_band_id = 2, u_patch_channel_id = 4, u_is_used = True,
                               u_label = Some ''Kick In''\<rparr>,
                                \<lparr>u_id = 8, u_band_id = 5, u_patch_channel_id = 6, u_is_used = True,
                               u_label = Some ''Lead Vox''\<rparr>],
       db_techlists = [], db_techlist_channels = [],
       db_next_id = 10, db_writes = 0\<rparr>)))
     = [1, 2]"
proof -
  let ?ui = "\<lparr>events = [3], selectedEventId = Some 3,
       canonicalChannels = [\<lparr>ch_id = 11, ch_name = ''Kick In'', ch_default_order = 1, ch_category_id = None\<rparr>,
                            \<lparr>ch_id = 13, ch_name = ''Lead Vox'', ch_default_order = 2, ch_category_id = None\<rparr>],
       patchChannels = [\<lparr>p_id = 4, p_channel_number = 1, p_canonical_channel_id = Some 11,
                         p_canonical_name = Some ''Kick In''\<rparr>,
                        \<lparr>p_id = 6, p_channel_number = 2, p_canonical_channel_id = Some 13,
                         p_canonical_name = Some ''Lead Vox''\<rparr>],
       bands = [\<lparr>bd_id = 2, bd_name = ''Opener'', bd_sort_order = 1\<rparr>,
                \<lparr>bd_id = 5, bd_name = ''Headliner'', bd_sort_order = 2\<rparr>],
       usageMap = [(2, 4) \<mapsto> \<lparr>u_id = 7, u_band_id = 2, u_patch_channel_id = 4, u_is_used = True,
                               u_label = Some ''Kick In''\<rparr>,
                   (5, 6) \<mapsto> \<lparr>u_id = 8, u_band_id = 5, u_patch_channel_id = 6, u_is_used = True,
                               u_label = Some ''Lead Vox''\<rparr>],
       editingBandId = None, bandDirty = False,
       bandAutoStatus = Idle, newBandName = ''Opener'', newBandSelection = [],
       loading = False, savingBand = False, error = None\<rparr>"
  let ?un = "\<lparr>events = [3], selectedEventId = Some 3,
       canonicalChannels = [\<lparr>ch_id = 11, ch_name = ''Kick In'', ch_default_order = 1, ch_category_id = None\<rparr>,
                            \<lparr>ch_id = 13, ch_name = ''Lead Vox'', ch_default_order = 2, ch_category_id = None\<rparr>],
       patchChannels = [\<lparr>p_id = 4, p_channel_number = 1, p_canonical_channel_id = Some 11,
                         p_canonical_name = Some ''Kick In''\<rparr>,
                        \<lparr>p_id = 6, p_channel_number = 2, p_canonical_channel_id = Some 13,
                         p_canonical_name = Some ''Lead Vox''\<rparr>],
       bands = [\<lparr>bd_id = 2, bd_name = ''Opener'', bd_sort_order = 1\<rparr>,
                \<lparr>bd_id = 5, bd_name = ''Headliner'', bd_sort_order = 2\<rparr>],
       usageMap = [(2, 4) \<mapsto> \<lparr>u_id = 7, u_band_id = 2, u_patch_channel_id = 4, u_is_used = True,
                               u_label = Some ''Kick In''\<rparr>,
                   (5, 6) \<mapsto> \<lparr>u_id = 8, u_band_id = 5, u_patch_channel_id = 6, u_is_used = True,
                               u_label = Some ''Lead Vox''\<rparr>],
       editingBandId = None, bandDirty = False,
       bandAutoStatus = Idle, newBandName = ''Closer'', newBandSelection = [11],
       loading = False, savingBand = False, error = None\<rparr>"
  let ?ue = "\<lparr>events = [3], selectedEventId = Some 3,
       canonicalChannels = [\<lparr>ch_id = 11, ch_name = ''Kick In'', ch_default_order = 1, ch_category_id = None\<rparr>,
                            \<lparr>ch_id = 13, ch_name = ''Lead Vox'', ch_default_order = 2, ch_category_id = None\<rparr>],
       patchChannels = [\<lparr>p_id = 4, p_channel_number = 1, p_canonical_channel_id = Some 11,
                         p_canonical_name = Some ''Kick In''\<rparr>,
                        \<lparr>p_id = 6, p_channel_number = 2, p_canonical_channel_id = Some 13,
                         p_canonical_name = Some ''Lead Vox''\<rparr>],
       bands = [\<lparr>bd_id = 2, bd_name = ''Opener'', bd_sort_order = 1\<rparr>,
                \<lparr>bd_id = 5, bd_name = ''Headliner'', bd_sort_order = 2\<rparr>],
       usageMap = [(2, 4) \<mapsto> \<lparr>u_id = 7, u_band_id = 2, u_patch_channel_id = 4, u_is_used = True,
                               u_label = Some ''Kick In''\<rparr>,
                   (5, 6) \<mapsto> \<lparr>u_id = 8, u_band_id = 5, u_patch_channel_id = 6, u_is_used = True,
                               u_label = Some ''Lead Vox''\<rparr>],
       editingBandId = Some 2, bandDirty = False,
       bandAutoStatus = Idle, newBandName = ''Opener'', newBandSelection = [11, 13],
       loading = False, savingBand = False, error = None\<rparr>"
  let ?d = "\<lparr>db_canonical_channels = [\<lparr>ch_id = 11, ch_name = ''Kick In'', ch_default_order = 1, ch_category_id = None\<rparr>,
                            \<lparr>ch_id = 13, ch_name = ''Lead Vox'', ch_default_order = 2, ch_category_id = None\<rparr>],
       db_patch_channels = [\<lparr>pc_id = 4, pc_event_id = 3, pc_channel_number = 1,
                              pc_canonical_channel_id = Some 11\<rparr>,
                            \<lparr>pc_id = 6, pc_event_id = 3, pc_channel_number = 2,
                              pc_canonical_channel_id = Some 13\<rparr>],
       db_bands = [\<lparr>b_id = 2, b_event_id = 3, b_name = ''Opener'', b_sort_order = 1\<rparr>,
                   \<lparr>b_id = 5, b_event_id = 3, b_name = ''Headliner'', b_sort_order = 2\<rparr>],
       db_band_channel_usage = [\<lparr>u_id = 7, u_band_id = 2, u_patch_channel_id = 4, u_is_used = True,
                               u_label = Some ''Kick In''\<rparr>,
                                \<lparr>u_id = 8, u_band_id = 5, u_patch_channel_id = 6, u_is_used = True,
                               u_label = Some ''Lead Vox''\<rparr>],
       db_techlists = [], db_techlist_channels = [],
       db_next_id = 10, db_writes = 0\<rparr>"
  let ?rows = "selectBands 3 ?d"
  have h: "distinct (map pc_id (db_patch_channels ?d))" by simp
  have rows: "?rows = [\<lparr>b_id = 2, b_event_id = 3, b_name = ''Opener'', b_sort_order = 1\<rparr>,
                   \<lparr>b_id = 5, b_event_id = 3, b_name = ''Headliner'', b_sort_order = 2\<rparr>]"
    by (simp add: selectBands_def)
  have ne: "?rows \<noteq> []" unfolding rows by simp
  have lb: "b_id (last ?rows) = 5" unfolding rows by simp
  have bs: "band_selection 3 5 ?d = [13]"
    by (simp add: band_selection_def event_rows_def List.map_filter_def)
  note th1 = baseline_is_last_band[OF h, where ev = 3 and rows = ?rows and ui = ?ui]
  have a: "distinct (newBandSelection (loadEventData_with ?rows 3 ?ui ?d))
      \<and> set (newBandSelection (loadEventData_with ?rows 3 ?ui ?d))
          = set (band_selection 3 (b_id (last ?rows)) ?d)"
    using th1 ne by blast
  have w1: "distinct (newBandSelection (loadEventData 3 ?ui ?d))
      \<and> set (newBandSelection (loadEventData 3 ?ui ?d)) = {13}"
    using a unfolding lb bs loadEventData_def by simp
  have n1: "selectedEvent ?un = Some 3 \<and> trim (newBandName ?un) \<noteq> [] \<and> editingBandId ?un = None"
    by (simp add: selectedEvent_def trim_def is_space_def)
  note th2 = baseline_is_last_band[OF h, where ev = 3 and su = ?un and isAuto = False]
  have "\<exists>nb. db_bands (snd (handleAddBand False ?un ?d)) = db_bands ?d @ [nb]
               \<and> b_sort_order nb = int (length (bands ?un)) + 1"
    using th2 n1 by blast
  then obtain nb :: band_row where nb: "db_bands (snd (handleAddBand False ?un ?d)) = db_bands ?d @ [nb]"
    "b_sort_order nb = int (length (bands ?un)) + 1"
    by blast
  have w2: "map b_sort_order (db_bands (snd (handleAddBand False ?un ?d))) = [1, 2, 3]"
    unfolding nb(1) using nb(2) by simp
  have e1: "editingBandId ?ue \<noteq> None" by simp
  note th3 = baseline_is_last_band[OF h, where su = ?ue and isAuto = False]
  have "map (\<lambda>x. (b_id x, b_event_id x, b_sort_order x)) (db_bands (snd (handleAddBand False ?ue ?d)))
          = map (\<lambda>x. (b_id x, b_event_id x, b_sort_order x)) (db_bands ?d)"
    using th3 e1 by blast
  then have "map (\<lambda>t. snd (snd t))
               (map (\<lambda>x. (b_id x, b_event_id x, b_sort_order x)) (db_bands (snd (handleAddBand False ?ue ?d))))
          = map (\<lambda>t. snd (snd t))
               (map (\<lambda>x. (b_id x, b_event_id x, b_sort_order x)) (db_bands ?d))"
    by (rule arg_cong)
  then have w3: "map b_sort_order (db_bands (snd (handleAddBand False ?ue ?d))) = [1, 2]"
    by (simp add: comp_def)
  show ?thesis using w1 w2 w3 by blast
qed

text \<open>
  C9 as stated ("the most recently edited or created band") fails for an edit. The event
  has the bands "Opener" (first) and "Headliner" (second, using Lead Vox). "Opener" is
  edited to use Kick In and Lead Vox and saved. Its stored selection is then those two
  channels, but the selection that loading the event offers is Lead Vox alone, the
  selection of "Headliner".
\<close>

theorem baseline_is_last_band_counterexample:
  "band_selection 3 2 (snd (handleAddBand False
      \<lparr>events = [3], selectedEventId = Some 3,
       canonicalChannels = [\<lparr>ch_id = 11, ch_name = ''Kick In'', ch_default_order = 1, ch_category_id = None\<rparr>,
                            \<lparr>ch_id = 13, ch_name = ''Lead Vox'', ch_default_order = 2, ch_category_id = None\<rparr>],
       patchChannels = [\<lparr>p_id = 4, p_channel_number = 1, p_canonical_channel_id = Some 11,
                         p_canonical_name = Some ''Kick In''\<rparr>,
                        \<lparr>p_id = 6, p_channel_number = 2, p_canonical_channel_id = Some 13,
                         p_canonical_name = Some ''Lead Vox''\<rparr>],
       bands = [\<lparr>bd_id = 2, bd_name = ''Opener'', bd_sort_order = 1\<rparr>,
                \<lparr>bd_id = 5, bd_name = ''Headliner'', bd_sort_order = 2\<rparr>],
       usageMap = [(2, 4) \<mapsto> \<lparr>u_id = 7, u_band_id = 2, u_patch_channel_id = 4, u_is_used = True,
                               u_label = Some ''Kick In''\<rparr>,
                   (5, 6) \<mapsto> \<lparr>u_id = 8, u_band_id = 5, u_patch_channel_id = 6, u_is_used = True,
                               u_label = Some ''Lead Vox''\<rparr>],
       editingBandId = Some 2, bandDirty = False,
       bandAutoStatus = Idle, newBandName = ''Opener'', newBandSelection = [11, 13],
       loading = False, savingBand = False, error = None\<rparr>
      \<lparr>db_canonical_channels = [\<lparr>ch_id = 11, ch_name = ''Kick In'', ch_default_order = 1, ch_category_id = None\<rparr>,
                            \<lparr>ch_id = 13, ch_name = ''Lead Vox'', ch_default_order = 2, ch_category_id = None\<rparr>],
       db_patch_channels = [\<lparr>pc_id = 4, pc_event_id = 3, pc_channel_number = 1,
                              pc_canonical_channel_id = Some 11\<rparr>,
                            \<lparr>pc_id = 6, pc_event_id = 3, pc_channel_number = 2,
                              pc_canonical_channel_id = Some 13\<rparr>],
       db_bands = [\<lparr>b_id = 2, b_event_id = 3, b_name = ''Opener'', b_sort_order = 1\<rparr>,
                   \<lparr>b_id = 5, b_event_id = 3, b_name = ''Headliner'', b_sort_order = 2\<rparr>],
       db_band_channel_usage = [\<lparr>u_id = 7, u_band_id = 2, u_patch_channel_id = 4, u_is_used = True,
                               u_label = Some ''Kick In''\<rparr>,
                                \<lparr>u_id = 8, u_band_id = 5, u_patch_channel_id = 6, u_is_used = True,
                               u_label = Some ''Lead Vox''\<rparr>],
       db_techlists = [], db_techlist_channels = [],
       db_next_id = 10, db_writes = 0\<rparr>))
     = [11, 13]
   \<and> newBandSelection (loadEventData 3
      \<lparr>events = [3], selectedEventId = Some 3,
       canonicalChannels = [\<lparr>ch_id = 11, ch_name = ''Kick In'', ch_default_order = 1, ch_category_id = None\<rparr>,
                            \<lparr>ch_id = 13, ch_name = ''Lead Vox'', ch_default_order = 2, ch_category_id = None\<rparr>],
       patchChannels = [\<lparr>p_id = 4, p_channel_number = 1, p_canonical_channel_id = Some 11,
                         p_canonical_name = Some ''Kick In''\<rparr>,
                        \<lparr>p_id = 6, p_channel_number = 2, p_canonical_channel_id = Some 13,
                         p_canonical_name = Some ''Lead Vox''\<rparr>],
       bands = [\<lparr>bd_id = 2, bd_name = ''Opener'', bd_sort_order = 1\<rparr>,
                \<lparr>bd_id = 5, bd_name = ''Headliner'', bd_sort_order = 2\<rparr>],
       usageMap = [(2, 4) \<mapsto> \<lparr>u_id = 7, u_band_id = 2, u_patch_channel_id = 4, u_is_used = True,
                               u_label = Some ''Kick In''\<rparr>,
                   (5, 6) \<mapsto> \<lparr>u_id = 8, u_band_id = 5, u_patch_channel_id = 6, u_is_used = True,
                               u_label = Some ''Lead Vox''\<rparr>],
       editingBandId = Some 2, bandDirty = False,
       bandAutoStatus = Idle, newBandName = ''Opener'', newBandSelection = [11, 13],
       loading = False, savingBand = False, error = None\<rparr>
      (snd (handleAddBand False
      \<lparr>events = [3], selectedEventId = Some 3,
       canonicalChannels = [\<lparr>ch_id = 11, ch_name = ''Kick In'', ch_default_order = 1, ch_category_id = None\<rparr>,
                            \<lparr>ch_id = 13, ch_name = ''Lead Vox'', ch_default_order = 2, ch_category_id = None\<rparr>],
       patchChannels = [\<lparr>p_id = 4, p_channel_number = 1, p_canonical_channel_id = Some 11,
                         p_canonical_name = Some ''Kick In''\<rparr>,
                        \<lparr>p_id = 6, p_channel_number = 2, p_canonical_channel_id = Some 13,
                         p_canonical_name = Some ''Lead Vox''\<rparr>],
       bands = [\<lparr>bd_id = 2, bd_name = ''Opener'', bd_sort_order = 1\<rparr>,
                \<lparr>bd_id = 5, bd_name = ''Headliner'', bd_sort_order = 2\<rparr>],
       usageMap = [(2, 4) \<mapsto> \<lparr>u_id = 7, u_band_id = 2, u_patch_channel_id = 4, u_is_used = True,
                               u_label = Some ''Kick In''\<rparr>,
                   (5, 6) \<mapsto> \<lparr>u_id = 8, u_band_id = 5, u_patch_channel_id = 6, u_is_used = True,
                               u_label = Some ''Lead Vox''\<rparr>],
       editingBandId = Some 2, bandDirty = False,
       bandAutoStatus = Idle, newBandName = ''Opener'', newBandSelection = [11, 13],
       loading = False, savingBand = False, error = None\<rparr>
      \<lparr>db_canonical_channels = [\<lparr>ch_id = 11, ch_name = ''Kick In'', ch_default_order = 1, ch_category_id = None\<rparr>,
                            \<lparr>ch_id = 13, ch_name = ''Lead Vox'', ch_default_order = 2, ch_category_id = None\<rparr>],
       db_patch_channels = [\<lparr>pc_id = 4, pc_event_id = 3, pc_channel_number = 1,
                              pc_canonical_channel_id = Some 11\<rparr>,
                            \<lparr>pc_id = 6, pc_event_id = 3, pc_channel_number = 2,
                              pc_canonical_channel_id = Some 13\<rparr>],
       db_bands = [\<lparr>b_id = 2, b_event_id = 3, b_name = ''Opener'', b_sort_order = 1\<rparr>,
                   \<lparr>b_id = 5, b_event_id = 3, b_name = ''Headliner'', b_sort_order = 2\<rparr>],
       db_band_channel_usage = [\<lparr>u_id = 7, u_band_id = 2, u_patch_channel_id = 4, u_is_used = True,
                               u_label = Some ''Kick In''\<rparr>,
                                \<lparr>u_id = 8, u_band_id = 5, u_patch_channel_id = 6, u_is_used = True,
                               u_label = Some ''Lead Vox''\<rparr>],
       db_techlists = [], db_techlist_channels = [],
       db_next_id = 10, db_writes = 0\<rparr>)))
     = [13]"
proof -
  let ?ui = "\<lparr>events = [3], selectedEventId = Some 3,
       canonicalChannels = [\<lparr>ch_id = 11, ch_name = ''Kick In'', ch_default_order = 1, ch_category_id = None\<rparr>,
                            \<lparr>ch_id = 13, ch_name = ''Lead Vox'', ch_default_order = 2, ch_category_id = None\<rparr>],
       patchChannels = [\<lparr>p_id = 4, p_channel_number = 1, p_canonical_channel_id = Some 11,
                         p_canonical_name = Some ''Kick In''\<rparr>,
                        \<lparr>p_id = 6, p_channel_number = 2, p_canonical_channel_id = Some 13,
                         p_canonical_name = Some ''Lead Vox''\<rparr>],
       bands = [\<lparr>bd_id = 2, bd_name = ''Opener'', bd_sort_order = 1\<rparr>,
                \<lparr>bd_id = 5, bd_name = ''Headliner'', bd_sort_order = 2\<rparr>],
       usageMap = [(2, 4) \<mapsto> \<lparr>u_id = 7, u_band_id = 2, u_patch_channel_id = 4, u_is_used = True,
                               u_label = Some ''Kick In''\<rparr>,
                   (5, 6) \<mapsto> \<lparr>u_id = 8, u_band_id = 5, u_patch_channel_id = 6, u_is_used = True,
                               u_label = Some ''Lead Vox''\<rparr>],
       editingBandId = Some 2, bandDirty = False,
       bandAutoStatus = Idle, newBandName = ''Opener'', newBandSelection = [11, 13],
       loading = False, savingBand = False, error = None\<rparr>"
  let ?d = "\<lparr>db_canonical_channels = [\<lparr>ch_id = 11, ch_name = ''Kick In'', ch_default_order = 1, ch_category_id = None\<rparr>,
                            \<lparr>ch_id = 13, ch_name = ''Lead Vox'', ch_default_order = 2, ch_category_id = None\<rparr>],
       db_patch_channels = [\<lparr>pc_id = 4, pc_event_id = 3, pc_channel_number = 1,
                              pc_canonical_channel_id = Some 11\<rparr>,
                            \<lparr>pc_id = 6, pc_event_id = 3, pc_channel_number = 2,
                              pc_canonical_channel_id = Some 13\<rparr>],
       db_bands = [\<lparr>b_id = 2, b_event_id = 3, b_name = ''Opener'', b_sort_order = 1\<rparr>,
                   \<lparr>b_id = 5, b_event_id = 3, b_name = ''Headliner'', b_sort_order = 2\<rparr>],
       db_band_channel_usage = [\<lparr>u_id = 7, u_band_id = 2, u_patch_channel_id = 4, u_is_used = True,
                               u_label = Some ''Kick In''\<rparr>,
                                \<lparr>u_id = 8, u_band_id = 5, u_patch_channel_id = 6, u_is_used = True,
                               u_label = Some ''Lead Vox''\<rparr>],
       db_techlists = [], db_techlist_channels = [],
       db_next_id = 10, db_writes = 0\<rparr>"
  let ?d3 = "\<lparr>db_canonical_channels = [\<lparr>ch_id = 11, ch_name = ''Kick In'', ch_default_order = 1, ch_category_id = None\<rparr>,
                            \<lparr>ch_id = 13, ch_name = ''Lead Vox'', ch_default_order = 2, ch_category_id = None\<rparr>],
       db_patch_channels = [\<lparr>pc_id = 4, pc_event_id = 3, pc_channel_number = 1,
                              pc_canonical_channel_id = Some 11\<rparr>,
                            \<lparr>pc_id = 6, pc_event_id = 3, pc_channel_number = 2,
                              pc_canonical_channel_id = Some 13\<rparr>],
       db_bands = [\<lparr>b_id = 2, b_event_id = 3, b_name = ''Opener'', b_sort_order = 1\<rparr>,
                   \<lparr>b_id = 5, b_event_id = 3, b_name = ''Headliner'', b_sort_order = 2\<rparr>],
       db_band_channel_usage = [\<lparr>u_id = 7, u_band_id = 2, u_patch_channel_id = 4, u_is_used = True,
                               u_label = Some ''Kick In''\<rparr>,
                                \<lparr>u_id = 8, u_band_id = 5, u_patch_channel_id = 6, u_is_used = True,
                               u_label = Some ''Lead Vox''\<rparr>],
       db_techlists = [], db_techlist_channels = [],
       db_next_id = 10, db_writes = 1\<rparr>"
  let ?d4 = "\<lparr>db_canonical_channels = [\<lparr>ch_id = 11, ch_name = ''Kick In'', ch_default_order = 1, ch_category_id = None\<rparr>,
                            \<lparr>ch_id = 13, ch_name = ''Lead Vox'', ch_default_order = 2, ch_category_id = None\<rparr>],
       db_patch_channels = [\<lparr>pc_id = 4, pc_event_id = 3, pc_channel_number = 1,
                              pc_canonical_channel_id = Some 11\<rparr>,
                            \<lparr>pc_id = 6, pc_event_id = 3, pc_channel_number = 2,
                              pc_canonical_channel_id = Some 13\<rparr>],
       db_bands = [\<lparr>b_id = 2, b_event_id = 3, b_name = ''Opener'', b_sort_order = 1\<rparr>,
                   \<lparr>b_id = 5, b_event_id = 3, b_name = ''Headliner'', b_sort_order = 2\<rparr>],
       db_band_channel_usage = [\<lparr>u_id = 8, u_band_id = 5, u_patch_channel_id = 6, u_is_used = True,
                               u_label = Some ''Lead Vox''\<rparr>,
                                \<lparr>u_id = 10, u_band_id = 2, u_patch_channel_id = 4, u_is_used = True,
                               u_label = Some ''Kick In''\<rparr>,
                                \<lparr>u_id = 11, u_band_id = 2, u_patch_channel_id = 6, u_is_used = True,
                               u_label = Some ''Lead Vox''\<rparr>],
       db_techlists = [], db_techlist_channels = [],
       db_next_id = 12, db_writes = 3\<rparr>"
  have h1: "selectedEvent ?ui = Some 3" by (simp add: selectedEvent_def)
  have h2: "trim (newBandName ?ui) \<noteq> []" by (simp add: trim_def is_space_def)
  have h3: "editingBandId ?ui = Some 2" by simp
  have m: "missing_of ?ui (newBandSelection ?ui) = []" by (simp add: missing_of_def)
  note e = ensure_nothing_missing[OF m, of ?ui ?d]
  have tr: "trim (newBandName ?ui) = ''Opener''" by (simp add: trim_def is_space_def)
  have pb: "persistBand ?ui 3 (snd (snd (ensurePatchChannels ?ui (newBandSelection ?ui) ?ui ?d)))
               = (Inr (2, None), ?d3)"
    unfolding e persistBand_edit[OF h3] tr by simp
  have ru: "replaceUsage ?ui (fst (ensurePatchChannels ?ui (newBandSelection ?ui) ?ui ?d)) 2
               (newBandSelection ?ui) ?d3
             = (Inr [\<lparr>u_id = 10, u_band_id = 2, u_patch_channel_id = 4, u_is_used = True,
                               u_label = Some ''Kick In''\<rparr>,
                     \<lparr>u_id = 11, u_band_id = 2, u_patch_channel_id = 6, u_is_used = True,
                               u_label = Some ''Lead Vox''\<rparr>], ?d4)"
    unfolding e
    by (auto simp: replaceUsage_def deleteUsageOfBand_def insertUsage_def usageRows_of_def
          List.map_filter_def add_to_canonicalToPatch_def canonicalMap_def enumerate_eq_zip
          Let_def numeral_3_eq_3)
  have "snd (handleAddBand False ?ui ?d) = pruneUnusedPatchChannels 3 ?d4"
    by (rule handleAddBand_db[OF h1 h2 pb ru])
  also have "\<dots> = ?d4" by (rule prune_all_used) (simp add: used_in_def)
  finally have res: "snd (handleAddBand False ?ui ?d) = ?d4" .
  have a: "band_selection 3 2 ?d4 = [11, 13]"
    by (simp add: band_selection_def event_rows_def List.map_filter_def)
  have sb: "selectBands 3 ?d4 = [\<lparr>b_id = 2, b_event_id = 3, b_name = ''Opener'', b_sort_order = 1\<rparr>,
                   \<lparr>b_id = 5, b_event_id = 3, b_name = ''Headliner'', b_sort_order = 2\<rparr>]"
    by (simp add: selectBands_def)
  have sp: "map (to_PatchChannel ?d4) (selectPatchChannels 3 ?d4)
      = [\<lparr>p_id = 4, p_channel_number = 1, p_canonical_channel_id = Some 11,
                         p_canonical_name = Some ''Kick In''\<rparr>,
                        \<lparr>p_id = 6, p_channel_number = 2, p_canonical_channel_id = Some 13,
                         p_canonical_name = Some ''Lead Vox''\<rparr>]"
    by (simp add: selectPatchChannels_def to_PatchChannel_def)
  have b: "newBandSelection (loadEventData 3 ?ui ?d4) = [13]"
    unfolding loadEventData_def loadEventData_with_selection sb sp
    by (simp add: baselineSelection_def sort_cmp_def set_add_def to_Band_def)
  show ?thesis unfolding res using a b by (rule conjI)
qed

end
